theory Spec2Isabelle
  imports Main
begin

section \<open>Values of the JavaScript program\<close>

text \<open>
  A string is the sequence of bytes of its UTF-8 encoding. A value that the program does
  not fix the type of (a field of a catalog item, a denormalised field of a plant) is a
  \<open>js_value\<close>: \<open>undefined\<close>, \<open>null\<close>, a string or an integral number.
\<close>

datatype js_value = Undefined | Null | Str string | Num int

fun truthy :: "js_value \<Rightarrow> bool" where
  "truthy Undefined = False"
| "truthy Null = False"
| "truthy (Str s) = (s \<noteq> [])"
| "truthy (Num n) = (n \<noteq> 0)"

text \<open>\<open>a || b\<close>\<close>

definition js_or :: "js_value \<Rightarrow> js_value \<Rightarrow> js_value" where
  "js_or a b = (if truthy a then a else b)"

text \<open>\<open>a ?? null\<close>\<close>

fun or_null :: "js_value \<Rightarrow> js_value" where
  "or_null Undefined = Null"
| "or_null v = v"

text \<open>The decimal text of an integer.\<close>

function dec_nat :: "nat \<Rightarrow> string" where
  "dec_nat n = (if n < 10 then [char_of (48 + n)] else dec_nat (n div 10) @ [char_of (48 + n mod 10)])"
  by pat_completeness auto
termination
  by (relation "measure (\<lambda>n. n)") auto

definition number_text :: "int \<Rightarrow> string" where
  "number_text i = (if i < 0 then CHR ''-'' # dec_nat (nat (- i)) else dec_nat (nat i))"

text \<open>
  What a column of type \<open>TEXT\<close> keeps of a bound value: \<open>NULL\<close>, a text as it is, and of a
  number its text. What a read of the column gives back: \<open>null\<close> or a string.
\<close>

fun text_column :: "js_value \<Rightarrow> string option" where
  "text_column Undefined = None"
| "text_column Null = None"
| "text_column (Str s) = Some s"
| "text_column (Num n) = Some (number_text n)"

fun column_value :: "string option \<Rightarrow> js_value" where
  "column_value None = Null"
| "column_value (Some s) = Str s"

text \<open>
  \<open>String.prototype.trim\<close> removes the white space and line terminator code points at both
  ends: U+0009 to U+000D, U+0020, U+00A0, U+1680, U+2000 to U+200A, U+2028, U+2029, U+202F,
  U+205F, U+3000 and U+FEFF, here in UTF-8.
\<close>

definition white_space :: "string list" where
  "white_space =
     [[CHR 0x09], [CHR 0x0A], [CHR 0x0B], [CHR 0x0C], [CHR 0x0D], [CHR 0x20],
      [CHR 0xC2, CHR 0xA0],
      [CHR 0xE1, CHR 0x9A, CHR 0x80],
      [CHR 0xE2, CHR 0x80, CHR 0x80], [CHR 0xE2, CHR 0x80, CHR 0x81],
      [CHR 0xE2, CHR 0x80, CHR 0x82], [CHR 0xE2, CHR 0x80, CHR 0x83],
      [CHR 0xE2, CHR 0x80, CHR 0x84], [CHR 0xE2, CHR 0x80, CHR 0x85],
      [CHR 0xE2, CHR 0x80, CHR 0x86], [CHR 0xE2, CHR 0x80, CHR 0x87],
      [CHR 0xE2, CHR 0x80, CHR 0x88], [CHR 0xE2, CHR 0x80, CHR 0x89],
      [CHR 0xE2, CHR 0x80, CHR 0x8A],
      [CHR 0xE2, CHR 0x80, CHR 0xA8], [CHR 0xE2, CHR 0x80, CHR 0xA9],
      [CHR 0xE2, CHR 0x80, CHR 0xAF],
      [CHR 0xE2, CHR 0x81, CHR 0x9F],
      [CHR 0xE3, CHR 0x80, CHR 0x80],
      [CHR 0xEF, CHR 0xBB, CHR 0xBF]]"

text \<open>The length of the code point of \<open>ws\<close> that a string starts with, 0 when it starts with none.\<close>

definition leading :: "string list \<Rightarrow> string \<Rightarrow> nat" where
  "leading ws s =
     (case find (\<lambda>w. w \<noteq> [] \<and> take (length w) s = w) ws of None \<Rightarrow> 0 | Some w \<Rightarrow> length w)"

function strip :: "string list \<Rightarrow> string \<Rightarrow> string" where
  "strip ws s = (if leading ws s = 0 then s else strip ws (drop (leading ws s) s))"
  by pat_completeness auto
termination
proof (relation "measure (\<lambda>(ws, s). length s)")
  show "wf (measure (\<lambda>(ws, s). length s))" by simp
next
  fix ws :: "string list" and s :: string
  assume "leading ws s \<noteq> 0"
  then obtain w where "w \<noteq> []" "take (length w) s = w"
    by (auto simp: leading_def find_Some_iff split: option.splits)
  then have "s \<noteq> []" "0 < leading ws s"
    using \<open>leading ws s \<noteq> 0\<close> by auto
  then show "((ws, drop (leading ws s) s), (ws, s)) \<in> measure (\<lambda>(ws, s). length s)"
    by simp
qed

definition trim :: "string \<Rightarrow> string" where
  "trim s = rev (strip (map rev white_space) (rev (strip white_space s)))"

text \<open>The default icon of an area, the pot plant U+1FAB4, in UTF-8.\<close>

definition default_emoji :: string where
  "default_emoji = [CHR 0xF0, CHR 0x9F, CHR 0xAA, CHR 0xB4]"

section \<open>The in-memory domain shape\<close>

record journal_entry =
  e_id :: string
  e_date :: string
  e_text :: string
  e_type :: string

text \<open>
  The stage of a plant is \<open>null\<close> or a string: a plant is built with stage \<open>null\<close> and only
  \<open>updatePlantStage\<close> and \<open>rollbackPlantStage\<close> change it. The fields taken from a catalog
  item are whatever the item holds.
\<close>

record plant =
  p_id :: string
  p_seedId :: js_value
  p_seedTitle :: js_value
  p_seedCategory :: js_value
  p_seedImage :: js_value
  p_plantedDate :: string
  p_stage :: "string option"
  p_journal :: "journal_entry list"

record area =
  a_id :: string
  a_name :: string
  a_emoji :: string
  a_createdAt :: string
  a_plants :: "plant list"

text \<open>A catalog item as the store reads it: \<open>id\<close>, \<open>title\<close> or \<open>name\<close>, \<open>category\<close>, \<open>image_url\<close>.\<close>

record catalog_item =
  s_id :: js_value
  s_title :: js_value
  s_name :: js_value
  s_category :: js_value
  s_image_url :: js_value

text \<open>A custom catalog entry, with the fields \<open>loadAllCustomSeeds\<close> builds.\<close>

record custom_seed =
  cs_id :: string
  cs_title :: string
  cs_category :: "string option"
  cs_scientific_name :: "string option"
  cs_description :: "string option"
  cs_image_url :: "string option"
  cs_url :: "string option"
  cs_isCustom :: bool
  cs_planting_seasons :: "string list"
  cs_best_months :: "string option"
  cs_sun_requirements :: "string option"
  cs_watering :: "string option"
  cs_frost_tolerance :: "string option"
  cs_difficulty :: "string option"
  cs_plant_life :: "string option"
  cs_suitable_for_containers :: bool
  cs_requires_trellis :: bool
  cs_days_to_germination :: "string option"
  cs_days_to_harvest :: "string option"
  cs_sowing_depth :: "string option"
  cs_spacing :: "string option"
  cs_companion_plants :: "string option"
  cs_plant_height :: "string option"
  cs_drought_tolerant :: bool

section \<open>The durable row shape (db.js, initDatabase)\<close>

text \<open>
  One record per table of the schema; a column declared \<open>NOT NULL\<close> is a \<open>string\<close>, a
  nullable column a \<open>string option\<close>. A table is the list of its rows in \<open>rowid\<close> order:
  an insert appends, and every \<open>SELECT ... ORDER BY rowid ASC\<close> reads the list front to back.
\<close>

record area_row =
  ar_id :: string
  ar_name :: string
  ar_emoji :: string
  ar_created_at :: string

record plant_row =
  pr_id :: string
  pr_area_id :: string
  pr_seed_id :: "string option"
  pr_seed_title :: "string option"
  pr_seed_category :: "string option"
  pr_seed_image :: "string option"
  pr_planted_date :: string
  pr_stage :: "string option"

record journal_row =
  jr_id :: string
  jr_plant_id :: string
  jr_date :: string
  jr_text :: string
  jr_type :: string

record custom_seed_row =
  cr_id :: string
  cr_title :: string
  cr_category :: string
  cr_scientific_name :: "string option"
  cr_description :: "string option"
  cr_image_url :: "string option"
  cr_planting_seasons :: "string option"
  cr_best_months :: "string option"
  cr_sun_requirements :: "string option"
  cr_watering :: "string option"
  cr_frost_tolerance :: "string option"
  cr_difficulty :: "string option"
  cr_plant_life :: "string option"
  cr_suitable_for_containers :: int
  cr_requires_trellis :: int
  cr_days_to_germination :: "string option"
  cr_days_to_harvest :: "string option"
  cr_sowing_depth :: "string option"
  cr_spacing :: "string option"
  cr_companion_plants :: "string option"
  cr_plant_height :: "string option"
  cr_drought_tolerant :: int
  cr_is_custom :: int

text \<open>The tables the garden store uses (the key-value table holds settings only).\<close>

record database =
  areas :: "area_row list"
  plants :: "plant_row list"
  journal_entries :: "journal_row list"
  custom_seeds :: "custom_seed_row list"

datatype sql_error =
  PrimaryKeyConstraint | ForeignKeyConstraint | NotNullConstraint | WriteFailure

definition empty_database :: database where
  "empty_database = \<lparr>areas = [], plants = [], journal_entries = [], custom_seeds = []\<rparr>"

section \<open>Data access functions (db.js)\<close>

text \<open>
  Each function runs one SQL statement on the shared connection. The statement either
  changes the tables or is rejected by a constraint of the schema and changes nothing:
  \<open>PRIMARY KEY\<close> on every \<open>id\<close>, \<open>NOT NULL\<close>, and, with \<open>PRAGMA foreign_keys = ON\<close>,
  \<open>REFERENCES ... ON DELETE CASCADE\<close> from plants to areas and from journal entries
  to plants.
\<close>

subsection \<open>Areas\<close>

definition load_journal :: "database \<Rightarrow> string \<Rightarrow> journal_entry list" where
  "load_journal db plantId =
     map (\<lambda>e. \<lparr>e_id = jr_id e, e_date = jr_date e, e_text = jr_text e, e_type = jr_type e\<rparr>)
       (filter (\<lambda>e. jr_plant_id e = plantId) (journal_entries db))"

definition load_plants :: "database \<Rightarrow> string \<Rightarrow> plant list" where
  "load_plants db areaId =
     map (\<lambda>p. \<lparr>p_id = pr_id p, p_seedId = column_value (pr_seed_id p),
              p_seedTitle = column_value (pr_seed_title p),
              p_seedCategory = column_value (pr_seed_category p),
              p_seedImage = column_value (pr_seed_image p),
              p_plantedDate = pr_planted_date p, p_stage = pr_stage p,
              p_journal = load_journal db (pr_id p)\<rparr>)
       (filter (\<lambda>p. pr_area_id p = areaId) (plants db))"

definition loadAllAreas :: "database \<Rightarrow> area list" where
  "loadAllAreas db =
     map (\<lambda>a. \<lparr>a_id = ar_id a, a_name = ar_name a, a_emoji = ar_emoji a,
              a_createdAt = ar_created_at a, a_plants = load_plants db (ar_id a)\<rparr>)
       (areas db)"

definition insertArea ::
  "string \<Rightarrow> string \<Rightarrow> string \<Rightarrow> string \<Rightarrow> database \<Rightarrow> sql_error + database" where
  "insertArea ident name emoji createdAt db =
     (if ident \<in> set (map ar_id (areas db)) then Inl PrimaryKeyConstraint
      else Inr (db\<lparr>areas := areas db @
             [\<lparr>ar_id = ident, ar_name = name, ar_emoji = emoji, ar_created_at = createdAt\<rparr>]\<rparr>))"

text \<open>
  \<open>UPDATE areas SET name = ?, emoji = ? WHERE id = ?\<close>. An absent emoji is bound as
  \<open>NULL\<close>; the column is \<open>NOT NULL\<close>, so the statement is rejected when it reaches a row.
\<close>

definition updateArea ::
  "string \<Rightarrow> string \<Rightarrow> string option \<Rightarrow> database \<Rightarrow> sql_error + database" where
  "updateArea ident name emoji db =
     (case emoji of
        None \<Rightarrow> if ident \<in> set (map ar_id (areas db)) then Inl NotNullConstraint else Inr db
      | Some em \<Rightarrow>
          Inr (db\<lparr>areas := map (\<lambda>a. if ar_id a = ident then a\<lparr>ar_name := name, ar_emoji := em\<rparr> else a)
                 (areas db)\<rparr>))"

text \<open>
  \<open>DELETE FROM areas WHERE id = ?\<close>: the cascade deletes the plants of a deleted area
  and the journal entries of those plants.
\<close>

definition dbDeleteArea :: "string \<Rightarrow> database \<Rightarrow> sql_error + database" where
  "dbDeleteArea ident db =
     (if ident \<in> set (map ar_id (areas db)) then
        (let doomed = map pr_id (filter (\<lambda>p. pr_area_id p = ident) (plants db))
         in Inr (db\<lparr>areas := filter (\<lambda>a. ar_id a \<noteq> ident) (areas db),
                   plants := filter (\<lambda>p. pr_area_id p \<noteq> ident) (plants db),
                   journal_entries :=
                     filter (\<lambda>e. jr_plant_id e \<notin> set doomed) (journal_entries db)\<rparr>))
      else Inr db)"

subsection \<open>Plants\<close>

text \<open>
  The four values taken from the catalog item are bound as \<open>value ?? null\<close> into columns
  of type \<open>TEXT\<close>.
\<close>

definition insertPlant ::
  "string \<Rightarrow> string \<Rightarrow> js_value \<Rightarrow> js_value \<Rightarrow> js_value \<Rightarrow> js_value \<Rightarrow>
   string \<Rightarrow> string option \<Rightarrow> database \<Rightarrow> sql_error + database" where
  "insertPlant ident areaId seedId seedTitle seedCategory seedImage plantedDate stage db =
     (if ident \<in> set (map pr_id (plants db)) then Inl PrimaryKeyConstraint
      else if areaId \<notin> set (map ar_id (areas db)) then Inl ForeignKeyConstraint
      else Inr (db\<lparr>plants := plants db @
             [\<lparr>pr_id = ident, pr_area_id = areaId,
               pr_seed_id = text_column (or_null seedId),
               pr_seed_title = text_column (or_null seedTitle),
               pr_seed_category = text_column (or_null seedCategory),
               pr_seed_image = text_column (or_null seedImage),
               pr_planted_date = plantedDate, pr_stage = stage\<rparr>]\<rparr>))"

definition dbUpdatePlantStage :: "string \<Rightarrow> string option \<Rightarrow> database \<Rightarrow> sql_error + database" where
  "dbUpdatePlantStage plantId stage db =
     Inr (db\<lparr>plants := map (\<lambda>p. if pr_id p = plantId then p\<lparr>pr_stage := stage\<rparr> else p)
            (plants db)\<rparr>)"

definition deletePlant :: "string \<Rightarrow> database \<Rightarrow> sql_error + database" where
  "deletePlant ident db =
     (if ident \<in> set (map pr_id (plants db)) then
        Inr (db\<lparr>plants := filter (\<lambda>p. pr_id p \<noteq> ident) (plants db),
                journal_entries := filter (\<lambda>e. jr_plant_id e \<noteq> ident) (journal_entries db)\<rparr>)
      else Inr db)"

subsection \<open>Journal entries\<close>

definition insertJournalEntry ::
  "string \<Rightarrow> string \<Rightarrow> string \<Rightarrow> string \<Rightarrow> string \<Rightarrow> database \<Rightarrow> sql_error + database" where
  "insertJournalEntry ident plantId date txt type db =
     (if ident \<in> set (map jr_id (journal_entries db)) then Inl PrimaryKeyConstraint
      else if plantId \<notin> set (map pr_id (plants db)) then Inl ForeignKeyConstraint
      else Inr (db\<lparr>journal_entries := journal_entries db @
             [\<lparr>jr_id = ident, jr_plant_id = plantId, jr_date = date, jr_text = txt,
               jr_type = type\<rparr>]\<rparr>))"

definition deleteJournalEntry :: "string \<Rightarrow> database \<Rightarrow> sql_error + database" where
  "deleteJournalEntry ident db =
     Inr (db\<lparr>journal_entries := filter (\<lambda>e. jr_id e \<noteq> ident) (journal_entries db)\<rparr>)"

text \<open>
  The subquery selects the \<open>stage\<close> entries of the plant, \<open>ORDER BY rowid DESC LIMIT 1\<close>:
  the last one of the table. With no such entry it yields \<open>NULL\<close> and nothing is deleted.
\<close>

definition deleteLastStageEntry :: "string \<Rightarrow> database \<Rightarrow> sql_error + database" where
  "deleteLastStageEntry plantId db =
     (case rev (filter (\<lambda>e. jr_plant_id e = plantId \<and> jr_type e = ''stage'') (journal_entries db)) of
        [] \<Rightarrow> Inr db
      | r # _ \<Rightarrow>
          Inr (db\<lparr>journal_entries := filter (\<lambda>e. jr_id e \<noteq> jr_id r) (journal_entries db)\<rparr>))"

subsection \<open>Custom seeds\<close>

text \<open>
  \<open>JSON.stringify\<close> and \<open>JSON.parse\<close> belong to the platform; on an array of strings they
  are the parameters \<open>stringify\<close> and \<open>parse\<close>, the latter with \<open>None\<close> where
  \<open>JSON.parse\<close> throws. An array is truthy, also the empty one, so
  \<open>insertCustomSeed\<close> always stores the text of \<open>planting_seasons\<close>; a stored text is
  parsed unless it is \<open>NULL\<close> or empty.
\<close>

definition insertCustomSeed ::
  "(string list \<Rightarrow> string) \<Rightarrow> custom_seed \<Rightarrow> database \<Rightarrow> sql_error + database" where
  "insertCustomSeed stringify seed db =
     (if cs_id seed \<in> set (map cr_id (custom_seeds db)) then Inl PrimaryKeyConstraint
      else Inr (db\<lparr>custom_seeds := custom_seeds db @
             [\<lparr>cr_id = cs_id seed,
               cr_title = cs_title seed,
               cr_category = (case cs_category seed of None \<Rightarrow> ''Vegetable'' | Some c \<Rightarrow> c),
               cr_scientific_name = cs_scientific_name seed,
               cr_description = cs_description seed,
               cr_image_url = cs_image_url seed,
               cr_planting_seasons = Some (stringify (cs_planting_seasons seed)),
               cr_best_months = cs_best_months seed,
               cr_sun_requirements = cs_sun_requirements seed,
               cr_watering = cs_watering seed,
               cr_frost_tolerance = cs_frost_tolerance seed,
               cr_difficulty = cs_difficulty seed,
               cr_plant_life = cs_plant_life seed,
               cr_suitable_for_containers = (if cs_suitable_for_containers seed then 1 else 0),
               cr_requires_trellis = (if cs_requires_trellis seed then 1 else 0),
               cr_days_to_germination = cs_days_to_germination seed,
               cr_days_to_harvest = cs_days_to_harvest seed,
               cr_sowing_depth = cs_sowing_depth seed,
               cr_spacing = cs_spacing seed,
               cr_companion_plants = cs_companion_plants seed,
               cr_plant_height = cs_plant_height seed,
               cr_drought_tolerant = (if cs_drought_tolerant seed then 1 else 0),
               cr_is_custom = 1\<rparr>]\<rparr>))"

definition seed_of_row :: "(string \<Rightarrow> string list option) \<Rightarrow> custom_seed_row \<Rightarrow> custom_seed option" where
  "seed_of_row parse row =
     (case (case cr_planting_seasons row of
              None \<Rightarrow> Some []
            | Some t \<Rightarrow> if t = [] then Some [] else parse t) of
        None \<Rightarrow> None
      | Some seasons \<Rightarrow>
          Some \<lparr>cs_id = cr_id row,
                cs_title = cr_title row,
                cs_category = Some (cr_category row),
                cs_scientific_name = cr_scientific_name row,
                cs_description = cr_description row,
                cs_image_url = cr_image_url row,
                cs_url = None,
                cs_isCustom = (cr_is_custom row = 1),
                cs_planting_seasons = seasons,
                cs_best_months = cr_best_months row,
                cs_sun_requirements = cr_sun_requirements row,
                cs_watering = cr_watering row,
                cs_frost_tolerance = cr_frost_tolerance row,
                cs_difficulty = cr_difficulty row,
                cs_plant_life = cr_plant_life row,
                cs_suitable_for_containers = (cr_suitable_for_containers row = 1),
                cs_requires_trellis = (cr_requires_trellis row = 1),
                cs_days_to_germination = cr_days_to_germination row,
                cs_days_to_harvest = cr_days_to_harvest row,
                cs_sowing_depth = cr_sowing_depth row,
                cs_spacing = cr_spacing row,
                cs_companion_plants = cr_companion_plants row,
                cs_plant_height = cr_plant_height row,
                cs_drought_tolerant = (cr_drought_tolerant row = 1)\<rparr>)"

text \<open>\<open>rows.map(...)\<close>: one throwing \<open>JSON.parse\<close> rejects the whole load.\<close>

fun load_seed_rows :: "(string \<Rightarrow> string list option) \<Rightarrow> custom_seed_row list \<Rightarrow> custom_seed list option" where
  "load_seed_rows parse [] = Some []"
| "load_seed_rows parse (row # rows) =
     (case seed_of_row parse row of
        None \<Rightarrow> None
      | Some seed \<Rightarrow>
          (case load_seed_rows parse rows of None \<Rightarrow> None | Some seeds \<Rightarrow> Some (seed # seeds)))"

definition loadAllCustomSeeds :: "(string \<Rightarrow> string list option) \<Rightarrow> database \<Rightarrow> custom_seed list option" where
  "loadAllCustomSeeds parse db = load_seed_rows parse (custom_seeds db)"

section \<open>The garden store (GardenContext.js)\<close>

text \<open>
  A store function does two things: it hands React one updater per \<open>setAreas\<close> call,
  which maps the previous in-memory list of areas to the next, and it dispatches calls of
  the data access functions without waiting for them. Its model returns both, and the
  value the function returns. The ids of \<open>makeId()\<close> and the dates of \<open>today()\<close> and
  \<open>new Date().toISOString().slice(0, 10)\<close> are arguments of the model.
\<close>

datatype db_write =
    InsertArea string string string string
  | UpdateArea string string "string option"
  | DeleteArea string
  | InsertPlant string string js_value js_value js_value js_value string "string option"
  | UpdatePlantStage string "string option"
  | DeletePlant string
  | InsertJournalEntry string string string string string
  | DeleteJournalEntry string
  | DeleteLastStageEntry string

datatype db_call = Call db_write | WithTransactionAsync "db_write list"

record 'r outcome =
  returned :: 'r
  set_areas :: "(area list \<Rightarrow> area list) list"
  db_calls :: "db_call list"

definition no_effect :: "unit outcome" where
  "no_effect = \<lparr>returned = (), set_areas = [], db_calls = []\<rparr>"

text \<open>The in-memory states a run of updaters goes through, and the last of them.\<close>

fun observable_states :: "(area list \<Rightarrow> area list) list \<Rightarrow> area list \<Rightarrow> area list list" where
  "observable_states [] prev = []"
| "observable_states (f # fs) prev = f prev # observable_states fs (f prev)"

definition apply_updates :: "(area list \<Rightarrow> area list) list \<Rightarrow> area list \<Rightarrow> area list" where
  "apply_updates fs prev = fold (\<lambda>f st. f st) fs prev"

text \<open>Labels of the journal entries written on a stage change, the emoji in UTF-8.\<close>

definition STAGE_LABELS :: "(string \<times> string) list" where
  "STAGE_LABELS =
     [(''planted'', [CHR 0xF0, CHR 0x9F, CHR 0x8C, CHR 0xB0] @ '' Marked as Planted''),
      (''sprouted'', [CHR 0xF0, CHR 0x9F, CHR 0x8C, CHR 0xB1] @ '' Marked as Sprouted''),
      (''growing'', [CHR 0xF0, CHR 0x9F, CHR 0x8C, CHR 0xBF] @ '' Marked as Growing''),
      (''harvesting'', [CHR 0xF0, CHR 0x9F, CHR 0xA5, CHR 0xAC] @ '' Marked as Harvesting''),
      (''done'', [CHR 0xE2, CHR 0x9C, CHR 0x85] @ '' Marked as Done'')]"

text \<open>\<open>STAGE_LABELS[stage] || stage\<close>\<close>

definition stage_label :: "string \<Rightarrow> string" where
  "stage_label stage = (case map_of STAGE_LABELS stage of Some l \<Rightarrow> l | None \<Rightarrow> stage)"

subsection \<open>Area operations\<close>

definition createArea :: "string \<Rightarrow> string \<Rightarrow> string \<Rightarrow> string option \<Rightarrow> area outcome" where
  "createArea newId isoDate name emoji =
     (let area = \<lparr>a_id = newId, a_name = trim name,
                   a_emoji = (case emoji of None \<Rightarrow> default_emoji | Some em \<Rightarrow> em),
                   a_createdAt = isoDate, a_plants = []\<rparr>
      in \<lparr>returned = area,
          set_areas = [\<lambda>prev. prev @ [area]],
          db_calls = [Call (InsertArea (a_id area) (a_name area) (a_emoji area) (a_createdAt area))]\<rparr>)"

definition renameArea :: "string \<Rightarrow> string \<Rightarrow> string option \<Rightarrow> unit outcome" where
  "renameArea areaId newName newEmoji =
     \<lparr>returned = (),
      set_areas = [\<lambda>prev. map (\<lambda>a. if a_id a = areaId
                     then a\<lparr>a_name := trim newName,
                            a_emoji := (case newEmoji of None \<Rightarrow> a_emoji a | Some em \<Rightarrow> em)\<rparr>
                     else a) prev],
      db_calls = [Call (UpdateArea areaId (trim newName) newEmoji)]\<rparr>"

definition deleteArea :: "string \<Rightarrow> unit outcome" where
  "deleteArea areaId =
     \<lparr>returned = (),
      set_areas = [\<lambda>prev. filter (\<lambda>a. a_id a \<noteq> areaId) prev],
      db_calls = [Call (DeleteArea areaId)]\<rparr>"

subsection \<open>Plant operations\<close>

definition new_plant :: "string \<Rightarrow> string \<Rightarrow> catalog_item \<Rightarrow> plant" where
  "new_plant newId isoDate seed =
     \<lparr>p_id = newId, p_seedId = s_id seed, p_seedTitle = js_or (s_title seed) (s_name seed),
      p_seedCategory = s_category seed, p_seedImage = s_image_url seed,
      p_plantedDate = isoDate, p_stage = None, p_journal = []\<rparr>"

definition insert_plant_call :: "string \<Rightarrow> plant \<Rightarrow> db_write" where
  "insert_plant_call areaId plantRecord =
     InsertPlant (p_id plantRecord) areaId (p_seedId plantRecord) (p_seedTitle plantRecord)
       (p_seedCategory plantRecord) (p_seedImage plantRecord) (p_plantedDate plantRecord)
       (p_stage plantRecord)"

definition addPlantToArea :: "string \<Rightarrow> string \<Rightarrow> string \<Rightarrow> catalog_item \<Rightarrow> plant outcome" where
  "addPlantToArea newId isoDate areaId seed =
     (let plantRecord = new_plant newId isoDate seed
      in \<lparr>returned = plantRecord,
          set_areas = [\<lambda>prev. map (\<lambda>a. if a_id a = areaId
                         then a\<lparr>a_plants := a_plants a @ [plantRecord]\<rparr> else a) prev],
          db_calls = [Call (insert_plant_call areaId plantRecord)]\<rparr>)"

definition createAreaAndAddPlant ::
  "string \<Rightarrow> string \<Rightarrow> string \<Rightarrow> string \<Rightarrow> string \<Rightarrow> string option \<Rightarrow> catalog_item \<Rightarrow> area outcome" where
  "createAreaAndAddPlant areaNewId areaDate plantNewId plantDate name emoji seed =
     (let area = \<lparr>a_id = areaNewId, a_name = trim name,
                   a_emoji = (case emoji of None \<Rightarrow> default_emoji | Some em \<Rightarrow> em),
                   a_createdAt = areaDate, a_plants = []\<rparr>;
          plantRecord = new_plant plantNewId plantDate seed
      in \<lparr>returned = area,
          set_areas = [\<lambda>prev. prev @ [area\<lparr>a_plants := [plantRecord]\<rparr>]],
          db_calls = [WithTransactionAsync
                       [InsertArea (a_id area) (a_name area) (a_emoji area) (a_createdAt area),
                        insert_plant_call (a_id area) plantRecord]]\<rparr>)"

text \<open>
  Every plant the program builds or loads has an array as its journal, so the
  \<open>p.journal || []\<close> of the updaters below is \<open>p.journal\<close>. The stage that
  \<open>updatePlantStage\<close> receives is a string, the key of a stage; \<open>rollbackPlantStage\<close> also
  receives \<open>null\<close>.
\<close>

definition updatePlantStage :: "string \<Rightarrow> string \<Rightarrow> string \<Rightarrow> string \<Rightarrow> string \<Rightarrow> unit outcome" where
  "updatePlantStage newId today areaId plantId stage =
     (let entry = \<lparr>e_id = newId, e_date = today, e_text = stage_label stage, e_type = ''stage''\<rparr>
      in \<lparr>returned = (),
          set_areas = [\<lambda>prev. map (\<lambda>a. if a_id a = areaId
                         then a\<lparr>a_plants := map (\<lambda>p. if p_id p = plantId
                                  then p\<lparr>p_stage := Some stage, p_journal := p_journal p @ [entry]\<rparr>
                                  else p) (a_plants a)\<rparr>
                         else a) prev],
          db_calls = [Call (UpdatePlantStage plantId (Some stage)),
                      Call (InsertJournalEntry (e_id entry) plantId (e_date entry) (e_text entry)
                              (e_type entry))]\<rparr>)"

text \<open>
  The position of the last journal entry of type \<open>stage\<close>
  (\<open>map((e, i) => ({e, i})).filter(...).pop()?.i\<close>), and the journal without the entry at a
  position (\<open>filter((_, i) => i !== lastStageIndex)\<close>).
\<close>

definition lastStageIndex :: "journal_entry list \<Rightarrow> nat option" where
  "lastStageIndex journal =
     (case rev (filter (\<lambda>(e, i). e_type e = ''stage'') (zip journal [0..<length journal])) of
        [] \<Rightarrow> None
      | (e, i) # _ \<Rightarrow> Some i)"

definition trimmed :: "journal_entry list \<Rightarrow> journal_entry list" where
  "trimmed journal =
     (case lastStageIndex journal of
        Some k \<Rightarrow> map fst (filter (\<lambda>(e, i). i \<noteq> k) (zip journal [0..<length journal]))
      | None \<Rightarrow> journal)"

definition rollbackPlantStage :: "string \<Rightarrow> string \<Rightarrow> string option \<Rightarrow> unit outcome" where
  "rollbackPlantStage areaId plantId stage =
     \<lparr>returned = (),
      set_areas = [\<lambda>prev. map (\<lambda>a. if a_id a = areaId
                     then a\<lparr>a_plants := map (\<lambda>p. if p_id p \<noteq> plantId then p
                              else p\<lparr>p_stage := stage, p_journal := trimmed (p_journal p)\<rparr>)
                            (a_plants a)\<rparr>
                     else a) prev],
      db_calls = [Call (UpdatePlantStage plantId stage), Call (DeleteLastStageEntry plantId)]\<rparr>"

definition addJournalEntry :: "string \<Rightarrow> string \<Rightarrow> string \<Rightarrow> string \<Rightarrow> string \<Rightarrow> unit outcome" where
  "addJournalEntry newId today areaId plantId txt =
     (let entry = \<lparr>e_id = newId, e_date = today, e_text = trim txt, e_type = ''note''\<rparr>
      in \<lparr>returned = (),
          set_areas = [\<lambda>prev. map (\<lambda>a. if a_id a = areaId
                         then a\<lparr>a_plants := map (\<lambda>p. if p_id p = plantId
                                  then p\<lparr>p_journal := p_journal p @ [entry]\<rparr>
                                  else p) (a_plants a)\<rparr>
                         else a) prev],
          db_calls = [Call (InsertJournalEntry (e_id entry) plantId (e_date entry) (e_text entry)
                              (e_type entry))]\<rparr>)"

definition removeJournalEntry :: "string \<Rightarrow> string \<Rightarrow> string \<Rightarrow> unit outcome" where
  "removeJournalEntry areaId plantId entryId =
     \<lparr>returned = (),
      set_areas = [\<lambda>prev. map (\<lambda>a. if a_id a = areaId
                     then a\<lparr>a_plants := map (\<lambda>p. if p_id p = plantId
                              then p\<lparr>p_journal := filter (\<lambda>e. e_id e \<noteq> entryId) (p_journal p)\<rparr>
                              else p) (a_plants a)\<rparr>
                     else a) prev],
      db_calls = [Call (DeleteJournalEntry entryId)]\<rparr>"

definition removePlantFromArea :: "string \<Rightarrow> string \<Rightarrow> unit outcome" where
  "removePlantFromArea areaId plantId =
     \<lparr>returned = (),
      set_areas = [\<lambda>prev. map (\<lambda>a. if a_id a = areaId
                     then a\<lparr>a_plants := filter (\<lambda>p. p_id p \<noteq> plantId) (a_plants a)\<rparr>
                     else a) prev],
      db_calls = [Call (DeletePlant plantId)]\<rparr>"

definition addCustomPlantToArea ::
  "string \<Rightarrow> string \<Rightarrow> string \<Rightarrow> string \<Rightarrow> js_value \<Rightarrow> plant outcome" where
  "addCustomPlantToArea newId isoDate areaId name category =
     (let plantRecord =
            \<lparr>p_id = newId, p_seedId = Null, p_seedTitle = Str (trim name),
             p_seedCategory = js_or category (Str ''Other''), p_seedImage = Null,
             p_plantedDate = isoDate, p_stage = None, p_journal = []\<rparr>
      in \<lparr>returned = plantRecord,
          set_areas = [\<lambda>prev. map (\<lambda>a. if a_id a = areaId
                         then a\<lparr>a_plants := a_plants a @ [plantRecord]\<rparr> else a) prev],
          db_calls = [Call (insert_plant_call areaId plantRecord)]\<rparr>)"

subsection \<open>Running the dispatched calls\<close>

text \<open>
  A dispatched call runs its data access function; \<open>.catch(console.error)\<close> drops a
  rejection, which leaves the tables as they were. \<open>withTransactionAsync\<close> runs its
  statements in order between \<open>BEGIN\<close> and \<open>COMMIT\<close> and rolls back at the first
  rejection. The predicate \<open>fails\<close> marks the writes that the device rejects for a reason
  of its own (a simulated write failure).
\<close>

fun perform :: "db_write \<Rightarrow> database \<Rightarrow> sql_error + database" where
  "perform (InsertArea ident name emoji createdAt) db = insertArea ident name emoji createdAt db"
| "perform (UpdateArea ident name emoji) db = updateArea ident name emoji db"
| "perform (DeleteArea ident) db = dbDeleteArea ident db"
| "perform (InsertPlant ident areaId seedId seedTitle seedCategory seedImage plantedDate stage) db =
     insertPlant ident areaId seedId seedTitle seedCategory seedImage plantedDate stage db"
| "perform (UpdatePlantStage plantId stage) db = dbUpdatePlantStage plantId stage db"
| "perform (DeletePlant ident) db = deletePlant ident db"
| "perform (InsertJournalEntry ident plantId date txt type) db =
     insertJournalEntry ident plantId date txt type db"
| "perform (DeleteJournalEntry ident) db = deleteJournalEntry ident db"
| "perform (DeleteLastStageEntry plantId) db = deleteLastStageEntry plantId db"

definition run_write :: "(db_write \<Rightarrow> bool) \<Rightarrow> db_write \<Rightarrow> database \<Rightarrow> sql_error + database" where
  "run_write fails w db = (if fails w then Inl WriteFailure else perform w db)"

fun run_writes :: "(db_write \<Rightarrow> bool) \<Rightarrow> db_write list \<Rightarrow> database \<Rightarrow> sql_error + database" where
  "run_writes fails [] db = Inr db"
| "run_writes fails (w # ws) db =
     (case run_write fails w db of Inl err \<Rightarrow> Inl err | Inr db' \<Rightarrow> run_writes fails ws db')"

fun run_call :: "(db_write \<Rightarrow> bool) \<Rightarrow> db_call \<Rightarrow> database \<Rightarrow> database" where
  "run_call fails (Call w) db = (case run_write fails w db of Inl err \<Rightarrow> db | Inr db' \<Rightarrow> db')"
| "run_call fails (WithTransactionAsync ws) db =
     (case run_writes fails ws db of Inl err \<Rightarrow> db | Inr db' \<Rightarrow> db')"

definition run_calls :: "(db_write \<Rightarrow> bool) \<Rightarrow> db_call list \<Rightarrow> database \<Rightarrow> database" where
  "run_calls fails cs db = fold (run_call fails) cs db"

section \<open>Screen handlers that call the store\<close>

text \<open>
  The handlers of the garden area screen and of the garden screen that the claims are
  about. A handler's changes to the local state of its screen (the text of an input, an
  open modal) are not part of the model: its outcome is what it makes the store do.
\<close>

record stage_def =
  st_key :: string
  st_label :: string
  st_emoji :: string

definition STAGES :: "stage_def list" where
  "STAGES =
     [\<lparr>st_key = ''planted'', st_label = ''Planted'', st_emoji = [CHR 0xF0, CHR 0x9F, CHR 0x8C, CHR 0xB0]\<rparr>,
      \<lparr>st_key = ''sprouted'', st_label = ''Sprouted'', st_emoji = [CHR 0xF0, CHR 0x9F, CHR 0x8C, CHR 0xB1]\<rparr>,
      \<lparr>st_key = ''growing'', st_label = ''Growing'', st_emoji = [CHR 0xF0, CHR 0x9F, CHR 0x8C, CHR 0xBF]\<rparr>,
      \<lparr>st_key = ''harvesting'', st_label = ''Harvesting'', st_emoji = [CHR 0xF0, CHR 0x9F, CHR 0xA5, CHR 0xAC]\<rparr>,
      \<lparr>st_key = ''done'', st_label = ''Done'', st_emoji = [CHR 0xE2, CHR 0x9C, CHR 0x85]\<rparr>]"

text \<open>\<open>Array.prototype.findIndex\<close>: the first position that satisfies the test, or -1.\<close>

fun findIndex :: "('a \<Rightarrow> bool) \<Rightarrow> 'a list \<Rightarrow> int" where
  "findIndex P [] = - 1"
| "findIndex P (x # xs) =
     (if P x then 0 else (let r = findIndex P xs in if r < 0 then - 1 else r + 1))"

definition advanceStage :: "string \<Rightarrow> string \<Rightarrow> string \<Rightarrow> plant \<Rightarrow> unit outcome" where
  "advanceStage newId today areaId plant =
     (let currentIndex = findIndex (\<lambda>s. Some (st_key s) = p_stage plant) STAGES
      in if currentIndex < int (length STAGES) - 1
         then updatePlantStage newId today areaId (p_id plant) (st_key (STAGES ! nat (currentIndex + 1)))
         else no_effect)"

definition goBackStage :: "string \<Rightarrow> plant \<Rightarrow> unit outcome" where
  "goBackStage areaId plant =
     (let currentIndex = findIndex (\<lambda>s. Some (st_key s) = p_stage plant) STAGES
      in if currentIndex > 0
         then rollbackPlantStage areaId (p_id plant) (Some (st_key (STAGES ! nat (currentIndex - 1))))
         else if currentIndex = 0 then rollbackPlantStage areaId (p_id plant) None
         else no_effect)"

definition submitNote ::
  "(string \<rightharpoonup> string) \<Rightarrow> string \<Rightarrow> string \<Rightarrow> string \<Rightarrow> string \<Rightarrow> unit outcome" where
  "submitNote newNoteText newId today areaId plantId =
     (let txt = trim (case newNoteText plantId of None \<Rightarrow> [] | Some t \<Rightarrow> t)
      in if txt = [] then no_effect else addJournalEntry newId today areaId plantId txt)"

definition handleCreate :: "string \<Rightarrow> string \<Rightarrow> string \<Rightarrow> string \<Rightarrow> unit outcome" where
  "handleCreate newId isoDate newName newEmoji =
     (if trim newName = [] then no_effect
      else (let r = createArea newId isoDate newName (Some newEmoji)
            in \<lparr>returned = (), set_areas = set_areas r, db_calls = db_calls r\<rparr>))"

section \<open>Notions the properties are stated with\<close>

text \<open>
  The plant at position \<open>j\<close> of the area at position \<open>i\<close>, and the fact that an area id
  and a plant id address it.
\<close>

definition plant_at :: "area list \<Rightarrow> nat \<Rightarrow> nat \<Rightarrow> plant" where
  "plant_at st i j = a_plants (st ! i) ! j"

definition addresses :: "area list \<Rightarrow> string \<Rightarrow> string \<Rightarrow> nat \<Rightarrow> nat \<Rightarrow> bool" where
  "addresses st areaId plantId i j =
     (i < length st \<and> a_id (st ! i) = areaId \<and> j < length (a_plants (st ! i)) \<and>
      p_id (a_plants (st ! i) ! j) = plantId)"

definition count_stage :: "journal_entry list \<Rightarrow> nat" where
  "count_stage journal = length (filter (\<lambda>e. e_type e = ''stage'') journal)"

subsection \<open>Pressing the stage buttons of the garden area screen\<close>

text \<open>
  The screen renders the plant from the current state and hands it to the handler; every
  press of the advance button draws a new id.
\<close>

definition press_advance :: "string \<Rightarrow> string \<Rightarrow> string \<Rightarrow> nat \<Rightarrow> nat \<Rightarrow> area list \<Rightarrow> area list" where
  "press_advance newId today areaId i j st =
     apply_updates (set_areas (advanceStage newId today areaId (plant_at st i j))) st"

definition press_back :: "string \<Rightarrow> nat \<Rightarrow> nat \<Rightarrow> area list \<Rightarrow> area list" where
  "press_back areaId i j st = apply_updates (set_areas (goBackStage areaId (plant_at st i j))) st"

fun advance_times :: "nat \<Rightarrow> (nat \<Rightarrow> string) \<Rightarrow> string \<Rightarrow> string \<Rightarrow> nat \<Rightarrow> nat \<Rightarrow> area list \<Rightarrow> area list" where
  "advance_times 0 ids today areaId i j st = st"
| "advance_times (Suc n) ids today areaId i j st =
     press_advance (ids n) today areaId i j (advance_times n ids today areaId i j st)"

fun back_times :: "nat \<Rightarrow> string \<Rightarrow> nat \<Rightarrow> nat \<Rightarrow> area list \<Rightarrow> area list" where
  "back_times 0 areaId i j st = st"
| "back_times (Suc n) areaId i j st = press_back areaId i j (back_times n areaId i j st)"

subsection \<open>The order of the stages\<close>

text \<open>Not started (\<open>null\<close>) first, then the keys of \<open>STAGES\<close> in their order.\<close>

definition stage_order :: "string option list" where
  "stage_order = None # map (\<lambda>s. Some (st_key s)) STAGES"

subsection \<open>The mutations that target one area\<close>

datatype mutation =
    DoRenameArea string string "string option"
  | DoAddPlantToArea string string string catalog_item
  | DoAddCustomPlantToArea string string string string js_value
  | DoUpdatePlantStage string string string string string
  | DoRollbackPlantStage string string "string option"
  | DoAddJournalEntry string string string string string
  | DoRemoveJournalEntry string string string
  | DoRemovePlantFromArea string string

fun mutation_updates :: "mutation \<Rightarrow> (area list \<Rightarrow> area list) list" where
  "mutation_updates (DoRenameArea areaId newName newEmoji) =
     set_areas (renameArea areaId newName newEmoji)"
| "mutation_updates (DoAddPlantToArea newId isoDate areaId seed) =
     set_areas (addPlantToArea newId isoDate areaId seed)"
| "mutation_updates (DoAddCustomPlantToArea newId isoDate areaId name category) =
     set_areas (addCustomPlantToArea newId isoDate areaId name category)"
| "mutation_updates (DoUpdatePlantStage newId today areaId plantId stage) =
     set_areas (updatePlantStage newId today areaId plantId stage)"
| "mutation_updates (DoRollbackPlantStage areaId plantId stage) =
     set_areas (rollbackPlantStage areaId plantId stage)"
| "mutation_updates (DoAddJournalEntry newId today areaId plantId txt) =
     set_areas (addJournalEntry newId today areaId plantId txt)"
| "mutation_updates (DoRemoveJournalEntry areaId plantId entryId) =
     set_areas (removeJournalEntry areaId plantId entryId)"
| "mutation_updates (DoRemovePlantFromArea areaId plantId) =
     set_areas (removePlantFromArea areaId plantId)"

definition mutate :: "mutation \<Rightarrow> area list \<Rightarrow> area list" where
  "mutate m prev = apply_updates (mutation_updates m) prev"

fun target_area :: "mutation \<Rightarrow> string" where
  "target_area (DoRenameArea areaId newName newEmoji) = areaId"
| "target_area (DoAddPlantToArea newId isoDate areaId seed) = areaId"
| "target_area (DoAddCustomPlantToArea newId isoDate areaId name category) = areaId"
| "target_area (DoUpdatePlantStage newId today areaId plantId stage) = areaId"
| "target_area (DoRollbackPlantStage areaId plantId stage) = areaId"
| "target_area (DoAddJournalEntry newId today areaId plantId txt) = areaId"
| "target_area (DoRemoveJournalEntry areaId plantId entryId) = areaId"
| "target_area (DoRemovePlantFromArea areaId plantId) = areaId"

fun target_plant :: "mutation \<Rightarrow> string option" where
  "target_plant (DoRenameArea areaId newName newEmoji) = None"
| "target_plant (DoAddPlantToArea newId isoDate areaId seed) = None"
| "target_plant (DoAddCustomPlantToArea newId isoDate areaId name category) = None"
| "target_plant (DoUpdatePlantStage newId today areaId plantId stage) = Some plantId"
| "target_plant (DoRollbackPlantStage areaId plantId stage) = Some plantId"
| "target_plant (DoAddJournalEntry newId today areaId plantId txt) = Some plantId"
| "target_plant (DoRemoveJournalEntry areaId plantId entryId) = Some plantId"
| "target_plant (DoRemovePlantFromArea areaId plantId) = Some plantId"

subsection \<open>Durable states\<close>

text \<open>
  What the constraints of the schema keep true of the tables: the ids of a table are
  distinct (\<open>PRIMARY KEY\<close>), every plant row names an area row and every journal row a plant
  row (\<open>REFERENCES\<close> with foreign keys enforced).
\<close>

definition consistent :: "database \<Rightarrow> bool" where
  "consistent db =
     (distinct (map ar_id (areas db)) \<and> distinct (map pr_id (plants db)) \<and>
      distinct (map jr_id (journal_entries db)) \<and>
      list_all (\<lambda>p. pr_area_id p \<in> set (map ar_id (areas db))) (plants db) \<and>
      list_all (\<lambda>e. jr_plant_id e \<in> set (map pr_id (plants db))) (journal_entries db))"

subsection \<open>Writing a garden with the insert functions\<close>

text \<open>
  Every area is inserted before its plants and every plant before its journal entries,
  each with its insert function; the first rejected insert stops the writing.
\<close>

fun write_journal :: "string \<Rightarrow> journal_entry list \<Rightarrow> database \<Rightarrow> sql_error + database" where
  "write_journal plantId [] db = Inr db"
| "write_journal plantId (e # es) db =
     (case insertJournalEntry (e_id e) plantId (e_date e) (e_text e) (e_type e) db of
        Inl err \<Rightarrow> Inl err
      | Inr db' \<Rightarrow> write_journal plantId es db')"

fun write_plants :: "string \<Rightarrow> plant list \<Rightarrow> database \<Rightarrow> sql_error + database" where
  "write_plants areaId [] db = Inr db"
| "write_plants areaId (p # ps) db =
     (case insertPlant (p_id p) areaId (p_seedId p) (p_seedTitle p) (p_seedCategory p)
             (p_seedImage p) (p_plantedDate p) (p_stage p) db of
        Inl err \<Rightarrow> Inl err
      | Inr db' \<Rightarrow>
          (case write_journal (p_id p) (p_journal p) db' of
             Inl err \<Rightarrow> Inl err
           | Inr db'' \<Rightarrow> write_plants areaId ps db''))"

fun write_areas :: "area list \<Rightarrow> database \<Rightarrow> sql_error + database" where
  "write_areas [] db = Inr db"
| "write_areas (a # as) db =
     (case insertArea (a_id a) (a_name a) (a_emoji a) (a_createdAt a) db of
        Inl err \<Rightarrow> Inl err
      | Inr db' \<Rightarrow>
          (case write_plants (a_id a) (a_plants a) db' of
             Inl err \<Rightarrow> Inl err
           | Inr db'' \<Rightarrow> write_areas as db''))"

text \<open>The row that an insert function writes for an area, a plant and a journal entry.\<close>

definition area_row_of :: "area \<Rightarrow> area_row" where
  "area_row_of a =
     \<lparr>ar_id = a_id a, ar_name = a_name a, ar_emoji = a_emoji a, ar_created_at = a_createdAt a\<rparr>"

definition plant_row_of :: "string \<Rightarrow> plant \<Rightarrow> plant_row" where
  "plant_row_of areaId p =
     \<lparr>pr_id = p_id p, pr_area_id = areaId,
      pr_seed_id = text_column (or_null (p_seedId p)),
      pr_seed_title = text_column (or_null (p_seedTitle p)),
      pr_seed_category = text_column (or_null (p_seedCategory p)),
      pr_seed_image = text_column (or_null (p_seedImage p)),
      pr_planted_date = p_plantedDate p, pr_stage = p_stage p\<rparr>"

definition journal_row_of :: "string \<Rightarrow> journal_entry \<Rightarrow> journal_row" where
  "journal_row_of plantId e =
     \<lparr>jr_id = e_id e, jr_plant_id = plantId, jr_date = e_date e, jr_text = e_text e,
      jr_type = e_type e\<rparr>"

section \<open>Sample data\<close>

definition lettuce :: catalog_item where
  "lettuce = \<lparr>s_id = Str ''c1'', s_title = Str ''Lettuce'', s_name = Undefined,
              s_category = Str ''Vegetable'', s_image_url = Null\<rparr>"

definition sample_journal :: "journal_entry list" where
  "sample_journal =
     [\<lparr>e_id = ''e1'', e_date = ''1 Nov 2026'', e_text = stage_label ''planted'', e_type = ''stage''\<rparr>,
      \<lparr>e_id = ''e2'', e_date = ''2 Nov 2026'', e_text = ''watered'', e_type = ''note''\<rparr>,
      \<lparr>e_id = ''e3'', e_date = ''2 Nov 2026'', e_text = stage_label ''sprouted'', e_type = ''stage''\<rparr>,
      \<lparr>e_id = ''e4'', e_date = ''3 Nov 2026'', e_text = ''first leaves'', e_type = ''note''\<rparr>]"

definition sample_garden :: "area list" where
  "sample_garden =
     [\<lparr>a_id = ''a1'', a_name = ''Planter Box 1'', a_emoji = default_emoji,
       a_createdAt = ''2026-11-01'',
       a_plants =
         [\<lparr>p_id = ''p1'', p_seedId = Str ''c1'', p_seedTitle = Str ''Lettuce'',
           p_seedCategory = Str ''Vegetable'', p_seedImage = Null,
           p_plantedDate = ''2026-11-01'', p_stage = None, p_journal = []\<rparr>]\<rparr>,
      \<lparr>a_id = ''a2'', a_name = ''Herb Bed'', a_emoji = ''H'', a_createdAt = ''2026-11-01'',
       a_plants =
         [\<lparr>p_id = ''p2'', p_seedId = Null, p_seedTitle = Str ''Basil'',
           p_seedCategory = Str ''Herb'', p_seedImage = Null,
           p_plantedDate = ''2026-11-01'', p_stage = Some ''sprouted'',
           p_journal = sample_journal\<rparr>,
          \<lparr>p_id = ''p3'', p_seedId = Null, p_seedTitle = Str ''Mint'',
           p_seedCategory = Str ''Other'', p_seedImage = Null,
           p_plantedDate = ''2026-11-02'', p_stage = None, p_journal = []\<rparr>]\<rparr>]"

text \<open>A device that rejects every insert into the plants table, and one that rejects nothing.\<close>

fun plant_inserts_fail :: "db_write \<Rightarrow> bool" where
  "plant_inserts_fail (InsertPlant ident areaId seedId seedTitle seedCategory seedImage plantedDate stage) = True"
| "plant_inserts_fail w = False"

definition no_failure :: "db_write \<Rightarrow> bool" where
  "no_failure w = False"

text \<open>The rows of the sample garden.\<close>

definition sample_database :: database where
  "sample_database =
     \<lparr>areas =
        [\<lparr>ar_id = ''a1'', ar_name = ''Planter Box 1'', ar_emoji = default_emoji,
          ar_created_at = ''2026-11-01''\<rparr>,
         \<lparr>ar_id = ''a2'', ar_name = ''Herb Bed'', ar_emoji = ''H'', ar_created_at = ''2026-11-01''\<rparr>],
      plants =
        [\<lparr>pr_id = ''p1'', pr_area_id = ''a1'', pr_seed_id = Some ''c1'',
          pr_seed_title = Some ''Lettuce'', pr_seed_category = Some ''Vegetable'',
          pr_seed_image = None, pr_planted_date = ''2026-11-01'', pr_stage = None\<rparr>,
         \<lparr>pr_id = ''p2'', pr_area_id = ''a2'', pr_seed_id = None,
          pr_seed_title = Some ''Basil'', pr_seed_category = Some ''Herb'',
          pr_seed_image = None, pr_planted_date = ''2026-11-01'', pr_stage = Some ''sprouted''\<rparr>,
         \<lparr>pr_id = ''p3'', pr_area_id = ''a2'', pr_seed_id = None,
          pr_seed_title = Some ''Mint'', pr_seed_category = Some ''Other'',
          pr_seed_image = None, pr_planted_date = ''2026-11-02'', pr_stage = None\<rparr>],
      journal_entries =
        [\<lparr>jr_id = ''e1'', jr_plant_id = ''p2'', jr_date = ''1 Nov 2026'',
          jr_text = stage_label ''planted'', jr_type = ''stage''\<rparr>,
         \<lparr>jr_id = ''e2'', jr_plant_id = ''p2'', jr_date = ''2 Nov 2026'',
          jr_text = ''watered'', jr_type = ''note''\<rparr>,
         \<lparr>jr_id = ''e3'', jr_plant_id = ''p2'', jr_date = ''2 Nov 2026'',
          jr_text = stage_label ''sprouted'', jr_type = ''stage''\<rparr>,
         \<lparr>jr_id = ''e4'', jr_plant_id = ''p2'', jr_date = ''3 Nov 2026'',
          jr_text = ''first leaves'', jr_type = ''note''\<rparr>],
      custom_seeds = []\<rparr>"

text \<open>Ids for the entries of successive stage changes, and the sample garden after five advances of its first plant.\<close>

definition sample_ids :: "nat \<Rightarrow> string" where
  "sample_ids n = ''s'' @ replicate n (CHR ''i'')"

definition done_garden :: "area list" where
  "done_garden = advance_times 5 sample_ids ''3 Nov 2026'' ''a1'' 0 0 sample_garden"

text \<open>
  A writer and a reader of arrays of strings in the JSON format, for strings without
  quotes and backslashes, and a custom catalog entry.
\<close>

fun plain_items :: "string list \<Rightarrow> string" where
  "plain_items [] = []"
| "plain_items [x] = CHR 0x22 # x @ [CHR 0x22]"
| "plain_items (x # y # ys) = CHR 0x22 # x @ [CHR 0x22] @ '','' @ plain_items (y # ys)"

definition plain_stringify :: "string list \<Rightarrow> string" where
  "plain_stringify xs = ''['' @ plain_items xs @ '']''"

fun plain_scan :: "bool \<Rightarrow> string \<Rightarrow> string list \<Rightarrow> string \<Rightarrow> string list option" where
  "plain_scan inside cur acc [] = None"
| "plain_scan inside cur acc (c # cs) =
     (if inside then
        (if c = CHR 0x22 then plain_scan False [] (rev cur # acc) cs
         else plain_scan True (c # cur) acc cs)
      else if c = CHR 0x22 then plain_scan True [] acc cs
      else if c = CHR '','' then plain_scan False [] acc cs
      else if c = CHR '']'' \<and> cs = [] then Some (rev acc)
      else None)"

definition plain_parse :: "string \<Rightarrow> string list option" where
  "plain_parse t =
     (case t of [] \<Rightarrow> None | c # cs \<Rightarrow> if c = CHR ''['' then plain_scan False [] [] cs else None)"

definition sample_seed :: custom_seed where
  "sample_seed =
     \<lparr>cs_id = ''custom_k1'', cs_title = ''Purple Kale'', cs_category = Some ''Vegetable'',
      cs_scientific_name = None, cs_description = Some ''A hardy kale'', cs_image_url = None,
      cs_url = None, cs_isCustom = True, cs_planting_seasons = [''Autumn'', ''Winter''],
      cs_best_months = Some ''March to May'', cs_sun_requirements = Some ''Full sun'',
      cs_watering = None, cs_frost_tolerance = Some ''Hardy'', cs_difficulty = None,
      cs_plant_life = None, cs_suitable_for_containers = True, cs_requires_trellis = False,
      cs_days_to_germination = Some ''5-10'', cs_days_to_harvest = None, cs_sowing_depth = None,
      cs_spacing = None, cs_companion_plants = None, cs_plant_height = None,
      cs_drought_tolerant = False\<rparr>"

subsection \<open>Sequences of presses of the stage buttons\<close>

text \<open>
  A press of the advance button (with the id and the date it draws) or of the back button,
  what the handler of a press makes the store do in a state, the state after a press, and
  the outcomes and the final state of a sequence of presses.
\<close>

datatype press = AdvancePress string string | BackPress

fun press_outcome :: "string \<Rightarrow> nat \<Rightarrow> nat \<Rightarrow> area list \<Rightarrow> press \<Rightarrow> unit outcome" where
  "press_outcome areaId i j st (AdvancePress newId today) = advanceStage newId today areaId (plant_at st i j)"
| "press_outcome areaId i j st BackPress = goBackStage areaId (plant_at st i j)"

definition press_state :: "string \<Rightarrow> nat \<Rightarrow> nat \<Rightarrow> area list \<Rightarrow> press \<Rightarrow> area list" where
  "press_state areaId i j st p = apply_updates (set_areas (press_outcome areaId i j st p)) st"

fun press_outcomes :: "string \<Rightarrow> nat \<Rightarrow> nat \<Rightarrow> area list \<Rightarrow> press list \<Rightarrow> unit outcome list" where
  "press_outcomes areaId i j st [] = []"
| "press_outcomes areaId i j st (p # ps) =
     press_outcome areaId i j st p # press_outcomes areaId i j (press_state areaId i j st p) ps"

fun run_presses :: "string \<Rightarrow> nat \<Rightarrow> nat \<Rightarrow> area list \<Rightarrow> press list \<Rightarrow> area list" where
  "run_presses areaId i j st [] = st"
| "run_presses areaId i j st (p # ps) = run_presses areaId i j (press_state areaId i j st p) ps"

text \<open>The journal of the plant after a sequence of presses.\<close>

definition journal_after :: "string \<Rightarrow> nat \<Rightarrow> nat \<Rightarrow> area list \<Rightarrow> press list \<Rightarrow> journal_entry list" where
  "journal_after areaId i j st ps = p_journal (plant_at (run_presses areaId i j st ps) i j)"

text \<open>
  Of the store functions that the two handlers call, \<open>updatePlantStage\<close> is the one that
  dispatches the insert of a journal entry of type \<open>stage\<close> and \<open>rollbackPlantStage\<close> the one
  that dispatches \<open>deleteLastStageEntry\<close>; a handler that returns early dispatches nothing.
  So the dispatched calls of an outcome tell which store function the press called.
\<close>

fun is_stage_insert :: "db_call \<Rightarrow> bool" where
  "is_stage_insert (Call (InsertJournalEntry ident plantId d txt ty)) = (ty = ''stage'')"
| "is_stage_insert c = False"

fun is_stage_delete :: "db_call \<Rightarrow> bool" where
  "is_stage_delete (Call (DeleteLastStageEntry plantId)) = True"
| "is_stage_delete c = False"

definition advance_calls :: "unit outcome list \<Rightarrow> nat" where
  "advance_calls os = length (filter (\<lambda>r. list_ex is_stage_insert (db_calls r)) os)"

definition rollback_calls :: "unit outcome list \<Rightarrow> nat" where
  "rollback_calls os = length (filter (\<lambda>r. list_ex is_stage_delete (db_calls r)) os)"

text \<open>A garden whose one plant has not started and has a note in its journal, and a sequence of presses.\<close>

definition noted_garden :: "area list" where
  "noted_garden =
     [\<lparr>a_id = ''a3'', a_name = ''Window Sill'', a_emoji = default_emoji,
       a_createdAt = ''2026-11-03'',
       a_plants =
         [\<lparr>p_id = ''p4'', p_seedId = Null, p_seedTitle = Str ''Chives'',
           p_seedCategory = Str ''Herb'', p_seedImage = Null,
           p_plantedDate = ''2026-11-03'', p_stage = None,
           p_journal = [\<lparr>e_id = ''e9'', e_date = ''3 Nov 2026'', e_text = ''sown indoors'',
                         e_type = ''note''\<rparr>]\<rparr>]\<rparr>]"

definition sample_presses :: "press list" where
  "sample_presses =
     [AdvancePress ''s1'' ''3 Nov 2026'', AdvancePress ''s2'' ''4 Nov 2026'', BackPress, BackPress,
      BackPress, AdvancePress ''s3'' ''5 Nov 2026'']"

text \<open>
  A text of white space only: an ideographic space U+3000, a no-break space U+00A0 and a
  line separator U+2028.
\<close>

definition wide_blank :: string where
  "wide_blank = [CHR 0xE3, CHR 0x80, CHR 0x80, CHR 0xC2, CHR 0xA0, CHR 0xE2, CHR 0x80, CHR 0xA8]"

subsection \<open>What is written and what comes back\<close>

text \<open>
  What a read gives back of a value that was bound as \<open>value ?? null\<close> into a column of
  type \<open>TEXT\<close>, a plant and an area with the four denormalised fields of every plant read
  back in this way, and the values that come back as they were: \<open>null\<close> and the strings.
\<close>

definition stored_value :: "js_value \<Rightarrow> js_value" where
  "stored_value v = column_value (text_column (or_null v))"

definition stored_plant :: "plant \<Rightarrow> plant" where
  "stored_plant p =
     p\<lparr>p_seedId := stored_value (p_seedId p), p_seedTitle := stored_value (p_seedTitle p),
       p_seedCategory := stored_value (p_seedCategory p),
       p_seedImage := stored_value (p_seedImage p)\<rparr>"

definition stored_area :: "area \<Rightarrow> area" where
  "stored_area a = a\<lparr>a_plants := map stored_plant (a_plants a)\<rparr>"

fun plain_value :: "js_value \<Rightarrow> bool" where
  "plain_value Null = True"
| "plain_value (Str s) = True"
| "plain_value Undefined = False"
| "plain_value (Num n) = False"

definition plain_plant :: "plant \<Rightarrow> bool" where
  "plain_plant p =
     (plain_value (p_seedId p) \<and> plain_value (p_seedTitle p) \<and>
      plain_value (p_seedCategory p) \<and> plain_value (p_seedImage p))"

definition plain_garden :: "area list \<Rightarrow> bool" where
  "plain_garden gdn = list_all (\<lambda>a. list_all plain_plant (a_plants a)) gdn"

text \<open>
  The calls of the three insert functions, in any order, and the nested structure that a
  sequence of them describes: an area is added after the areas before it, a plant after
  the plants of its area, a journal entry after the entries of its plant.
\<close>

fun is_insert :: "db_write \<Rightarrow> bool" where
  "is_insert (InsertArea ident name emoji createdAt) = True"
| "is_insert (InsertPlant ident areaId seedId seedTitle seedCategory seedImage plantedDate stage) = True"
| "is_insert (InsertJournalEntry ident plantId date txt type) = True"
| "is_insert w = False"

fun written :: "db_write \<Rightarrow> area list \<Rightarrow> area list" where
  "written (InsertArea ident name emoji createdAt) g =
     g @ [\<lparr>a_id = ident, a_name = name, a_emoji = emoji, a_createdAt = createdAt, a_plants = []\<rparr>]"
| "written (InsertPlant ident areaId seedId seedTitle seedCategory seedImage plantedDate stage) g =
     map (\<lambda>a. if a_id a = areaId
              then a\<lparr>a_plants := a_plants a @
                     [\<lparr>p_id = ident, p_seedId = seedId, p_seedTitle = seedTitle,
                       p_seedCategory = seedCategory, p_seedImage = seedImage,
                       p_plantedDate = plantedDate, p_stage = stage, p_journal = []\<rparr>]\<rparr>
              else a) g"
| "written (InsertJournalEntry ident plantId date txt type) g =
     map (\<lambda>a. a\<lparr>a_plants := map (\<lambda>p. if p_id p = plantId
                     then p\<lparr>p_journal := p_journal p @
                            [\<lparr>e_id = ident, e_date = date, e_text = txt, e_type = type\<rparr>]\<rparr>
                     else p) (a_plants a)\<rparr>) g"
| "written w g = g"

text \<open>
  A garden whose plant carries a number as the id of its catalog item and no image, the
  rows its inserts write, and the inserts of the sample garden in an order that mixes the
  areas, the plants and the journal entries.
\<close>

definition numbered_garden :: "area list" where
  "numbered_garden =
     [\<lparr>a_id = ''a5'', a_name = ''Raised Bed'', a_emoji = default_emoji,
       a_createdAt = ''2026-11-03'',
       a_plants =
         [\<lparr>p_id = ''p5'', p_seedId = Num 12, p_seedTitle = Str ''Carrot'',
           p_seedCategory = Str ''Vegetable'', p_seedImage = Undefined,
           p_plantedDate = ''2026-11-03'', p_stage = None,
           p_journal = [\<lparr>e_id = ''e7'', e_date = ''3 Nov 2026'', e_text = ''sown'',
                         e_type = ''note''\<rparr>]\<rparr>]\<rparr>]"

definition numbered_database :: database where
  "numbered_database =
     \<lparr>areas =
        [\<lparr>ar_id = ''a5'', ar_name = ''Raised Bed'', ar_emoji = default_emoji,
          ar_created_at = ''2026-11-03''\<rparr>],
      plants =
        [\<lparr>pr_id = ''p5'', pr_area_id = ''a5'', pr_seed_id = Some ''12'',
          pr_seed_title = Some ''Carrot'', pr_seed_category = Some ''Vegetable'',
          pr_seed_image = None, pr_planted_date = ''2026-11-03'', pr_stage = None\<rparr>],
      journal_entries =
        [\<lparr>jr_id = ''e7'', jr_plant_id = ''p5'', jr_date = ''3 Nov 2026'', jr_text = ''sown'',
          jr_type = ''note''\<rparr>],
      custom_seeds = []\<rparr>"

definition mixed_writes :: "db_write list" where
  "mixed_writes =
     [InsertArea ''a1'' ''Planter Box 1'' default_emoji ''2026-11-01'',
      InsertArea ''a2'' ''Herb Bed'' ''H'' ''2026-11-01'',
      InsertPlant ''p2'' ''a2'' Null (Str ''Basil'') (Str ''Herb'') Null ''2026-11-01'' (Some ''sprouted''),
      InsertJournalEntry ''e1'' ''p2'' ''1 Nov 2026'' (stage_label ''planted'') ''stage'',
      InsertPlant ''p1'' ''a1'' (Str ''c1'') (Str ''Lettuce'') (Str ''Vegetable'') Undefined
        ''2026-11-01'' None,
      InsertJournalEntry ''e2'' ''p2'' ''2 Nov 2026'' ''watered'' ''note'',
      InsertPlant ''p3'' ''a2'' Null (Str ''Mint'') (Str ''Other'') Null ''2026-11-02'' None,
      InsertJournalEntry ''e3'' ''p2'' ''2 Nov 2026'' (stage_label ''sprouted'') ''stage'',
      InsertJournalEntry ''e4'' ''p2'' ''3 Nov 2026'' ''first leaves'' ''note'']"

section \<open>Stage changes of one plant\<close>

lemma nested_update_at:
  assumes "addresses prev areaId plantId i j"
  shows "plant_at (map (\<lambda>a. if a_id a = areaId
                         then a\<lparr>a_plants := map (\<lambda>p. if p_id p = plantId then g p else p) (a_plants a)\<rparr>
                         else a) prev) i j = g (plant_at prev i j)"
  using assms by (simp add: addresses_def plant_at_def)



lemma zip_filter_keep:
  "length xs = length ns \<Longrightarrow> k \<notin> set ns \<Longrightarrow> map fst (filter (\<lambda>(e, i). i \<noteq> k) (zip xs ns)) = xs"
  by (induction xs ns rule: list_induct2) auto

lemma zip_filter_none:
  "\<forall>x\<in>set xs. \<not> P x \<Longrightarrow> filter (\<lambda>(e, i). P e) (zip xs ns) = []"
  by (auto simp: filter_empty_conv dest: set_zip_leftD)

lemma upt_split_at:
  "[0..<Suc (n + m)] = [0..<n] @ n # [Suc n..<Suc (n + m)]"
proof -
  have "[0..<n + Suc m] = [0..<n] @ [n..<n + Suc m]"
    by (rule upt_add_eq_append) simp
  moreover have "[n..<n + Suc m] = n # [Suc n..<n + Suc m]"
    by (rule upt_conv_Cons) simp
  ultimately show ?thesis by (simp del: upt_Suc)
qed

lemma zip_index_split:
  "zip (pre @ e # post) [0..<length (pre @ e # post)] =
     zip pre [0..<length pre] @ (e, length pre) # zip post [Suc (length pre)..<Suc (length pre + length post)]"
proof -
  have "length (pre @ e # post) = Suc (length pre + length post)" by simp
  then show ?thesis
    by (simp only: upt_split_at) (simp add: zip_append del: upt_Suc)
qed

lemma lastStageIndex_split:
  assumes "e_type e = ''stage''" "\<forall>x\<in>set post. e_type x \<noteq> ''stage''"
  shows "lastStageIndex (pre @ e # post) = Some (length pre)"
  unfolding lastStageIndex_def zip_index_split using assms
  by (simp add: zip_filter_none del: upt_Suc)

lemma lastStageIndex_none:
  assumes "\<forall>x\<in>set journal. e_type x \<noteq> ''stage''"
  shows "lastStageIndex journal = None"
  unfolding lastStageIndex_def using assms by (simp add: zip_filter_none)

lemma trimmed_split:
  assumes "e_type e = ''stage''" "\<forall>x\<in>set post. e_type x \<noteq> ''stage''"
  shows "trimmed (pre @ e # post) = pre @ post"
proof -
  have "map fst (filter (\<lambda>(e, i). i \<noteq> length pre) (zip pre [0..<length pre])) = pre"
    by (rule zip_filter_keep) auto
  moreover have "map fst (filter (\<lambda>(e, i). i \<noteq> length pre) (zip post [Suc (length pre)..<Suc (length pre + length post)])) = post"
    by (rule zip_filter_keep) (simp_all del: upt_Suc)
  ultimately show ?thesis
    unfolding trimmed_def lastStageIndex_split[OF assms] zip_index_split by (simp del: upt_Suc)
qed

lemma trimmed_none:
  "\<forall>x\<in>set journal. e_type x \<noteq> ''stage'' \<Longrightarrow> trimmed journal = journal"
  by (simp add: trimmed_def lastStageIndex_none)

lemma nested_update_at':
  assumes "addresses prev areaId plantId i j"
  shows "plant_at (map (\<lambda>a. if a_id a = areaId
                         then a\<lparr>a_plants := map (\<lambda>p. if p_id p \<noteq> plantId then p else g p) (a_plants a)\<rparr>
                         else a) prev) i j = g (plant_at prev i j)"
  using assms by (simp add: addresses_def plant_at_def)

lemma count_stage_zero: "count_stage journal = 0 \<longleftrightarrow> (\<forall>x\<in>set journal. e_type x \<noteq> ''stage'')"
  by (simp add: count_stage_def filter_empty_conv)

lemma last_stage_split:
  assumes "0 < count_stage journal"
  shows "\<exists>pre e post. journal = pre @ e # post \<and> e_type e = ''stage'' \<and> count_stage post = 0"
proof -
  from assms have "\<exists>x\<in>set journal. e_type x = ''stage''"
    using count_stage_zero[of journal] by auto
  then obtain pre e post where "journal = pre @ e # post" "e_type e = ''stage''"
      "\<forall>z\<in>set post. e_type z \<noteq> ''stage''"
    using split_list_last_prop[of journal "\<lambda>x. e_type x = ''stage''"] by blast
  then show ?thesis by (auto simp: count_stage_zero)
qed

lemma trimmed_cases:
  "(count_stage journal = 0 \<and> trimmed journal = journal) \<or>
   (\<exists>pre e post. journal = pre @ e # post \<and> e_type e = ''stage'' \<and> count_stage post = 0 \<and>
      trimmed journal = pre @ post)"
proof (cases "count_stage journal = 0")
  case True
  then show ?thesis by (simp add: count_stage_zero trimmed_none)
next
  case False
  then obtain pre e post where s: "journal = pre @ e # post" "e_type e = ''stage''" "count_stage post = 0"
    using last_stage_split[of journal] by auto
  then have "trimmed journal = pre @ post"
    by (simp add: trimmed_split count_stage_zero)
  with s show ?thesis by blast
qed

section \<open>Creating an area together with its first plant\<close>

lemma transaction_all_or_nothing:
  "run_writes fails [InsertArea aid nm em dt, InsertPlant pid aid sid stitle scat simg pdate stg] db = Inr db' \<Longrightarrow>
     db' = db\<lparr>areas := areas db @ [\<lparr>ar_id = aid, ar_name = nm, ar_emoji = em, ar_created_at = dt\<rparr>],
             plants := plants db @
               [\<lparr>pr_id = pid, pr_area_id = aid, pr_seed_id = text_column (or_null sid),
                 pr_seed_title = text_column (or_null stitle),
                 pr_seed_category = text_column (or_null scat),
                 pr_seed_image = text_column (or_null simg), pr_planted_date = pdate,
                 pr_stage = stg\<rparr>]\<rparr>"
  by (auto simp: run_write_def insertArea_def insertPlant_def split: if_splits sum.splits)

text \<open>
  Claim C1. \<open>createAreaAndAddPlant\<close> makes exactly one state transition, from the previous
  list of areas to that list followed by the new area with its one plant, so that no state
  with the new area and no plant is observable. It dispatches both inserts in one
  transaction: whichever statements the device or a constraint rejects, the tables end up
  either as they were or with both the area row and the plant row appended, and so never
  with the new area row and without its plant row.
\<close>

theorem createAreaAndAddPlant_atomic:
  "observable_states
     (set_areas (createAreaAndAddPlant areaNewId areaDate plantNewId plantDate name emoji seed)) prev
     = [prev @ [\<lparr>a_id = areaNewId, a_name = trim name,
                  a_emoji = (case emoji of None \<Rightarrow> default_emoji | Some em \<Rightarrow> em),
                  a_createdAt = areaDate,
                  a_plants = [new_plant plantNewId plantDate seed]\<rparr>]] \<and>
   db_calls (createAreaAndAddPlant areaNewId areaDate plantNewId plantDate name emoji seed)
     = [WithTransactionAsync
          [InsertArea areaNewId (trim name) (case emoji of None \<Rightarrow> default_emoji | Some em \<Rightarrow> em) areaDate,
           insert_plant_call areaNewId (new_plant plantNewId plantDate seed)]] \<and>
   (\<forall>fails db.
      run_calls fails
        (db_calls (createAreaAndAddPlant areaNewId areaDate plantNewId plantDate name emoji seed)) db = db \<or>
      run_calls fails
        (db_calls (createAreaAndAddPlant areaNewId areaDate plantNewId plantDate name emoji seed)) db
        = db\<lparr>areas := areas db @
                 [\<lparr>ar_id = areaNewId, ar_name = trim name,
                   ar_emoji = (case emoji of None \<Rightarrow> default_emoji | Some em \<Rightarrow> em),
                   ar_created_at = areaDate\<rparr>],
              plants := plants db @
                 [\<lparr>pr_id = plantNewId, pr_area_id = areaNewId,
                   pr_seed_id = text_column (or_null (s_id seed)),
                   pr_seed_title = text_column (or_null (js_or (s_title seed) (s_name seed))),
                   pr_seed_category = text_column (or_null (s_category seed)),
                   pr_seed_image = text_column (or_null (s_image_url seed)),
                   pr_planted_date = plantDate, pr_stage = None\<rparr>]\<rparr>) \<and>
   (\<forall>fails db.
      areaNewId \<notin> set (map ar_id (areas db)) \<longrightarrow>
      areaNewId \<in> set (map ar_id (areas (run_calls fails
        (db_calls (createAreaAndAddPlant areaNewId areaDate plantNewId plantDate name emoji seed)) db))) \<longrightarrow>
      (\<exists>r \<in> set (plants (run_calls fails
        (db_calls (createAreaAndAddPlant areaNewId areaDate plantNewId plantDate name emoji seed)) db)).
         pr_id r = plantNewId \<and> pr_area_id r = areaNewId))"
proof -
  have states: "observable_states
     (set_areas (createAreaAndAddPlant areaNewId areaDate plantNewId plantDate name emoji seed)) prev
     = [prev @ [\<lparr>a_id = areaNewId, a_name = trim name,
                  a_emoji = (case emoji of None \<Rightarrow> default_emoji | Some em \<Rightarrow> em),
                  a_createdAt = areaDate,
                  a_plants = [new_plant plantNewId plantDate seed]\<rparr>]]"
    by (simp add: createAreaAndAddPlant_def Let_def)
  have dispatched: "db_calls (createAreaAndAddPlant areaNewId areaDate plantNewId plantDate name emoji seed)
     = [WithTransactionAsync
          [InsertArea areaNewId (trim name) (case emoji of None \<Rightarrow> default_emoji | Some em \<Rightarrow> em) areaDate,
           insert_plant_call areaNewId (new_plant plantNewId plantDate seed)]]"
    by (simp add: createAreaAndAddPlant_def Let_def)
  have atomic: "run_calls fails
        (db_calls (createAreaAndAddPlant areaNewId areaDate plantNewId plantDate name emoji seed)) db = db \<or>
      run_calls fails
        (db_calls (createAreaAndAddPlant areaNewId areaDate plantNewId plantDate name emoji seed)) db
        = db\<lparr>areas := areas db @
                 [\<lparr>ar_id = areaNewId, ar_name = trim name,
                   ar_emoji = (case emoji of None \<Rightarrow> default_emoji | Some em \<Rightarrow> em),
                   ar_created_at = areaDate\<rparr>],
              plants := plants db @
                 [\<lparr>pr_id = plantNewId, pr_area_id = areaNewId,
                   pr_seed_id = text_column (or_null (s_id seed)),
                   pr_seed_title = text_column (or_null (js_or (s_title seed) (s_name seed))),
                   pr_seed_category = text_column (or_null (s_category seed)),
                   pr_seed_image = text_column (or_null (s_image_url seed)),
                   pr_planted_date = plantDate, pr_stage = None\<rparr>]\<rparr>" for fails db
  proof -
    let ?ws = "[InsertArea areaNewId (trim name) (case emoji of None \<Rightarrow> default_emoji | Some em \<Rightarrow> em) areaDate,
           InsertPlant plantNewId areaNewId (s_id seed) (js_or (s_title seed) (s_name seed))
             (s_category seed) (s_image_url seed) plantDate None]"
    have calls: "db_calls (createAreaAndAddPlant areaNewId areaDate plantNewId plantDate name emoji seed)
       = [WithTransactionAsync ?ws]"
      by (simp add: createAreaAndAddPlant_def Let_def insert_plant_call_def new_plant_def)
    show ?thesis
    proof (cases "run_writes fails ?ws db")
      case (Inl err)
      then show ?thesis unfolding calls by (simp add: run_calls_def)
    next
      case (Inr db')
      from transaction_all_or_nothing[OF Inr] Inr show ?thesis
        unfolding calls by (simp add: run_calls_def)
    qed
  qed
  have never: "areaNewId \<notin> set (map ar_id (areas db)) \<longrightarrow>
      areaNewId \<in> set (map ar_id (areas (run_calls fails
        (db_calls (createAreaAndAddPlant areaNewId areaDate plantNewId plantDate name emoji seed)) db))) \<longrightarrow>
      (\<exists>r \<in> set (plants (run_calls fails
        (db_calls (createAreaAndAddPlant areaNewId areaDate plantNewId plantDate name emoji seed)) db)).
         pr_id r = plantNewId \<and> pr_area_id r = areaNewId)" for fails db
    using atomic[of fails db] by (elim disjE) simp_all
  from states dispatched atomic never show ?thesis by blast
qed

lemma sample_load: "loadAllAreas sample_database = sample_garden"
  by (simp add: loadAllAreas_def load_plants_def load_journal_def sample_database_def sample_garden_def sample_journal_def)

theorem createAreaAndAddPlant_atomic_witness:
  "run_calls plant_inserts_fail
     (db_calls (createAreaAndAddPlant ''a9'' ''2026-11-03'' ''p9'' ''2026-11-03'' '' Planter Box 9 '' None lettuce))
     sample_database = sample_database \<and>
   map ar_id (areas (run_calls no_failure
     (db_calls (createAreaAndAddPlant ''a9'' ''2026-11-03'' ''p9'' ''2026-11-03'' '' Planter Box 9 '' None lettuce))
     sample_database)) = [''a1'', ''a2'', ''a9''] \<and>
   map pr_id (plants (run_calls no_failure
     (db_calls (createAreaAndAddPlant ''a9'' ''2026-11-03'' ''p9'' ''2026-11-03'' '' Planter Box 9 '' None lettuce))
     sample_database)) = [''p1'', ''p2'', ''p3'', ''p9'']"
proof -
  have c: "db_calls (createAreaAndAddPlant ''a9'' ''2026-11-03'' ''p9'' ''2026-11-03'' '' Planter Box 9 '' None lettuce)
     = [WithTransactionAsync
          [InsertArea ''a9'' (trim '' Planter Box 9 '') default_emoji ''2026-11-03'',
           insert_plant_call ''a9'' (new_plant ''p9'' ''2026-11-03'' lettuce)]]"
    using createAreaAndAddPlant_atomic [of "''a9''" "''2026-11-03''" "''p9''" "''2026-11-03''" "'' Planter Box 9 ''" None lettuce "[]"]
    by simp
  show ?thesis
    unfolding c
    by (simp add: run_calls_def run_write_def no_failure_def insert_plant_call_def new_plant_def
        insertArea_def insertPlant_def sample_database_def)
qed

section \<open>Empty text\<close>

lemma trim_blank: "trim ''  '' = []"
  by code_simp

lemma trim_wide_blank: "trim wide_blank = []"
  by code_simp

lemma trim_wide_ends: "trim (wide_blank @ ''Mint tea'' @ wide_blank) = ''Mint tea''"
  by code_simp

text \<open>
  Claim C5 says that \<open>addJournalEntry\<close> with a text and \<open>createArea\<close> with a name that
  trim to the empty string change nothing and dispatch nothing. The store functions trim
  and do not test: with two blanks as the text, the note is appended and its insert
  dispatched, and with two blanks as the name, the area is appended and its insert dispatched. The same
  holds of a text made of an ideographic space, a no-break space and a line separator,
  which \<open>trim\<close> removes as well.
\<close>

theorem store_accepts_blank_text_counterexample:
  "trim ''  '' = [] \<and> trim wide_blank = [] \<and>
   apply_updates (set_areas (addJournalEntry ''e9'' ''3 Nov 2026'' ''a1'' ''p1'' wide_blank)) sample_garden
     \<noteq> sample_garden \<and>
   db_calls (addJournalEntry ''e9'' ''3 Nov 2026'' ''a1'' ''p1'' wide_blank)
     = [Call (InsertJournalEntry ''e9'' ''p1'' ''3 Nov 2026'' [] ''note'')] \<and>
   db_calls (createArea ''a9'' ''2026-11-03'' wide_blank None)
     = [Call (InsertArea ''a9'' [] default_emoji ''2026-11-03'')] \<and>
   apply_updates (set_areas (addJournalEntry ''e9'' ''3 Nov 2026'' ''a1'' ''p1'' ''  '')) sample_garden
     \<noteq> sample_garden \<and>
   db_calls (addJournalEntry ''e9'' ''3 Nov 2026'' ''a1'' ''p1'' ''  '')
     = [Call (InsertJournalEntry ''e9'' ''p1'' ''3 Nov 2026'' [] ''note'')] \<and>
   apply_updates (set_areas (createArea ''a9'' ''2026-11-03'' ''  '' None)) sample_garden
     \<noteq> sample_garden \<and>
   db_calls (createArea ''a9'' ''2026-11-03'' ''  '' None)
     = [Call (InsertArea ''a9'' [] default_emoji ''2026-11-03'')]"
  by (simp add: trim_blank trim_wide_blank addJournalEntry_def createArea_def apply_updates_def Let_def
      sample_garden_def)

text \<open>
  Claim C5, amended. The test for an empty input is made by the screen handlers: when the
  text trims to the empty string, \<open>submitNote\<close> and \<open>handleCreate\<close> return before they
  call the store, so that the state is unchanged and nothing is dispatched. The store
  functions themselves always act: \<open>addJournalEntry\<close> makes its one state transition and
  dispatches the insert of the note with the trimmed text, and \<open>createArea\<close> appends the
  area with the trimmed name and dispatches its insert.
\<close>

theorem blank_input_stops_in_the_screen_handlers:
  "(trim (case newNoteText plantId of None \<Rightarrow> [] | Some t \<Rightarrow> t) = [] \<longrightarrow>
      set_areas (submitNote newNoteText newId today areaId plantId) = [] \<and>
      db_calls (submitNote newNoteText newId today areaId plantId) = [] \<and>
      apply_updates (set_areas (submitNote newNoteText newId today areaId plantId)) prev = prev) \<and>
   (trim newName = [] \<longrightarrow>
      set_areas (handleCreate newId isoDate newName newEmoji) = [] \<and>
      db_calls (handleCreate newId isoDate newName newEmoji) = [] \<and>
      apply_updates (set_areas (handleCreate newId isoDate newName newEmoji)) prev = prev) \<and>
   length (set_areas (addJournalEntry newId today areaId plantId txt)) = 1 \<and>
   db_calls (addJournalEntry newId today areaId plantId txt)
     = [Call (InsertJournalEntry newId plantId today (trim txt) ''note'')] \<and>
   observable_states (set_areas (createArea newId isoDate name emoji)) prev
     = [prev @ [\<lparr>a_id = newId, a_name = trim name,
                  a_emoji = (case emoji of None \<Rightarrow> default_emoji | Some em \<Rightarrow> em),
                  a_createdAt = isoDate, a_plants = []\<rparr>]] \<and>
   db_calls (createArea newId isoDate name emoji)
     = [Call (InsertArea newId (trim name) (case emoji of None \<Rightarrow> default_emoji | Some em \<Rightarrow> em) isoDate)]"
  by (simp add: submitNote_def handleCreate_def no_effect_def apply_updates_def Let_def
      addJournalEntry_def createArea_def)

theorem blank_input_stops_in_the_screen_handlers_witness:
  "trim (case [''p1'' \<mapsto> ''  ''] ''p1'' of None \<Rightarrow> [] | Some t \<Rightarrow> t) = [] \<and>
   db_calls (submitNote [''p1'' \<mapsto> ''  ''] ''a9'' ''3 Nov 2026'' ''a1'' ''p1'') = [] \<and>
   apply_updates (set_areas (submitNote [''p1'' \<mapsto> ''  ''] ''a9'' ''3 Nov 2026'' ''a1'' ''p1'')) sample_garden
     = sample_garden \<and>
   trim ''  '' = [] \<and>
   db_calls (handleCreate ''a9'' ''2026-11-03'' ''  '' default_emoji) = [] \<and>
   apply_updates (set_areas (handleCreate ''a9'' ''2026-11-03'' ''  '' default_emoji)) sample_garden
     = sample_garden \<and>
   trim (case [''p1'' \<mapsto> wide_blank] ''p1'' of None \<Rightarrow> [] | Some t \<Rightarrow> t) = [] \<and>
   db_calls (submitNote [''p1'' \<mapsto> wide_blank] ''a9'' ''3 Nov 2026'' ''a1'' ''p1'') = [] \<and>
   apply_updates (set_areas (submitNote [''p1'' \<mapsto> wide_blank] ''a9'' ''3 Nov 2026'' ''a1'' ''p1'')) sample_garden
     = sample_garden \<and>
   trim wide_blank = [] \<and>
   db_calls (handleCreate ''a9'' ''2026-11-03'' wide_blank default_emoji) = [] \<and>
   apply_updates (set_areas (handleCreate ''a9'' ''2026-11-03'' wide_blank default_emoji)) sample_garden
     = sample_garden \<and>
   db_calls (addJournalEntry ''a9'' ''3 Nov 2026'' ''a1'' ''p1'' (wide_blank @ ''Mint tea'' @ wide_blank))
     = [Call (InsertJournalEntry ''a9'' ''p1'' ''3 Nov 2026'' ''Mint tea'' ''note'')]"
proof -
  have h: "trim (case [''p1'' \<mapsto> ''  ''] ''p1'' of None \<Rightarrow> [] | Some t \<Rightarrow> t) = []"
    by (simp add: trim_blank)
  have wb: "trim (case [''p1'' \<mapsto> wide_blank] ''p1'' of None \<Rightarrow> [] | Some t \<Rightarrow> t) = []"
    by (simp add: trim_wide_blank)
  have a: "db_calls (submitNote [''p1'' \<mapsto> ''  ''] ''a9'' ''3 Nov 2026'' ''a1'' ''p1'') = [] \<and>
   apply_updates (set_areas (submitNote [''p1'' \<mapsto> ''  ''] ''a9'' ''3 Nov 2026'' ''a1'' ''p1'')) sample_garden
     = sample_garden \<and>
   db_calls (handleCreate ''a9'' ''2026-11-03'' ''  '' default_emoji) = [] \<and>
   apply_updates (set_areas (handleCreate ''a9'' ''2026-11-03'' ''  '' default_emoji)) sample_garden
     = sample_garden"
    using h trim_blank
      blank_input_stops_in_the_screen_handlers
        [where newNoteText = "[''p1'' \<mapsto> ''  '']" and plantId = "''p1''" and newId = "''a9''"
           and today = "''3 Nov 2026''" and areaId = "''a1''" and prev = sample_garden
           and newName = "''  ''" and isoDate = "''2026-11-03''" and newEmoji = default_emoji]
    by (simp add: apply_updates_def)
  have b: "db_calls (submitNote [''p1'' \<mapsto> wide_blank] ''a9'' ''3 Nov 2026'' ''a1'' ''p1'') = [] \<and>
   apply_updates (set_areas (submitNote [''p1'' \<mapsto> wide_blank] ''a9'' ''3 Nov 2026'' ''a1'' ''p1'')) sample_garden
     = sample_garden \<and>
   db_calls (handleCreate ''a9'' ''2026-11-03'' wide_blank default_emoji) = [] \<and>
   apply_updates (set_areas (handleCreate ''a9'' ''2026-11-03'' wide_blank default_emoji)) sample_garden
     = sample_garden \<and>
   db_calls (addJournalEntry ''a9'' ''3 Nov 2026'' ''a1'' ''p1'' (wide_blank @ ''Mint tea'' @ wide_blank))
     = [Call (InsertJournalEntry ''a9'' ''p1'' ''3 Nov 2026'' ''Mint tea'' ''note'')]"
    using wb trim_wide_blank trim_wide_ends
      blank_input_stops_in_the_screen_handlers
        [where newNoteText = "[''p1'' \<mapsto> wide_blank]" and plantId = "''p1''" and newId = "''a9''"
           and today = "''3 Nov 2026''" and areaId = "''a1''" and prev = sample_garden
           and newName = wide_blank and isoDate = "''2026-11-03''" and newEmoji = default_emoji
           and ?txt = "wide_blank @ ''Mint tea'' @ wide_blank"]
    by (simp add: apply_updates_def)
  from h wb a b trim_blank trim_wide_blank show ?thesis by simp
qed

section \<open>Renaming an area\<close>

lemma trim_balcony: "trim ''Balcony'' = ''Balcony''"
  by code_simp

text \<open>
  Claim C6 at the call \<open>renameArea(''a2'', ''Balcony'')\<close> on the sample garden, the emoji
  omitted. In memory the area gets the new name and keeps its emoji. The dispatched
  \<open>updateArea\<close> receives the absent emoji as it is, the \<open>NOT NULL\<close> column rejects the
  statement, and a later \<open>loadAllAreas\<close> still returns the old name.
\<close>

theorem renameArea_without_emoji_is_not_persisted:
  "map a_name (apply_updates (set_areas (renameArea ''a2'' ''Balcony'' None)) (loadAllAreas sample_database))
     = [''Planter Box 1'', ''Balcony''] \<and>
   map a_emoji (apply_updates (set_areas (renameArea ''a2'' ''Balcony'' None)) (loadAllAreas sample_database))
     = [default_emoji, ''H''] \<and>
   db_calls (renameArea ''a2'' ''Balcony'' None) = [Call (UpdateArea ''a2'' ''Balcony'' None)] \<and>
   perform (UpdateArea ''a2'' ''Balcony'' None) sample_database = Inl NotNullConstraint \<and>
   map a_name (loadAllAreas (run_calls no_failure (db_calls (renameArea ''a2'' ''Balcony'' None)) sample_database))
     = [''Planter Box 1'', ''Herb Bed'']"
  by (simp add: renameArea_def apply_updates_def loadAllAreas_def sample_database_def trim_balcony
      run_calls_def run_write_def no_failure_def updateArea_def)

section \<open>The two stage updaters and the journal\<close>

lemma addresses_updatePlantStage:
  "addresses st a p i j \<Longrightarrow>
   addresses (apply_updates (set_areas (updatePlantStage newId today areaId plantId stage)) st) a p i j"
  by (auto simp: addresses_def updatePlantStage_def apply_updates_def Let_def)

lemma addresses_rollbackPlantStage:
  "addresses st a p i j \<Longrightarrow>
   addresses (apply_updates (set_areas (rollbackPlantStage areaId plantId stage)) st) a p i j"
  by (auto simp: addresses_def rollbackPlantStage_def apply_updates_def)

lemma count_stage_trimmed: "count_stage (trimmed journal) = count_stage journal - 1"
  using trimmed_cases[of journal]
  by (elim disjE exE conjE) (simp_all add: count_stage_def)

lemma notes_trimmed:
  "filter (\<lambda>e. e_type e \<noteq> ''stage'') (trimmed journal) = filter (\<lambda>e. e_type e \<noteq> ''stage'') journal"
  using trimmed_cases[of journal]
  by (elim disjE exE conjE) simp_all

lemma length_trimmed: "length journal \<le> length (trimmed journal) + 1"
  using trimmed_cases[of journal]
  by (elim disjE exE conjE) simp_all

lemma plant_after_updatePlantStage:
  assumes "addresses st areaId plantId i j"
  shows "plant_at (apply_updates (set_areas (updatePlantStage newId today areaId plantId stage)) st) i j
         = (plant_at st i j)\<lparr>p_stage := Some stage,
              p_journal := p_journal (plant_at st i j) @
                [\<lparr>e_id = newId, e_date = today, e_text = stage_label stage, e_type = ''stage''\<rparr>]\<rparr>"
  using assms by (simp add: updatePlantStage_def apply_updates_def nested_update_at Let_def)

lemma plant_after_rollbackPlantStage:
  assumes "addresses st areaId plantId i j"
  shows "plant_at (apply_updates (set_areas (rollbackPlantStage areaId plantId stage)) st) i j
         = (plant_at st i j)\<lparr>p_stage := stage, p_journal := trimmed (p_journal (plant_at st i j))\<rparr>"
  using assms by (simp add: rollbackPlantStage_def apply_updates_def nested_update_at')

section \<open>The order of stage changes\<close>

lemma stage_order_list:
  "stage_order = [None, Some ''planted'', Some ''sprouted'', Some ''growing'', Some ''harvesting'', Some ''done'']"
  by (simp add: stage_order_def STAGES_def)

lemma stage_order_cases:
  assumes "k \<le> 5"
  shows "k = 0 \<or> k = 1 \<or> k = 2 \<or> k = 3 \<or> k = 4 \<or> k = (5::nat)"
  using assms by arith

lemma advanceStage_at:
  assumes "k \<le> 5" "p_stage plant = stage_order ! k"
  shows "advanceStage newId today areaId plant =
           (if k < 5 then updatePlantStage newId today areaId (p_id plant) (the (stage_order ! Suc k))
            else no_effect)"
  using stage_order_cases[OF assms(1)] assms(2)
  by (elim disjE) (simp_all add: advanceStage_def stage_order_list STAGES_def Let_def)

lemma goBackStage_at:
  assumes "k \<le> 5" "p_stage plant = stage_order ! k"
  shows "goBackStage areaId plant =
           (if 0 < k then rollbackPlantStage areaId (p_id plant) (stage_order ! (k - 1))
            else no_effect)"
  using stage_order_cases[OF assms(1)] assms(2)
  by (elim disjE) (simp_all add: goBackStage_def stage_order_list STAGES_def Let_def)

lemma stage_order_the:
  assumes "k < 5"
  shows "Some (the (stage_order ! Suc k)) = stage_order ! Suc k"
proof -
  from assms have "k = 0 \<or> k = 1 \<or> k = 2 \<or> k = 3 \<or> k = (4::nat)" by arith
  then show ?thesis by (elim disjE) (simp_all add: stage_order_list)
qed

lemma press_advance_step:
  assumes "addresses st areaId plantId i j" "k \<le> 5" "p_stage (plant_at st i j) = stage_order ! k"
  shows "addresses (press_advance newId today areaId i j st) areaId plantId i j \<and>
         p_stage (plant_at (press_advance newId today areaId i j st) i j) = stage_order ! min (Suc k) 5"
proof (cases "k < 5")
  case True
  have pid: "p_id (plant_at st i j) = plantId"
    using assms(1) by (simp add: addresses_def plant_at_def)
  have eq: "press_advance newId today areaId i j st =
      apply_updates (set_areas (updatePlantStage newId today areaId plantId (the (stage_order ! Suc k)))) st"
    by (simp add: press_advance_def advanceStage_at[OF assms(2,3)] True pid)
  show ?thesis
    unfolding eq using True
    by (simp add: addresses_updatePlantStage[OF assms(1)] plant_after_updatePlantStage[OF assms(1)]
        stage_order_the)
next
  case False
  then have "press_advance newId today areaId i j st = st"
    by (simp add: press_advance_def advanceStage_at[OF assms(2,3)] no_effect_def apply_updates_def)
  with False assms show ?thesis by simp
qed

lemma press_back_step:
  assumes "addresses st areaId plantId i j" "k \<le> 5" "p_stage (plant_at st i j) = stage_order ! k"
  shows "addresses (press_back areaId i j st) areaId plantId i j \<and>
         p_stage (plant_at (press_back areaId i j st) i j) = stage_order ! (k - 1)"
proof (cases "0 < k")
  case True
  have pid: "p_id (plant_at st i j) = plantId"
    using assms(1) by (simp add: addresses_def plant_at_def)
  have eq: "press_back areaId i j st =
      apply_updates (set_areas (rollbackPlantStage areaId plantId (stage_order ! (k - 1)))) st"
    by (simp add: press_back_def goBackStage_at[OF assms(2,3)] True pid)
  show ?thesis
    unfolding eq
    by (simp add: addresses_rollbackPlantStage[OF assms(1)] plant_after_rollbackPlantStage[OF assms(1)])
next
  case False
  then have "press_back areaId i j st = st"
    by (simp add: press_back_def goBackStage_at[OF assms(2,3)] no_effect_def apply_updates_def)
  with False assms show ?thesis by simp
qed

lemma advance_times_stage:
  assumes "addresses st areaId plantId i j" "k \<le> 5" "p_stage (plant_at st i j) = stage_order ! k"
  shows "addresses (advance_times n ids today areaId i j st) areaId plantId i j \<and>
         p_stage (plant_at (advance_times n ids today areaId i j st) i j) = stage_order ! min (k + n) 5"
proof (induction n)
  case 0
  with assms show ?case by simp
next
  case (Suc n)
  have "min (k + n) 5 \<le> (5::nat)" by simp
  from press_advance_step[OF conjunct1[OF Suc] this conjunct2[OF Suc], of "ids n" today]
  show ?case by (simp add: min_def)
qed

lemma back_times_stage:
  assumes "addresses st areaId plantId i j" "k \<le> 5" "p_stage (plant_at st i j) = stage_order ! k"
  shows "addresses (back_times n areaId i j st) areaId plantId i j \<and>
         p_stage (plant_at (back_times n areaId i j st) i j) = stage_order ! (k - n)"
proof (induction n)
  case 0
  with assms show ?case by simp
next
  case (Suc n)
  have "k - n \<le> 5" using assms(2) by simp
  from press_back_step[OF conjunct1[OF Suc] this conjunct2[OF Suc]]
  show ?case by simp
qed

text \<open>
  Claim C9. For a plant shown by the garden area screen: from stage \<open>null\<close>, pressing the
  advance button \<open>n\<close> times leaves the plant at position \<open>min n 5\<close> of the order
  \<open>null\<close>, planted, sprouted, growing, harvesting, done, so every stage is visited in
  turn and none is skipped; at \<open>done\<close> the advance handler calls nothing and the state
  stays as it is. From \<open>done\<close>, pressing the back button \<open>n\<close> times leaves the plant at
  position \<open>5 - n\<close> of the same order; at \<open>null\<close> the back handler calls nothing and the
  state stays as it is.
\<close>

theorem stages_are_visited_in_order:
  assumes "addresses st areaId plantId i j"
  shows "stage_order = [None, Some ''planted'', Some ''sprouted'', Some ''growing'',
                        Some ''harvesting'', Some ''done''] \<and>
         (p_stage (plant_at st i j) = None \<longrightarrow>
            (\<forall>n. p_stage (plant_at (advance_times n ids today areaId i j st) i j)
                   = stage_order ! min n 5) \<and>
            goBackStage areaId (plant_at st i j) = no_effect \<and>
            press_back areaId i j st = st) \<and>
         (p_stage (plant_at st i j) = Some ''done'' \<longrightarrow>
            (\<forall>n. p_stage (plant_at (back_times n areaId i j st) i j) = stage_order ! (5 - n)) \<and>
            advanceStage newId today areaId (plant_at st i j) = no_effect \<and>
            press_advance newId today areaId i j st = st)"
proof (intro conjI impI allI)
  show "stage_order = [None, Some ''planted'', Some ''sprouted'', Some ''growing'',
                        Some ''harvesting'', Some ''done'']"
    by (rule stage_order_list)
next
  fix n assume s: "p_stage (plant_at st i j) = None"
  then have "p_stage (plant_at st i j) = stage_order ! 0" by (simp add: stage_order_list)
  from advance_times_stage[OF assms _ this, of n ids today]
  show "p_stage (plant_at (advance_times n ids today areaId i j st) i j) = stage_order ! min n 5"
    by simp
next
  assume s: "p_stage (plant_at st i j) = None"
  then have k: "p_stage (plant_at st i j) = stage_order ! 0" by (simp add: stage_order_list)
  show g: "goBackStage areaId (plant_at st i j) = no_effect"
    using goBackStage_at[OF _ k, of areaId] by simp
  show "press_back areaId i j st = st"
    by (simp add: press_back_def g no_effect_def apply_updates_def)
next
  fix n assume s: "p_stage (plant_at st i j) = Some ''done''"
  then have "p_stage (plant_at st i j) = stage_order ! 5" by (simp add: stage_order_list)
  from back_times_stage[OF assms _ this, of n]
  show "p_stage (plant_at (back_times n areaId i j st) i j) = stage_order ! (5 - n)"
    by simp
next
  assume s: "p_stage (plant_at st i j) = Some ''done''"
  then have k: "p_stage (plant_at st i j) = stage_order ! 5" by (simp add: stage_order_list)
  show g: "advanceStage newId today areaId (plant_at st i j) = no_effect"
    using advanceStage_at[OF _ k, of newId today areaId] by simp
  show "press_advance newId today areaId i j st = st"
    by (simp add: press_advance_def g no_effect_def apply_updates_def)
qed


theorem stages_are_visited_in_order_witness:
  "addresses sample_garden ''a1'' ''p1'' 0 0 \<and>
   p_stage (plant_at sample_garden 0 0) = None \<and>
   map (\<lambda>n. p_stage (plant_at (advance_times n sample_ids ''3 Nov 2026'' ''a1'' 0 0 sample_garden) 0 0))
       [0, 1, 2, 3, 4, 5, 6]
     = [None, Some ''planted'', Some ''sprouted'', Some ''growing'', Some ''harvesting'',
        Some ''done'', Some ''done''] \<and>
   addresses done_garden ''a1'' ''p1'' 0 0 \<and>
   p_stage (plant_at done_garden 0 0) = Some ''done'' \<and>
   map (\<lambda>n. p_stage (plant_at (back_times n ''a1'' 0 0 done_garden) 0 0)) [0, 1, 2, 3, 4, 5, 6]
     = [Some ''done'', Some ''harvesting'', Some ''growing'', Some ''sprouted'', Some ''planted'',
        None, None]"
proof -
  have h: "addresses sample_garden ''a1'' ''p1'' 0 0"
    by (simp add: addresses_def sample_garden_def)
  have s: "p_stage (plant_at sample_garden 0 0) = None"
    by (simp add: plant_at_def sample_garden_def)
  have s0: "p_stage (plant_at sample_garden 0 0) = stage_order ! 0"
    by (simp add: s stage_order_list)
  have fwd: "p_stage (plant_at (advance_times n sample_ids ''3 Nov 2026'' ''a1'' 0 0 sample_garden) 0 0)
      = stage_order ! min n 5" for n
    using stages_are_visited_in_order [OF h, of sample_ids "''3 Nov 2026''"] s by blast
  have hd: "addresses done_garden ''a1'' ''p1'' 0 0"
    unfolding done_garden_def using advance_times_stage[OF h _ s0, of 5 sample_ids "''3 Nov 2026''"] by simp
  have sd: "p_stage (plant_at done_garden 0 0) = Some ''done''"
    unfolding done_garden_def by (simp add: fwd stage_order_list)
  have bwd: "p_stage (plant_at (back_times n ''a1'' 0 0 done_garden) 0 0) = stage_order ! (5 - n)" for n
    using stages_are_visited_in_order [OF hd] sd by blast
  show ?thesis
    by (simp add: h s hd sd fwd bwd stage_order_list)
qed

section \<open>What a targeted mutation leaves alone\<close>

lemma filter_others_map:
  assumes "\<And>p. p_id (g p) = p_id p"
  shows "filter (\<lambda>p. p_id p \<noteq> pid) (map (\<lambda>p. if p_id p = pid then g p else p) ps)
         = filter (\<lambda>p. p_id p \<noteq> pid) ps"
  by (induction ps) (simp_all add: assms)

lemma filter_others_map':
  assumes "\<And>p. p_id (g p) = p_id p"
  shows "filter (\<lambda>p. p_id p \<noteq> pid) (map (\<lambda>p. if p_id p \<noteq> pid then p else g p) ps)
         = filter (\<lambda>p. p_id p \<noteq> pid) ps"
  by (induction ps) (simp_all add: assms)

lemma map_target_absent:
  assumes "pid \<notin> p_id ` set ps"
  shows "map (\<lambda>p. if p_id p = pid then g p else p) ps = ps"
    and "map (\<lambda>p. if p_id p \<noteq> pid then p else g p) ps = ps"
    and "filter (\<lambda>p. p_id p \<noteq> pid) ps = ps"
  using assms by (induction ps) auto

lemma mutate_area_ids: "map a_id (mutate m prev) = map a_id prev"
  by (cases m; induction prev)
     (simp_all add: mutate_def apply_updates_def renameArea_def addPlantToArea_def
        addCustomPlantToArea_def updatePlantStage_def rollbackPlantStage_def addJournalEntry_def
        removeJournalEntry_def removePlantFromArea_def Let_def)

lemma mutate_length: "length (mutate m prev) = length prev"
  using mutate_area_ids[of m prev] by (metis length_map)

lemma mutate_other_areas:
  assumes "i < length prev" "a_id (prev ! i) \<noteq> target_area m"
  shows "mutate m prev ! i = prev ! i"
  using assms
  by (cases m)
     (simp_all add: mutate_def apply_updates_def renameArea_def addPlantToArea_def
        addCustomPlantToArea_def updatePlantStage_def rollbackPlantStage_def addJournalEntry_def
        removeJournalEntry_def removePlantFromArea_def Let_def)

lemma mutate_other_plants:
  assumes "target_plant m = Some pid" "i < length prev"
  shows "filter (\<lambda>p. p_id p \<noteq> pid) (a_plants (mutate m prev ! i))
         = filter (\<lambda>p. p_id p \<noteq> pid) (a_plants (prev ! i))"
  using assms
  by (cases m)
     (simp_all add: mutate_def apply_updates_def updatePlantStage_def rollbackPlantStage_def
        addJournalEntry_def removeJournalEntry_def removePlantFromArea_def Let_def
        filter_others_map filter_others_map')

lemma mutate_plant_ids:
  assumes "target_plant m = Some pid" "i < length prev"
  shows "map p_id (a_plants (mutate m prev ! i)) =
           (case m of
              DoRemovePlantFromArea areaId plantId \<Rightarrow>
                if a_id (prev ! i) = areaId
                then filter (\<lambda>x. x \<noteq> plantId) (map p_id (a_plants (prev ! i)))
                else map p_id (a_plants (prev ! i))
            | _ \<Rightarrow> map p_id (a_plants (prev ! i)))"
  using assms
  by (cases m)
     (auto simp: mutate_def apply_updates_def updatePlantStage_def rollbackPlantStage_def
        addJournalEntry_def removeJournalEntry_def removePlantFromArea_def Let_def filter_map o_def
        intro!: map_cong)

lemma mutate_existing_plants:
  assumes "target_plant m = None" "i < length prev"
  shows "take (length (a_plants (prev ! i))) (a_plants (mutate m prev ! i)) = a_plants (prev ! i)"
  using assms
  by (cases m)
     (simp_all add: mutate_def apply_updates_def renameArea_def addPlantToArea_def
        addCustomPlantToArea_def Let_def)

lemma mutate_no_area:
  assumes "target_area m \<notin> a_id ` set prev"
  shows "mutate m prev = prev"
  using assms
  by (cases m)
     (auto simp: mutate_def apply_updates_def renameArea_def addPlantToArea_def
        addCustomPlantToArea_def updatePlantStage_def rollbackPlantStage_def addJournalEntry_def
        removeJournalEntry_def removePlantFromArea_def Let_def intro!: map_idI)

lemma mutate_no_plant:
  assumes "target_plant m = Some pid"
    and "\<forall>a \<in> set prev. a_id a = target_area m \<longrightarrow> pid \<notin> p_id ` set (a_plants a)"
  shows "mutate m prev = prev"
  using assms
  by (cases m)
     (auto simp: mutate_def apply_updates_def updatePlantStage_def rollbackPlantStage_def
        addJournalEntry_def removeJournalEntry_def removePlantFromArea_def Let_def
        map_target_absent intro!: map_idI)


text \<open>
  Claim C10. A mutation that targets one area by its id (\<open>renameArea\<close>, \<open>addPlantToArea\<close>,
  \<open>addCustomPlantToArea\<close>, \<open>updatePlantStage\<close>, \<open>rollbackPlantStage\<close>, \<open>addJournalEntry\<close>,
  \<open>removeJournalEntry\<close>, \<open>removePlantFromArea\<close>) keeps the areas in their order and leaves
  every area with another id exactly as it was. A mutation that targets a plant leaves the
  plants with another id, in every area, exactly as they were and in their order, and keeps
  the order of the plant ids (\<open>removePlantFromArea\<close> drops the target's id from it); one
  that targets no plant keeps the plants an area had, in order, in front of any new one.
  When no area has the given id, or no plant of such an area has the given plant id, the
  state is unchanged.
\<close>

theorem targeted_mutation_leaves_the_rest:
  "map a_id (mutate m prev) = map a_id prev \<and>
   (\<forall>i < length prev. a_id (prev ! i) \<noteq> target_area m \<longrightarrow> mutate m prev ! i = prev ! i) \<and>
   (\<forall>pid. target_plant m = Some pid \<longrightarrow>
      (\<forall>i < length prev.
         filter (\<lambda>p. p_id p \<noteq> pid) (a_plants (mutate m prev ! i))
           = filter (\<lambda>p. p_id p \<noteq> pid) (a_plants (prev ! i)) \<and>
         map p_id (a_plants (mutate m prev ! i)) =
           (case m of
              DoRemovePlantFromArea areaId plantId \<Rightarrow>
                if a_id (prev ! i) = areaId
                then filter (\<lambda>x. x \<noteq> plantId) (map p_id (a_plants (prev ! i)))
                else map p_id (a_plants (prev ! i))
            | _ \<Rightarrow> map p_id (a_plants (prev ! i))))) \<and>
   (target_plant m = None \<longrightarrow>
      (\<forall>i < length prev.
         take (length (a_plants (prev ! i))) (a_plants (mutate m prev ! i)) = a_plants (prev ! i))) \<and>
   (target_area m \<notin> a_id ` set prev \<longrightarrow> mutate m prev = prev) \<and>
   (\<forall>pid. target_plant m = Some pid \<longrightarrow>
      (\<forall>a \<in> set prev. a_id a = target_area m \<longrightarrow> pid \<notin> p_id ` set (a_plants a)) \<longrightarrow>
      mutate m prev = prev)"
proof (intro conjI allI impI)
  show "map a_id (mutate m prev) = map a_id prev"
    by (rule mutate_area_ids)
next
  fix i assume "i < length prev" "a_id (prev ! i) \<noteq> target_area m"
  then show "mutate m prev ! i = prev ! i"
    by (rule mutate_other_areas)
next
  fix pid i assume "target_plant m = Some pid" "i < length prev"
  then show "filter (\<lambda>p. p_id p \<noteq> pid) (a_plants (mutate m prev ! i))
           = filter (\<lambda>p. p_id p \<noteq> pid) (a_plants (prev ! i))"
    by (rule mutate_other_plants)
next
  fix pid i assume "target_plant m = Some pid" "i < length prev"
  then show "map p_id (a_plants (mutate m prev ! i)) =
           (case m of
              DoRemovePlantFromArea areaId plantId \<Rightarrow>
                if a_id (prev ! i) = areaId
                then filter (\<lambda>x. x \<noteq> plantId) (map p_id (a_plants (prev ! i)))
                else map p_id (a_plants (prev ! i))
            | _ \<Rightarrow> map p_id (a_plants (prev ! i)))"
    by (rule mutate_plant_ids)
next
  fix i assume "target_plant m = None" "i < length prev"
  then show "take (length (a_plants (prev ! i))) (a_plants (mutate m prev ! i)) = a_plants (prev ! i)"
    by (rule mutate_existing_plants)
next
  assume "target_area m \<notin> a_id ` set prev"
  then show "mutate m prev = prev"
    by (rule mutate_no_area)
next
  fix pid
  assume "target_plant m = Some pid"
    "\<forall>a \<in> set prev. a_id a = target_area m \<longrightarrow> pid \<notin> p_id ` set (a_plants a)"
  then show "mutate m prev = prev"
    by (rule mutate_no_plant)
qed

theorem targeted_mutation_leaves_the_rest_witness:
  "mutate (DoAddJournalEntry ''e9'' ''3 Nov 2026'' ''a2'' ''p2'' '' watered again '') sample_garden ! 0
     = sample_garden ! 0 \<and>
   filter (\<lambda>p. p_id p \<noteq> ''p2'')
     (a_plants (mutate (DoAddJournalEntry ''e9'' ''3 Nov 2026'' ''a2'' ''p2'' '' watered again '')
        sample_garden ! 1))
     = [a_plants (sample_garden ! 1) ! 1] \<and>
   mutate (DoAddJournalEntry ''e9'' ''3 Nov 2026'' ''a2'' ''p2'' '' watered again '') sample_garden
     \<noteq> sample_garden \<and>
   take 1 (a_plants (mutate (DoAddPlantToArea ''p9'' ''2026-11-03'' ''a1'' lettuce) sample_garden ! 0))
     = a_plants (sample_garden ! 0) \<and>
   mutate (DoRemovePlantFromArea ''a1'' ''p2'') sample_garden = sample_garden \<and>
   mutate (DoRenameArea ''zz'' ''Balcony'' None) sample_garden = sample_garden"
proof -
  let ?m = "DoAddJournalEntry ''e9'' ''3 Nov 2026'' ''a2'' ''p2'' '' watered again ''"
  let ?add = "DoAddPlantToArea ''p9'' ''2026-11-03'' ''a1'' lettuce"
  have l0: "0 < length sample_garden" and l1: "1 < length sample_garden"
    and i0: "a_id (sample_garden ! 0) \<noteq> target_area ?m"
    and n1: "length (a_plants (sample_garden ! 0)) = 1"
    by (simp_all add: sample_garden_def)
  have tp: "target_plant ?m = Some ''p2''" and ta: "target_plant ?add = None"
    by simp_all
  note frame = targeted_mutation_leaves_the_rest [of ?m sample_garden]
  have a: "mutate ?m sample_garden ! 0 = sample_garden ! 0"
    using frame [THEN conjunct2, THEN conjunct1, rule_format, OF l0 i0] .
  have "filter (\<lambda>p. p_id p \<noteq> ''p2'') (a_plants (mutate ?m sample_garden ! 1))
      = filter (\<lambda>p. p_id p \<noteq> ''p2'') (a_plants (sample_garden ! 1))"
    using frame [THEN conjunct2, THEN conjunct2, THEN conjunct1, rule_format, OF tp l1]
    by (rule conjunct1)
  also have "\<dots> = [a_plants (sample_garden ! 1) ! 1]"
    by (simp add: sample_garden_def)
  finally have b: "filter (\<lambda>p. p_id p \<noteq> ''p2'') (a_plants (mutate ?m sample_garden ! 1))
      = [a_plants (sample_garden ! 1) ! 1]" .
  have c: "mutate ?m sample_garden \<noteq> sample_garden"
    by (simp add: mutate_def apply_updates_def addJournalEntry_def Let_def sample_garden_def)
  have "take (length (a_plants (sample_garden ! 0))) (a_plants (mutate ?add sample_garden ! 0))
      = a_plants (sample_garden ! 0)"
    using targeted_mutation_leaves_the_rest [of ?add sample_garden, THEN conjunct2, THEN conjunct2,
        THEN conjunct2, THEN conjunct1, rule_format, OF ta l0] .
  then have d: "take 1 (a_plants (mutate ?add sample_garden ! 0)) = a_plants (sample_garden ! 0)"
    by (simp only: n1)
  have "''p2'' \<notin> p_id ` set (a_plants x)" if "x \<in> set sample_garden" "a_id x = ''a1''" for x
    using that by (auto simp: sample_garden_def)
  then have np: "\<forall>a \<in> set sample_garden.
      a_id a = target_area (DoRemovePlantFromArea ''a1'' ''p2'') \<longrightarrow> ''p2'' \<notin> p_id ` set (a_plants a)"
    by simp
  have tr: "target_plant (DoRemovePlantFromArea ''a1'' ''p2'') = Some ''p2''" by simp
  have e: "mutate (DoRemovePlantFromArea ''a1'' ''p2'') sample_garden = sample_garden"
    using targeted_mutation_leaves_the_rest [of "DoRemovePlantFromArea ''a1'' ''p2''" sample_garden,
        THEN conjunct2, THEN conjunct2, THEN conjunct2, THEN conjunct2, THEN conjunct2,
        THEN spec, THEN mp, THEN mp, OF tr np] .
  have na: "target_area (DoRenameArea ''zz'' ''Balcony'' None) \<notin> a_id ` set sample_garden"
    by (simp add: sample_garden_def)
  have f: "mutate (DoRenameArea ''zz'' ''Balcony'' None) sample_garden = sample_garden"
    using targeted_mutation_leaves_the_rest [of "DoRenameArea ''zz'' ''Balcony'' None" sample_garden,
        THEN conjunct2, THEN conjunct2, THEN conjunct2, THEN conjunct2, THEN conjunct1,
        THEN mp, OF na] .
  from a b c d e f show ?thesis by (intro conjI)
qed

section \<open>Cascading deletes\<close>

lemma load_journal_cong:
  assumes "filter (\<lambda>e. jr_plant_id e = pid) (journal_entries db')
         = filter (\<lambda>e. jr_plant_id e = pid) (journal_entries db)"
  shows "load_journal db' pid = load_journal db pid"
  by (simp add: load_journal_def assms)

lemma deletePlant_load_plants:
  assumes "plants db' = filter (\<lambda>p. pr_id p \<noteq> pid) (plants db)"
    and "journal_entries db' = filter (\<lambda>e. jr_plant_id e \<noteq> pid) (journal_entries db)"
  shows "load_plants db' aid = filter (\<lambda>p. p_id p \<noteq> pid) (load_plants db aid)"
proof -
  have j: "load_journal db' (pr_id p) = load_journal db (pr_id p)" if "pr_id p \<noteq> pid" for p
    using that by (intro load_journal_cong) (auto simp: assms(2) intro: filter_cong)
  show ?thesis
    unfolding load_plants_def assms(1)
    by (auto simp: filter_map o_def j intro!: map_cong filter_cong)
qed

lemma deletePlant_loadAllAreas:
  assumes "plants db' = filter (\<lambda>p. pr_id p \<noteq> pid) (plants db)"
    and "journal_entries db' = filter (\<lambda>e. jr_plant_id e \<noteq> pid) (journal_entries db)"
    and "areas db' = areas db"
  shows "loadAllAreas db' =
           map (\<lambda>a. a\<lparr>a_plants := filter (\<lambda>p. p_id p \<noteq> pid) (a_plants a)\<rparr>) (loadAllAreas db)"
  by (simp add: loadAllAreas_def assms(3) deletePlant_load_plants[OF assms(1,2)])

lemma absent_plant_filter:
  assumes "pid \<notin> set (map pr_id (plants db))"
  shows "filter (\<lambda>p. p_id p \<noteq> pid) (load_plants db aid) = load_plants db aid"
  using assms by (auto simp: load_plants_def filter_id_conv)

lemma deletePlant_load:
  "\<exists>db'. deletePlant pid db = Inr db' \<and>
     loadAllAreas db' =
       map (\<lambda>a. a\<lparr>a_plants := filter (\<lambda>p. p_id p \<noteq> pid) (a_plants a)\<rparr>) (loadAllAreas db)"
proof (cases "pid \<in> set (map pr_id (plants db))")
  case True
  then show ?thesis
    by (simp add: deletePlant_def deletePlant_loadAllAreas)
next
  case False
  then have "deletePlant pid db = Inr db" by (simp add: deletePlant_def)
  moreover have "map (\<lambda>a. a\<lparr>a_plants := filter (\<lambda>p. p_id p \<noteq> pid) (a_plants a)\<rparr>) (loadAllAreas db)
      = loadAllAreas db"
    by (simp add: loadAllAreas_def o_def absent_plant_filter[OF False])
  ultimately show ?thesis by simp
qed

lemma deletePlant_journal_rows:
  assumes "consistent db" "deletePlant pid db = Inr db'"
  shows "pid \<notin> set (map jr_plant_id (journal_entries db'))"
    and "pid \<notin> set (map pr_id (plants db'))"
  using assms
  by (auto simp: deletePlant_def consistent_def list_all_iff split: if_splits)


lemma filter_filter_implied:
  "(\<And>x. x \<in> set xs \<Longrightarrow> P x \<Longrightarrow> Q x) \<Longrightarrow> filter P (filter Q xs) = filter P xs"
  by (induction xs) auto

lemma same_id_same_row:
  assumes "distinct (map pr_id rows)" "p \<in> set rows" "q \<in> set rows" "pr_id q = pr_id p"
  shows "q = p"
  using assms by (meson distinct_map inj_onD)

lemma dbDeleteArea_tables:
  assumes "ident \<in> set (map ar_id (areas db))"
  shows "\<exists>db'. dbDeleteArea ident db = Inr db' \<and>
     areas db' = filter (\<lambda>a. ar_id a \<noteq> ident) (areas db) \<and>
     plants db' = filter (\<lambda>p. pr_area_id p \<noteq> ident) (plants db) \<and>
     journal_entries db' =
       filter (\<lambda>e. jr_plant_id e \<notin> set (map pr_id (filter (\<lambda>p. pr_area_id p = ident) (plants db))))
         (journal_entries db)"
  using assms by (simp add: dbDeleteArea_def Let_def)

lemma deleteArea_load_plants:
  assumes "distinct (map pr_id (plants db))"
    and "plants db' = filter (\<lambda>p. pr_area_id p \<noteq> ident) (plants db)"
    and "journal_entries db' =
           filter (\<lambda>e. jr_plant_id e \<notin> set (map pr_id (filter (\<lambda>p. pr_area_id p = ident) (plants db))))
             (journal_entries db)"
    and "aid \<noteq> ident"
  shows "load_plants db' aid = load_plants db aid"
proof -
  have keep: "pr_id p \<notin> set (map pr_id (filter (\<lambda>p. pr_area_id p = ident) (plants db)))"
    if "p \<in> set (plants db)" "pr_area_id p = aid" for p
  proof
    assume "pr_id p \<in> set (map pr_id (filter (\<lambda>p. pr_area_id p = ident) (plants db)))"
    then obtain q where q: "q \<in> set (plants db)" "pr_area_id q = ident" "pr_id q = pr_id p"
      by auto
    from same_id_same_row[OF assms(1) that(1) q(1) q(3)] have "q = p" .
    with q(2) that(2) assms(4) show False by simp
  qed
  have j: "load_journal db' (pr_id p) = load_journal db (pr_id p)"
    if "p \<in> set (plants db)" "pr_area_id p = aid" for p
  proof (rule load_journal_cong)
    show "filter (\<lambda>e. jr_plant_id e = pr_id p) (journal_entries db')
        = filter (\<lambda>e. jr_plant_id e = pr_id p) (journal_entries db)"
      unfolding assms(3) using keep[OF that] by (intro filter_filter_implied) simp
  qed
  have f: "filter (\<lambda>p. pr_area_id p = aid) (filter (\<lambda>p. pr_area_id p \<noteq> ident) (plants db))
      = filter (\<lambda>p. pr_area_id p = aid) (plants db)"
    using assms(4) by (intro filter_filter_implied) simp
  show ?thesis
    unfolding load_plants_def assms(2) f
    by (rule map_cong) (auto simp: j)
qed

lemma dbDeleteArea_load:
  assumes "consistent db"
  shows "\<exists>db'. dbDeleteArea ident db = Inr db' \<and>
     loadAllAreas db' = filter (\<lambda>a. a_id a \<noteq> ident) (loadAllAreas db)"
proof (cases "ident \<in> set (map ar_id (areas db))")
  case True
  from dbDeleteArea_tables[OF True] obtain db' where
    d: "dbDeleteArea ident db = Inr db'"
    and t: "areas db' = filter (\<lambda>a. ar_id a \<noteq> ident) (areas db)"
      "plants db' = filter (\<lambda>p. pr_area_id p \<noteq> ident) (plants db)"
      "journal_entries db' =
        filter (\<lambda>e. jr_plant_id e \<notin> set (map pr_id (filter (\<lambda>p. pr_area_id p = ident) (plants db))))
          (journal_entries db)"
    by blast
  have dist: "distinct (map pr_id (plants db))"
    using assms by (simp add: consistent_def)
  have lp: "load_plants db' aid = load_plants db aid" if "aid \<noteq> ident" for aid
    by (rule deleteArea_load_plants[OF dist t(2) t(3) that])
  have "loadAllAreas db' = filter (\<lambda>a. a_id a \<noteq> ident) (loadAllAreas db)"
    unfolding loadAllAreas_def t(1)
    by (simp add: filter_map o_def lp)
  with d show ?thesis by blast
next
  case False
  then have "dbDeleteArea ident db = Inr db" by (simp add: dbDeleteArea_def)
  moreover have "filter (\<lambda>a. a_id a \<noteq> ident) (loadAllAreas db) = loadAllAreas db"
    using False by (auto simp: loadAllAreas_def filter_id_conv)
  ultimately show ?thesis by simp
qed

lemma dbDeleteArea_rows:
  assumes "consistent db" "dbDeleteArea ident db = Inr db'"
  shows "ident \<notin> set (map ar_id (areas db'))"
    and "ident \<notin> set (map pr_area_id (plants db'))"
    and "\<forall>p \<in> set (plants db). pr_area_id p = ident \<longrightarrow>
           pr_id p \<notin> set (map pr_id (plants db')) \<and>
           pr_id p \<notin> set (map jr_plant_id (journal_entries db'))"
proof -
  have fk: "pr_area_id p \<in> set (map ar_id (areas db))" if "p \<in> set (plants db)" for p
    using assms(1) that by (simp add: consistent_def list_all_iff)
  have dist: "distinct (map pr_id (plants db))"
    using assms(1) by (simp add: consistent_def)
  show "ident \<notin> set (map ar_id (areas db'))"
  proof (cases "ident \<in> set (map ar_id (areas db))")
    case True
    from dbDeleteArea_tables[OF True] assms(2) show ?thesis by auto
  next
    case False
    with assms(2) show ?thesis by (simp add: dbDeleteArea_def)
  qed
  show "ident \<notin> set (map pr_area_id (plants db'))"
  proof (cases "ident \<in> set (map ar_id (areas db))")
    case True
    from dbDeleteArea_tables[OF True] assms(2) show ?thesis by auto
  next
    case False
    with assms(2) have "db' = db" by (simp add: dbDeleteArea_def)
    with False fk show ?thesis by auto
  qed
  show "\<forall>p \<in> set (plants db). pr_area_id p = ident \<longrightarrow>
           pr_id p \<notin> set (map pr_id (plants db')) \<and>
           pr_id p \<notin> set (map jr_plant_id (journal_entries db'))"
  proof (intro ballI impI)
    fix p assume p: "p \<in> set (plants db)" "pr_area_id p = ident"
    with fk have here: "ident \<in> set (map ar_id (areas db))" by blast
    from dbDeleteArea_tables[OF here] assms(2) have
      t: "plants db' = filter (\<lambda>p. pr_area_id p \<noteq> ident) (plants db)"
        "journal_entries db' =
          filter (\<lambda>e. jr_plant_id e \<notin> set (map pr_id (filter (\<lambda>p. pr_area_id p = ident) (plants db))))
            (journal_entries db)"
      by auto
    have a: "pr_id p \<notin> set (map pr_id (plants db'))"
    proof
      assume "pr_id p \<in> set (map pr_id (plants db'))"
      then obtain q where q: "q \<in> set (plants db)" "pr_area_id q \<noteq> ident" "pr_id q = pr_id p"
        unfolding t(1) by auto
      from same_id_same_row[OF dist p(1) q(1) q(3)] q(2) p(2) show False by simp
    qed
    have "pr_id p \<in> set (map pr_id (filter (\<lambda>p. pr_area_id p = ident) (plants db)))"
      using p by auto
    then have b: "pr_id p \<notin> set (map jr_plant_id (journal_entries db'))"
      unfolding t(2) by auto
    from a b show "pr_id p \<notin> set (map pr_id (plants db')) \<and>
          pr_id p \<notin> set (map jr_plant_id (journal_entries db'))" ..
  qed
qed


text \<open>
  Claim C8. In a durable state, \<open>deleteArea\<close> of db.js succeeds and a following
  \<open>loadAllAreas\<close> returns the areas with another id, each with its plants and journals as
  before; no area row with that id, no plant row of that area and no journal row of such a
  plant is left. \<open>deletePlant\<close> succeeds and a following \<open>loadAllAreas\<close> returns every area
  as before but without the plant of that id, the other plants with their journals
  unchanged; no journal row of the plant is left.
\<close>

theorem deletes_cascade:
  assumes "consistent db"
  shows "(\<exists>db'. dbDeleteArea ident db = Inr db' \<and>
            loadAllAreas db' = filter (\<lambda>a. a_id a \<noteq> ident) (loadAllAreas db) \<and>
            ident \<notin> set (map ar_id (areas db')) \<and>
            ident \<notin> set (map pr_area_id (plants db')) \<and>
            (\<forall>p \<in> set (plants db). pr_area_id p = ident \<longrightarrow>
               pr_id p \<notin> set (map pr_id (plants db')) \<and>
               pr_id p \<notin> set (map jr_plant_id (journal_entries db')))) \<and>
         (\<exists>db'. deletePlant pid db = Inr db' \<and>
            loadAllAreas db' =
              map (\<lambda>a. a\<lparr>a_plants := filter (\<lambda>p. p_id p \<noteq> pid) (a_plants a)\<rparr>) (loadAllAreas db) \<and>
            pid \<notin> set (map pr_id (plants db')) \<and>
            pid \<notin> set (map jr_plant_id (journal_entries db')))"
proof (rule conjI)
  from dbDeleteArea_load[OF assms, of ident] obtain db' where
    d: "dbDeleteArea ident db = Inr db'"
    and l: "loadAllAreas db' = filter (\<lambda>a. a_id a \<noteq> ident) (loadAllAreas db)"
    by blast
  from d l dbDeleteArea_rows[OF assms d]
  show "\<exists>db'. dbDeleteArea ident db = Inr db' \<and>
            loadAllAreas db' = filter (\<lambda>a. a_id a \<noteq> ident) (loadAllAreas db) \<and>
            ident \<notin> set (map ar_id (areas db')) \<and>
            ident \<notin> set (map pr_area_id (plants db')) \<and>
            (\<forall>p \<in> set (plants db). pr_area_id p = ident \<longrightarrow>
               pr_id p \<notin> set (map pr_id (plants db')) \<and>
               pr_id p \<notin> set (map jr_plant_id (journal_entries db')))"
    by (intro exI[of _ db'] conjI)
next
  from deletePlant_load[of pid db] obtain db' where
    d: "deletePlant pid db = Inr db'"
    and l: "loadAllAreas db' =
              map (\<lambda>a. a\<lparr>a_plants := filter (\<lambda>p. p_id p \<noteq> pid) (a_plants a)\<rparr>) (loadAllAreas db)"
    by blast
  from d l deletePlant_journal_rows[OF assms d]
  show "\<exists>db'. deletePlant pid db = Inr db' \<and>
            loadAllAreas db' =
              map (\<lambda>a. a\<lparr>a_plants := filter (\<lambda>p. p_id p \<noteq> pid) (a_plants a)\<rparr>) (loadAllAreas db) \<and>
            pid \<notin> set (map pr_id (plants db')) \<and>
            pid \<notin> set (map jr_plant_id (journal_entries db'))"
    by (intro exI[of _ db'] conjI)
qed

lemma sample_consistent: "consistent sample_database"
  by (simp add: consistent_def sample_database_def)

theorem deletes_cascade_witness:
  "consistent sample_database \<and>
   (\<exists>db'. dbDeleteArea ''a2'' sample_database = Inr db' \<and>
      loadAllAreas db' = [sample_garden ! 0] \<and>
      ''p2'' \<notin> set (map pr_id (plants db')) \<and>
      ''p2'' \<notin> set (map jr_plant_id (journal_entries db'))) \<and>
   (\<exists>db'. deletePlant ''p2'' sample_database = Inr db' \<and>
      loadAllAreas db' =
        [sample_garden ! 0, (sample_garden ! 1)\<lparr>a_plants := [a_plants (sample_garden ! 1) ! 1]\<rparr>] \<and>
      ''p2'' \<notin> set (map jr_plant_id (journal_entries db')))"
proof -
  note c = deletes_cascade [OF sample_consistent, of "''a2''" "''p2''"]
  from c obtain db1 where
    d1: "dbDeleteArea ''a2'' sample_database = Inr db1"
    and l1: "loadAllAreas db1 = filter (\<lambda>a. a_id a \<noteq> ''a2'') (loadAllAreas sample_database)"
    and r1: "\<forall>p \<in> set (plants sample_database). pr_area_id p = ''a2'' \<longrightarrow>
               pr_id p \<notin> set (map pr_id (plants db1)) \<and>
               pr_id p \<notin> set (map jr_plant_id (journal_entries db1))"
    by blast
  from c obtain db2 where
    d2: "deletePlant ''p2'' sample_database = Inr db2"
    and l2: "loadAllAreas db2 =
        map (\<lambda>a. a\<lparr>a_plants := filter (\<lambda>p. p_id p \<noteq> ''p2'') (a_plants a)\<rparr>) (loadAllAreas sample_database)"
    and r2: "''p2'' \<notin> set (map jr_plant_id (journal_entries db2))"
    by blast
  have p2: "plants sample_database ! 1 \<in> set (plants sample_database)"
    "pr_area_id (plants sample_database ! 1) = ''a2''" "pr_id (plants sample_database ! 1) = ''p2''"
    by (simp_all add: sample_database_def)
  from r1 p2 have g1: "''p2'' \<notin> set (map pr_id (plants db1)) \<and>
      ''p2'' \<notin> set (map jr_plant_id (journal_entries db1))"
    by metis
  have e1: "loadAllAreas db1 = [sample_garden ! 0]"
    unfolding l1 sample_load by (simp add: sample_garden_def)
  have e2: "loadAllAreas db2 =
      [sample_garden ! 0, (sample_garden ! 1)\<lparr>a_plants := [a_plants (sample_garden ! 1) ! 1]\<rparr>]"
    unfolding l2 sample_load by (simp add: sample_garden_def)
  from sample_consistent d1 e1 g1 d2 e2 r2 show ?thesis by blast
qed

section \<open>Rolling back a stage change\<close>

lemma entry_of_row_type:
  "e_type (\<lparr>e_id = jr_id e, e_date = jr_date e, e_text = jr_text e, e_type = jr_type e\<rparr>) = jr_type e"
  by simp

lemma filter_out_one:
  assumes "distinct (map k (pre @ r # post))"
  shows "filter (\<lambda>e. k e \<noteq> k r) (pre @ r # post) = pre @ post"
proof -
  have "k e \<noteq> k r" if "e \<in> set pre \<union> set post" for e
    using assms that by (auto simp: image_iff)
  then show ?thesis by (simp add: filter_id_conv)
qed

lemma deleteLastStageEntry_none:
  assumes "\<forall>e \<in> set (journal_entries db). jr_plant_id e = pid \<longrightarrow> jr_type e \<noteq> ''stage''"
  shows "deleteLastStageEntry pid db = Inr db"
proof -
  have "filter (\<lambda>e. jr_plant_id e = pid \<and> jr_type e = ''stage'') (journal_entries db) = []"
    using assms by (auto simp: filter_empty_conv)
  then show ?thesis by (simp add: deleteLastStageEntry_def)
qed

lemma deleteLastStageEntry_some:
  assumes "filter (\<lambda>e. jr_plant_id e = pid) (journal_entries db) = pre @ r # post"
    and "jr_type r = ''stage''"
    and "\<forall>e \<in> set post. jr_type e \<noteq> ''stage''"
  shows "deleteLastStageEntry pid db =
           Inr (db\<lparr>journal_entries := filter (\<lambda>e. jr_id e \<noteq> jr_id r) (journal_entries db)\<rparr>)"
proof -
  have "filter (\<lambda>e. jr_plant_id e = pid \<and> jr_type e = ''stage'') (journal_entries db)
      = filter (\<lambda>e. jr_type e = ''stage'') (filter (\<lambda>e. jr_plant_id e = pid) (journal_entries db))"
    by (simp add: conj_commute)
  also have "\<dots> = filter (\<lambda>e. jr_type e = ''stage'') pre @ [r]"
    using assms(2,3) by (simp add: assms(1) filter_empty_conv)
  finally show ?thesis by (simp add: deleteLastStageEntry_def)
qed

lemma deleteLastStageEntry_journals:
  assumes "distinct (map jr_id (journal_entries db))"
  shows "\<exists>db'. deleteLastStageEntry pid db = Inr db' \<and>
           areas db' = areas db \<and> plants db' = plants db \<and>
           load_journal db' pid = trimmed (load_journal db pid) \<and>
           (\<forall>q. q \<noteq> pid \<longrightarrow> load_journal db' q = load_journal db q) \<and>
           length (journal_entries db') \<le> length (journal_entries db) \<and>
           set (journal_entries db') \<subseteq> set (journal_entries db)"
proof (cases "\<exists>e \<in> set (filter (\<lambda>e. jr_plant_id e = pid) (journal_entries db)). jr_type e = ''stage''")
  case False
  then have none: "\<forall>e \<in> set (journal_entries db). jr_plant_id e = pid \<longrightarrow> jr_type e \<noteq> ''stage''"
    by auto
  then have "\<forall>x \<in> set (load_journal db pid). e_type x \<noteq> ''stage''"
    by (auto simp: load_journal_def)
  then have "trimmed (load_journal db pid) = load_journal db pid"
    by (rule trimmed_none)
  with deleteLastStageEntry_none[OF none] show ?thesis by simp
next
  case True
  then obtain pre r post where
    split: "filter (\<lambda>e. jr_plant_id e = pid) (journal_entries db) = pre @ r # post"
    and r: "jr_type r = ''stage''"
    and post: "\<forall>e \<in> set post. jr_type e \<noteq> ''stage''"
    using split_list_last_prop[of "filter (\<lambda>e. jr_plant_id e = pid) (journal_entries db)"
        "\<lambda>e. jr_type e = ''stage''"] by blast
  let ?db' = "db\<lparr>journal_entries := filter (\<lambda>e. jr_id e \<noteq> jr_id r) (journal_entries db)\<rparr>"
  have d: "deleteLastStageEntry pid db = Inr ?db'"
    by (rule deleteLastStageEntry_some[OF split r post])
  have rin: "r \<in> set (journal_entries db)" "jr_plant_id r = pid"
  proof -
    have "r \<in> set (filter (\<lambda>e. jr_plant_id e = pid) (journal_entries db))"
      by (simp add: split)
    then show "r \<in> set (journal_entries db)" "jr_plant_id r = pid" by auto
  qed
  have dp: "distinct (map jr_id (pre @ r # post))"
    using assms distinct_map_filter[of jr_id "journal_entries db" "\<lambda>e. jr_plant_id e = pid"]
    by (simp only: split)
  have "filter (\<lambda>e. jr_plant_id e = pid) (journal_entries ?db')
      = filter (\<lambda>e. jr_id e \<noteq> jr_id r) (filter (\<lambda>e. jr_plant_id e = pid) (journal_entries db))"
    by (simp add: conj_commute)
  also have "\<dots> = pre @ post"
    unfolding split by (rule filter_out_one[OF dp])
  finally have own: "filter (\<lambda>e. jr_plant_id e = pid) (journal_entries ?db') = pre @ post" .
  have j1: "load_journal ?db' pid = trimmed (load_journal db pid)"
  proof -
    have "trimmed (load_journal db pid)
        = map (\<lambda>e. \<lparr>e_id = jr_id e, e_date = jr_date e, e_text = jr_text e, e_type = jr_type e\<rparr>) pre @
          map (\<lambda>e. \<lparr>e_id = jr_id e, e_date = jr_date e, e_text = jr_text e, e_type = jr_type e\<rparr>) post"
      unfolding load_journal_def split using r post
      by (simp only: map_append list.map) (rule trimmed_split, simp_all)
    then show ?thesis by (simp only: load_journal_def own map_append)
  qed
  have same: "e = r" if "e \<in> set (journal_entries db)" "jr_id e = jr_id r" for e
    using assms that rin(1) by (meson distinct_map inj_onD)
  have j2: "load_journal ?db' q = load_journal db q" if "q \<noteq> pid" for q
  proof -
    have "filter (\<lambda>e. jr_plant_id e = q) (journal_entries ?db')
        = filter (\<lambda>e. jr_plant_id e = q) (journal_entries db)"
      using same rin(2) that by (auto intro!: filter_cong)
    then show ?thesis by (simp add: load_journal_def)
  qed
  have "length (journal_entries ?db') \<le> length (journal_entries db)"
    "set (journal_entries ?db') \<subseteq> set (journal_entries db)"
    by auto
  with d j1 j2 show ?thesis by (intro exI[of _ ?db']) simp
qed


lemma rollback_calls_run:
  assumes "distinct (map jr_id (journal_entries db))"
  shows "\<exists>db'. run_calls no_failure (db_calls (rollbackPlantStage areaId pid stage)) db = db' \<and>
           areas db' = areas db \<and>
           plants db' = map (\<lambda>p. if pr_id p = pid then p\<lparr>pr_stage := stage\<rparr> else p) (plants db) \<and>
           load_journal db' pid = trimmed (load_journal db pid) \<and>
           (\<forall>q. q \<noteq> pid \<longrightarrow> load_journal db' q = load_journal db q) \<and>
           length (journal_entries db') \<le> length (journal_entries db) \<and>
           set (journal_entries db') \<subseteq> set (journal_entries db)"
proof -
  let ?db1 = "db\<lparr>plants := map (\<lambda>p. if pr_id p = pid then p\<lparr>pr_stage := stage\<rparr> else p) (plants db)\<rparr>"
  have u: "dbUpdatePlantStage pid stage db = Inr ?db1"
    by (simp add: dbUpdatePlantStage_def)
  have d1: "distinct (map jr_id (journal_entries ?db1))"
    using assms by simp
  from deleteLastStageEntry_journals[OF d1, of pid] obtain db2 where
    d: "deleteLastStageEntry pid ?db1 = Inr db2"
    and t: "areas db2 = areas ?db1" "plants db2 = plants ?db1"
    and j: "load_journal db2 pid = trimmed (load_journal ?db1 pid)"
      "\<forall>q. q \<noteq> pid \<longrightarrow> load_journal db2 q = load_journal ?db1 q"
      "length (journal_entries db2) \<le> length (journal_entries ?db1)"
      "set (journal_entries db2) \<subseteq> set (journal_entries ?db1)"
    by blast
  have r: "run_calls no_failure (db_calls (rollbackPlantStage areaId pid stage)) db = db2"
    by (simp add: rollbackPlantStage_def run_calls_def run_write_def no_failure_def u d)
  have lj: "load_journal ?db1 q = load_journal db q" for q
    by (simp add: load_journal_def)
  from r t j show ?thesis by (simp add: lj)
qed

lemma rollback_load_rows:
  assumes "load_journal db' pid = trimmed (load_journal db pid)"
    and "\<forall>q. q \<noteq> pid \<longrightarrow> load_journal db' q = load_journal db q"
  shows "map (\<lambda>p. \<lparr>p_id = pr_id p, p_seedId = column_value (pr_seed_id p),
              p_seedTitle = column_value (pr_seed_title p),
              p_seedCategory = column_value (pr_seed_category p),
              p_seedImage = column_value (pr_seed_image p),
              p_plantedDate = pr_planted_date p, p_stage = pr_stage p,
              p_journal = load_journal db' (pr_id p)\<rparr>)
           (filter (\<lambda>p. pr_area_id p = aid)
              (map (\<lambda>p. if pr_id p = pid then p\<lparr>pr_stage := stage\<rparr> else p) rows))
         = map (\<lambda>p. if p_id p \<noteq> pid then p
                     else p\<lparr>p_stage := stage, p_journal := trimmed (p_journal p)\<rparr>)
             (map (\<lambda>p. \<lparr>p_id = pr_id p, p_seedId = column_value (pr_seed_id p),
                p_seedTitle = column_value (pr_seed_title p),
                p_seedCategory = column_value (pr_seed_category p),
                p_seedImage = column_value (pr_seed_image p),
                p_plantedDate = pr_planted_date p, p_stage = pr_stage p,
                p_journal = load_journal db (pr_id p)\<rparr>)
              (filter (\<lambda>p. pr_area_id p = aid) rows))"
  by (induction rows) (simp_all add: assms)

lemma rollback_load_plants:
  assumes "plants db' = map (\<lambda>p. if pr_id p = pid then p\<lparr>pr_stage := stage\<rparr> else p) (plants db)"
    and "load_journal db' pid = trimmed (load_journal db pid)"
    and "\<forall>q. q \<noteq> pid \<longrightarrow> load_journal db' q = load_journal db q"
  shows "load_plants db' aid =
           map (\<lambda>p. if p_id p \<noteq> pid then p
                     else p\<lparr>p_stage := stage, p_journal := trimmed (p_journal p)\<rparr>)
             (load_plants db aid)"
  unfolding load_plants_def assms(1) by (rule rollback_load_rows[OF assms(2,3)])

lemma rollback_in_step:
  assumes "distinct (map jr_id (journal_entries db))"
    and "\<forall>p \<in> set (plants db). pr_id p = pid \<longrightarrow> pr_area_id p = areaId"
  shows "loadAllAreas (run_calls no_failure (db_calls (rollbackPlantStage areaId pid stage)) db)
         = apply_updates (set_areas (rollbackPlantStage areaId pid stage)) (loadAllAreas db)"
proof -
  from rollback_calls_run[OF assms(1), of areaId pid stage] obtain db' where
    r: "run_calls no_failure (db_calls (rollbackPlantStage areaId pid stage)) db = db'"
    and a: "areas db' = areas db"
    and p: "plants db' = map (\<lambda>p. if pr_id p = pid then p\<lparr>pr_stage := stage\<rparr> else p) (plants db)"
    and j: "load_journal db' pid = trimmed (load_journal db pid)"
      "\<forall>q. q \<noteq> pid \<longrightarrow> load_journal db' q = load_journal db q"
    by blast
  note lp = rollback_load_plants[OF p j]
  have other: "map (\<lambda>p. if p_id p \<noteq> pid then p
                     else p\<lparr>p_stage := stage, p_journal := trimmed (p_journal p)\<rparr>)
             (load_plants db aid) = load_plants db aid" if "aid \<noteq> areaId" for aid
    using assms(2) that by (intro map_idI) (auto simp: load_plants_def)
  have "loadAllAreas db' = apply_updates (set_areas (rollbackPlantStage areaId pid stage)) (loadAllAreas db)"
    unfolding loadAllAreas_def a
    by (simp add: rollbackPlantStage_def apply_updates_def lp other o_def)
  with r show ?thesis by simp
qed


text \<open>
  Claim C4. When the area \<open>areaId\<close> holds a plant \<open>plantId\<close>, \<open>rollbackPlantStage\<close> sets
  that plant's stage to \<open>previousStage\<close> (which may be \<open>None\<close>) and leaves its journal
  without the last entry of type \<open>stage\<close>: unchanged when there is none, and otherwise
  the entries before and after that entry, in order. No entry is added. It dispatches the
  update of the stage column and \<open>deleteLastStageEntry\<close>, and nothing else. Run on a durable
  state, the two leave the areas as they were, set the stage of the plant's row, and leave
  the plant's stored journal without its last entry of type \<open>stage\<close>, the journals of the
  other plants unchanged and no row added; when the plant's row belongs to the area
  \<open>areaId\<close>, a load afterwards is the load before with the in-memory rollback applied.
\<close>

theorem rollbackPlantStage_removes_last_stage_entry:
  assumes "addresses prev areaId plantId i j"
  shows "length (set_areas (rollbackPlantStage areaId plantId previousStage)) = 1 \<and>
         plant_at (apply_updates (set_areas (rollbackPlantStage areaId plantId previousStage)) prev) i j
           = (plant_at prev i j)\<lparr>p_stage := previousStage,
                p_journal := trimmed (p_journal (plant_at prev i j))\<rparr> \<and>
         (count_stage (p_journal (plant_at prev i j)) = 0 \<longrightarrow>
            trimmed (p_journal (plant_at prev i j)) = p_journal (plant_at prev i j)) \<and>
         (0 < count_stage (p_journal (plant_at prev i j)) \<longrightarrow>
            (\<exists>pre e post. p_journal (plant_at prev i j) = pre @ e # post \<and> e_type e = ''stage'' \<and>
               count_stage post = 0 \<and> trimmed (p_journal (plant_at prev i j)) = pre @ post)) \<and>
         length (trimmed (p_journal (plant_at prev i j))) \<le> length (p_journal (plant_at prev i j)) \<and>
         set (trimmed (p_journal (plant_at prev i j))) \<subseteq> set (p_journal (plant_at prev i j)) \<and>
         db_calls (rollbackPlantStage areaId plantId previousStage)
           = [Call (UpdatePlantStage plantId previousStage), Call (DeleteLastStageEntry plantId)] \<and>
         (\<forall>db. consistent db \<longrightarrow>
            areas (run_calls no_failure (db_calls (rollbackPlantStage areaId plantId previousStage)) db)
              = areas db \<and>
            plants (run_calls no_failure (db_calls (rollbackPlantStage areaId plantId previousStage)) db)
              = map (\<lambda>p. if pr_id p = plantId then p\<lparr>pr_stage := previousStage\<rparr> else p) (plants db) \<and>
            load_journal
                (run_calls no_failure (db_calls (rollbackPlantStage areaId plantId previousStage)) db) plantId
              = trimmed (load_journal db plantId) \<and>
            (\<forall>q. q \<noteq> plantId \<longrightarrow>
               load_journal
                   (run_calls no_failure (db_calls (rollbackPlantStage areaId plantId previousStage)) db) q
                 = load_journal db q) \<and>
            length (journal_entries
                (run_calls no_failure (db_calls (rollbackPlantStage areaId plantId previousStage)) db))
              \<le> length (journal_entries db) \<and>
            set (journal_entries
                (run_calls no_failure (db_calls (rollbackPlantStage areaId plantId previousStage)) db))
              \<subseteq> set (journal_entries db) \<and>
            ((\<forall>p \<in> set (plants db). pr_id p = plantId \<longrightarrow> pr_area_id p = areaId) \<longrightarrow>
               loadAllAreas
                   (run_calls no_failure (db_calls (rollbackPlantStage areaId plantId previousStage)) db)
                 = apply_updates (set_areas (rollbackPlantStage areaId plantId previousStage))
                     (loadAllAreas db)))"
proof -
  let ?J = "p_journal (plant_at prev i j)"
  have upd: "plant_at (apply_updates (set_areas (rollbackPlantStage areaId plantId previousStage)) prev) i j
           = (plant_at prev i j)\<lparr>p_stage := previousStage, p_journal := trimmed ?J\<rparr>"
    using assms by (rule plant_after_rollbackPlantStage)
  have one: "length (set_areas (rollbackPlantStage areaId plantId previousStage)) = 1"
    by (simp add: rollbackPlantStage_def)
  have c0: "count_stage ?J = 0 \<longrightarrow> trimmed ?J = ?J"
    using trimmed_cases[of ?J] by (auto simp: count_stage_def)
  have c1: "0 < count_stage ?J \<longrightarrow>
            (\<exists>pre e post. ?J = pre @ e # post \<and> e_type e = ''stage'' \<and>
               count_stage post = 0 \<and> trimmed ?J = pre @ post)"
    using trimmed_cases[of ?J] by auto
  have c2: "length (trimmed ?J) \<le> length ?J"
    using trimmed_cases[of ?J] by (elim disjE exE conjE) simp_all
  have c3: "set (trimmed ?J) \<subseteq> set ?J"
    using trimmed_cases[of ?J] by (elim disjE exE conjE) auto
  have calls: "db_calls (rollbackPlantStage areaId plantId previousStage)
           = [Call (UpdatePlantStage plantId previousStage), Call (DeleteLastStageEntry plantId)]"
    by (simp add: rollbackPlantStage_def)
  have durable: "areas (run_calls no_failure (db_calls (rollbackPlantStage areaId plantId previousStage)) db)
              = areas db \<and>
            plants (run_calls no_failure (db_calls (rollbackPlantStage areaId plantId previousStage)) db)
              = map (\<lambda>p. if pr_id p = plantId then p\<lparr>pr_stage := previousStage\<rparr> else p) (plants db) \<and>
            load_journal
                (run_calls no_failure (db_calls (rollbackPlantStage areaId plantId previousStage)) db) plantId
              = trimmed (load_journal db plantId) \<and>
            (\<forall>q. q \<noteq> plantId \<longrightarrow>
               load_journal
                   (run_calls no_failure (db_calls (rollbackPlantStage areaId plantId previousStage)) db) q
                 = load_journal db q) \<and>
            length (journal_entries
                (run_calls no_failure (db_calls (rollbackPlantStage areaId plantId previousStage)) db))
              \<le> length (journal_entries db) \<and>
            set (journal_entries
                (run_calls no_failure (db_calls (rollbackPlantStage areaId plantId previousStage)) db))
              \<subseteq> set (journal_entries db) \<and>
            ((\<forall>p \<in> set (plants db). pr_id p = plantId \<longrightarrow> pr_area_id p = areaId) \<longrightarrow>
               loadAllAreas
                   (run_calls no_failure (db_calls (rollbackPlantStage areaId plantId previousStage)) db)
                 = apply_updates (set_areas (rollbackPlantStage areaId plantId previousStage))
                     (loadAllAreas db))"
    if "consistent db" for db
  proof -
    from that have d: "distinct (map jr_id (journal_entries db))"
      by (simp add: consistent_def)
    from rollback_calls_run[OF d, of areaId plantId previousStage] rollback_in_step[OF d]
    show ?thesis by blast
  qed
  from one upd c0 c1 c2 c3 calls durable show ?thesis by blast
qed

theorem rollbackPlantStage_removes_last_stage_entry_witness:
  "addresses sample_garden ''a2'' ''p2'' (Suc 0) 0 \<and>
   plant_at (apply_updates (set_areas (rollbackPlantStage ''a2'' ''p2'' (Some ''planted''))) sample_garden) (Suc 0) 0
     = (plant_at sample_garden (Suc 0) 0)\<lparr>p_stage := Some ''planted'',
          p_journal := [sample_journal ! 0, sample_journal ! 1, sample_journal ! 3]\<rparr> \<and>
   consistent sample_database \<and>
   load_journal
       (run_calls no_failure (db_calls (rollbackPlantStage ''a2'' ''p2'' (Some ''planted''))) sample_database)
       ''p2''
     = [sample_journal ! 0, sample_journal ! 1, sample_journal ! 3] \<and>
   loadAllAreas
       (run_calls no_failure (db_calls (rollbackPlantStage ''a2'' ''p2'' (Some ''planted''))) sample_database)
     = apply_updates (set_areas (rollbackPlantStage ''a2'' ''p2'' (Some ''planted''))) sample_garden"
proof -
  have h: "addresses sample_garden ''a2'' ''p2'' (Suc 0) 0"
    by (simp add: addresses_def sample_garden_def)
  have p: "p_journal (plant_at sample_garden (Suc 0) 0) = sample_journal"
    by (simp add: plant_at_def sample_garden_def)
  have t: "trimmed sample_journal = [sample_journal ! 0, sample_journal ! 1, sample_journal ! 3]"
    by (simp add: trimmed_def lastStageIndex_def sample_journal_def upt_rec)
  have lj: "load_journal sample_database ''p2'' = sample_journal"
    by (simp add: load_journal_def sample_database_def sample_journal_def)
  have own: "\<forall>p \<in> set (plants sample_database). pr_id p = ''p2'' \<longrightarrow> pr_area_id p = ''a2''"
    by (simp add: sample_database_def)
  note r = rollbackPlantStage_removes_last_stage_entry [OF h, of "Some ''planted''"]
  from r have mem: "plant_at (apply_updates (set_areas (rollbackPlantStage ''a2'' ''p2'' (Some ''planted''))) sample_garden) (Suc 0) 0
     = (plant_at sample_garden (Suc 0) 0)\<lparr>p_stage := Some ''planted'',
          p_journal := trimmed (p_journal (plant_at sample_garden (Suc 0) 0))\<rparr>"
    by blast
  from r sample_consistent have dur: "load_journal
       (run_calls no_failure (db_calls (rollbackPlantStage ''a2'' ''p2'' (Some ''planted''))) sample_database)
       ''p2'' = trimmed (load_journal sample_database ''p2'')"
    by blast
  from r sample_consistent own have sync: "loadAllAreas
       (run_calls no_failure (db_calls (rollbackPlantStage ''a2'' ''p2'' (Some ''planted''))) sample_database)
     = apply_updates (set_areas (rollbackPlantStage ''a2'' ''p2'' (Some ''planted''))) (loadAllAreas sample_database)"
    by blast
  from h mem dur sync sample_consistent show ?thesis
    by (simp add: p t lj sample_load)
qed

section \<open>Journal and stage stay consistent\<close>

lemma press_state_simps [simp]:
  "press_state areaId i j st (AdvancePress newId today) = press_advance newId today areaId i j st"
  "press_state areaId i j st BackPress = press_back areaId i j st"
  by (simp_all add: press_state_def press_advance_def press_back_def)

lemma run_presses_append:
  "run_presses areaId i j st (ps @ qs) = run_presses areaId i j (run_presses areaId i j st ps) qs"
  by (induction ps arbitrary: st) simp_all

lemma press_outcomes_append:
  "press_outcomes areaId i j st (ps @ qs) =
     press_outcomes areaId i j st ps @ press_outcomes areaId i j (run_presses areaId i j st ps) qs"
  by (induction ps arbitrary: st) simp_all

lemma calls_of_updatePlantStage:
  "list_ex is_stage_insert (db_calls (updatePlantStage newId today areaId plantId stage)) \<and>
   \<not> list_ex is_stage_delete (db_calls (updatePlantStage newId today areaId plantId stage))"
  by (simp add: updatePlantStage_def Let_def)

lemma calls_of_rollbackPlantStage:
  "\<not> list_ex is_stage_insert (db_calls (rollbackPlantStage areaId plantId stage)) \<and>
   list_ex is_stage_delete (db_calls (rollbackPlantStage areaId plantId stage))"
  by (simp add: rollbackPlantStage_def)

lemma calls_of_no_effect:
  "\<not> list_ex is_stage_insert (db_calls (no_effect :: unit outcome)) \<and>
   \<not> list_ex is_stage_delete (db_calls (no_effect :: unit outcome))"
  by (simp add: no_effect_def)

lemma count_stage_append_stage:
  "count_stage (J @ [\<lparr>e_id = a, e_date = b, e_text = c, e_type = ''stage''\<rparr>]) = Suc (count_stage J)"
  by (simp add: count_stage_def)

lemma advance_press_facts:
  assumes "addresses st areaId plantId i j"
    and "count_stage (p_journal (plant_at st i j)) \<le> 5"
    and "p_stage (plant_at st i j) = stage_order ! count_stage (p_journal (plant_at st i j))"
  shows "(count_stage (p_journal (plant_at st i j)) = 5 \<and>
          advanceStage newId today areaId (plant_at st i j) = no_effect \<and>
          press_advance newId today areaId i j st = st) \<or>
         (count_stage (p_journal (plant_at st i j)) < 5 \<and>
          advanceStage newId today areaId (plant_at st i j) =
            updatePlantStage newId today areaId plantId
              (the (stage_order ! Suc (count_stage (p_journal (plant_at st i j))))) \<and>
          addresses (press_advance newId today areaId i j st) areaId plantId i j \<and>
          p_stage (plant_at (press_advance newId today areaId i j st) i j) =
            stage_order ! Suc (count_stage (p_journal (plant_at st i j))) \<and>
          p_journal (plant_at (press_advance newId today areaId i j st) i j) =
            p_journal (plant_at st i j) @
              [\<lparr>e_id = newId, e_date = today,
                e_text = stage_label (the (stage_order ! Suc (count_stage (p_journal (plant_at st i j))))),
                e_type = ''stage''\<rparr>])"
proof (cases "count_stage (p_journal (plant_at st i j)) < 5")
  case True
  have pid: "p_id (plant_at st i j) = plantId"
    using assms(1) by (simp add: addresses_def plant_at_def)
  have o: "advanceStage newId today areaId (plant_at st i j) =
            updatePlantStage newId today areaId plantId
              (the (stage_order ! Suc (count_stage (p_journal (plant_at st i j)))))"
    by (simp add: advanceStage_at[OF assms(2,3)] True pid)
  have eq: "press_advance newId today areaId i j st =
      apply_updates (set_areas (updatePlantStage newId today areaId plantId
         (the (stage_order ! Suc (count_stage (p_journal (plant_at st i j))))))) st"
    by (simp add: press_advance_def o)
  have "addresses (press_advance newId today areaId i j st) areaId plantId i j"
    unfolding eq by (rule addresses_updatePlantStage[OF assms(1)])
  moreover have "p_stage (plant_at (press_advance newId today areaId i j st) i j) =
            stage_order ! Suc (count_stage (p_journal (plant_at st i j)))"
    unfolding eq using True
    by (simp add: plant_after_updatePlantStage[OF assms(1)] stage_order_the)
  moreover have "p_journal (plant_at (press_advance newId today areaId i j st) i j) =
            p_journal (plant_at st i j) @
              [\<lparr>e_id = newId, e_date = today,
                e_text = stage_label (the (stage_order ! Suc (count_stage (p_journal (plant_at st i j))))),
                e_type = ''stage''\<rparr>]"
    unfolding eq by (simp add: plant_after_updatePlantStage[OF assms(1)])
  ultimately show ?thesis using True o by blast
next
  case False
  with assms(2) have c: "count_stage (p_journal (plant_at st i j)) = 5" by simp
  have o: "advanceStage newId today areaId (plant_at st i j) = no_effect"
    using False by (simp add: advanceStage_at[OF assms(2,3)])
  have "press_advance newId today areaId i j st = st"
    by (simp add: press_advance_def o no_effect_def apply_updates_def)
  with c o show ?thesis by blast
qed

lemma back_press_facts:
  assumes "addresses st areaId plantId i j"
    and "count_stage (p_journal (plant_at st i j)) \<le> 5"
    and "p_stage (plant_at st i j) = stage_order ! count_stage (p_journal (plant_at st i j))"
  shows "(count_stage (p_journal (plant_at st i j)) = 0 \<and>
          goBackStage areaId (plant_at st i j) = no_effect \<and>
          press_back areaId i j st = st) \<or>
         (0 < count_stage (p_journal (plant_at st i j)) \<and>
          goBackStage areaId (plant_at st i j) =
            rollbackPlantStage areaId plantId
              (stage_order ! (count_stage (p_journal (plant_at st i j)) - 1)) \<and>
          addresses (press_back areaId i j st) areaId plantId i j \<and>
          p_stage (plant_at (press_back areaId i j st) i j) =
            stage_order ! (count_stage (p_journal (plant_at st i j)) - 1) \<and>
          p_journal (plant_at (press_back areaId i j st) i j) =
            trimmed (p_journal (plant_at st i j)))"
proof (cases "0 < count_stage (p_journal (plant_at st i j))")
  case True
  have pid: "p_id (plant_at st i j) = plantId"
    using assms(1) by (simp add: addresses_def plant_at_def)
  have o: "goBackStage areaId (plant_at st i j) =
            rollbackPlantStage areaId plantId
              (stage_order ! (count_stage (p_journal (plant_at st i j)) - 1))"
    using True by (simp add: goBackStage_at[OF assms(2,3)] pid)
  have eq: "press_back areaId i j st =
      apply_updates (set_areas (rollbackPlantStage areaId plantId
         (stage_order ! (count_stage (p_journal (plant_at st i j)) - 1)))) st"
    by (simp add: press_back_def o)
  have "addresses (press_back areaId i j st) areaId plantId i j"
    unfolding eq by (rule addresses_rollbackPlantStage[OF assms(1)])
  moreover have "p_stage (plant_at (press_back areaId i j st) i j) =
            stage_order ! (count_stage (p_journal (plant_at st i j)) - 1)"
    unfolding eq by (simp add: plant_after_rollbackPlantStage[OF assms(1)])
  moreover have "p_journal (plant_at (press_back areaId i j st) i j) =
            trimmed (p_journal (plant_at st i j))"
    unfolding eq by (simp add: plant_after_rollbackPlantStage[OF assms(1)])
  ultimately show ?thesis using True o by blast
next
  case False
  then have c: "count_stage (p_journal (plant_at st i j)) = 0" by simp
  have o: "goBackStage areaId (plant_at st i j) = no_effect"
    using False by (simp add: goBackStage_at[OF assms(2,3)])
  have "press_back areaId i j st = st"
    by (simp add: press_back_def o no_effect_def apply_updates_def)
  with c o show ?thesis by blast
qed

text \<open>What one press does to a plant whose stage is the one its journal counts.\<close>

lemma press_facts:
  assumes "addresses st areaId plantId i j"
    and "count_stage (p_journal (plant_at st i j)) \<le> 5"
    and "p_stage (plant_at st i j) = stage_order ! count_stage (p_journal (plant_at st i j))"
  shows "addresses (press_state areaId i j st p) areaId plantId i j \<and>
         count_stage (p_journal (plant_at (press_state areaId i j st p) i j)) \<le> 5 \<and>
         p_stage (plant_at (press_state areaId i j st p) i j) =
           stage_order ! count_stage (p_journal (plant_at (press_state areaId i j st p) i j)) \<and>
         count_stage (p_journal (plant_at (press_state areaId i j st p) i j)) +
             rollback_calls [press_outcome areaId i j st p]
           = count_stage (p_journal (plant_at st i j)) + advance_calls [press_outcome areaId i j st p] \<and>
         filter (\<lambda>e. e_type e \<noteq> ''stage'') (p_journal (plant_at (press_state areaId i j st p) i j))
           = filter (\<lambda>e. e_type e \<noteq> ''stage'') (p_journal (plant_at st i j)) \<and>
         length (p_journal (plant_at st i j))
           \<le> length (p_journal (plant_at (press_state areaId i j st p) i j)) + 1"
proof (cases p)
  case (AdvancePress newId today)
  from advance_press_facts[OF assms, of newId today] show ?thesis
  proof (elim disjE conjE)
    assume "count_stage (p_journal (plant_at st i j)) = 5"
      "advanceStage newId today areaId (plant_at st i j) = no_effect"
      "press_advance newId today areaId i j st = st"
    with assms show ?thesis
      by (simp add: AdvancePress advance_calls_def rollback_calls_def calls_of_no_effect)
  next
    assume "count_stage (p_journal (plant_at st i j)) < 5"
      "advanceStage newId today areaId (plant_at st i j) =
         updatePlantStage newId today areaId plantId
           (the (stage_order ! Suc (count_stage (p_journal (plant_at st i j)))))"
      "addresses (press_advance newId today areaId i j st) areaId plantId i j"
      "p_stage (plant_at (press_advance newId today areaId i j st) i j) =
         stage_order ! Suc (count_stage (p_journal (plant_at st i j)))"
      "p_journal (plant_at (press_advance newId today areaId i j st) i j) =
         p_journal (plant_at st i j) @
           [\<lparr>e_id = newId, e_date = today,
             e_text = stage_label (the (stage_order ! Suc (count_stage (p_journal (plant_at st i j))))),
             e_type = ''stage''\<rparr>]"
    then show ?thesis
      by (simp add: AdvancePress advance_calls_def rollback_calls_def calls_of_updatePlantStage
          count_stage_append_stage)
  qed
next
  case BackPress
  from back_press_facts[OF assms] show ?thesis
  proof (elim disjE conjE)
    assume "count_stage (p_journal (plant_at st i j)) = 0"
      "goBackStage areaId (plant_at st i j) = no_effect"
      "press_back areaId i j st = st"
    with assms show ?thesis
      by (simp add: BackPress advance_calls_def rollback_calls_def calls_of_no_effect)
  next
    assume "0 < count_stage (p_journal (plant_at st i j))"
      "goBackStage areaId (plant_at st i j) =
         rollbackPlantStage areaId plantId
           (stage_order ! (count_stage (p_journal (plant_at st i j)) - 1))"
      "addresses (press_back areaId i j st) areaId plantId i j"
      "p_stage (plant_at (press_back areaId i j st) i j) =
         stage_order ! (count_stage (p_journal (plant_at st i j)) - 1)"
      "p_journal (plant_at (press_back areaId i j st) i j) = trimmed (p_journal (plant_at st i j))"
    with assms(2) length_trimmed[of "p_journal (plant_at st i j)"] show ?thesis
      by (simp add: BackPress advance_calls_def rollback_calls_def calls_of_rollbackPlantStage
          count_stage_trimmed notes_trimmed)
  qed
qed

lemma calls_append:
  "advance_calls (xs @ ys) = advance_calls xs + advance_calls ys \<and>
   rollback_calls (xs @ ys) = rollback_calls xs + rollback_calls ys"
  by (simp add: advance_calls_def rollback_calls_def)

lemma presses_facts:
  assumes "addresses st areaId plantId i j"
    and "count_stage (p_journal (plant_at st i j)) \<le> 5"
    and "p_stage (plant_at st i j) = stage_order ! count_stage (p_journal (plant_at st i j))"
  shows "addresses (run_presses areaId i j st ps) areaId plantId i j \<and>
         count_stage (p_journal (plant_at (run_presses areaId i j st ps) i j)) \<le> 5 \<and>
         p_stage (plant_at (run_presses areaId i j st ps) i j) =
           stage_order ! count_stage (p_journal (plant_at (run_presses areaId i j st ps) i j)) \<and>
         count_stage (p_journal (plant_at (run_presses areaId i j st ps) i j)) +
             rollback_calls (press_outcomes areaId i j st ps)
           = count_stage (p_journal (plant_at st i j)) + advance_calls (press_outcomes areaId i j st ps) \<and>
         filter (\<lambda>e. e_type e \<noteq> ''stage'') (p_journal (plant_at (run_presses areaId i j st ps) i j))
           = filter (\<lambda>e. e_type e \<noteq> ''stage'') (p_journal (plant_at st i j))"
  using assms
proof (induction ps arbitrary: st)
  case Nil
  then show ?case by (simp add: advance_calls_def rollback_calls_def)
next
  case (Cons p ps)
  note f = press_facts[OF Cons.prems, of p]
  note ih = Cons.IH[OF f[THEN conjunct1] f[THEN conjunct2, THEN conjunct1]
      f[THEN conjunct2, THEN conjunct2, THEN conjunct1]]
  have split: "press_outcomes areaId i j st (p # ps) =
      [press_outcome areaId i j st p] @ press_outcomes areaId i j (press_state areaId i j st p) ps"
    by simp
  from f ih show ?case
    unfolding split calls_append[THEN conjunct1] calls_append[THEN conjunct2]
    by simp
qed


lemma run_presses_take_Suc:
  assumes "k < length ps"
  shows "run_presses areaId i j st (take (Suc k) ps) =
           press_state areaId i j (run_presses areaId i j st (take k ps)) (ps ! k)"
  using assms by (simp add: take_Suc_conv_app_nth run_presses_append)

lemma rollback_keeps_notes:
  assumes "addresses st a p i j"
  shows "length (p_journal (plant_at st i j))
           \<le> length (p_journal (plant_at (apply_updates (set_areas (rollbackPlantStage a p prev)) st) i j)) + 1 \<and>
         filter (\<lambda>e. e_type e \<noteq> ''stage'')
             (p_journal (plant_at (apply_updates (set_areas (rollbackPlantStage a p prev)) st) i j))
           = filter (\<lambda>e. e_type e \<noteq> ''stage'') (p_journal (plant_at st i j))"
  using length_trimmed[of "p_journal (plant_at st i j)"]
  by (simp add: plant_after_rollbackPlantStage[OF assms] notes_trimmed)

text \<open>
  Claim C2. Take a plant that has not started (stage \<open>null\<close>) and whose journal holds no
  entry of type \<open>stage\<close> (the empty journal is one), and any finite sequence of presses of
  the advance and back buttons of the garden area screen, the callers of \<open>updatePlantStage\<close>
  and \<open>rollbackPlantStage\<close>. After each press, the number of entries of type \<open>stage\<close> in the
  plant's in-memory journal is the number of calls of \<open>updatePlantStage\<close> minus the number of
  calls of \<open>rollbackPlantStage\<close> made so far, it is at most five, and the plant's stage is the
  stage at that position of the order \<open>null\<close>, planted, sprouted, growing, harvesting, done;
  the entries that are not of type \<open>stage\<close> are those of the start, in their order. A press
  of advance at \<open>done\<close> and a press of back at \<open>null\<close> call nothing and leave the state as it
  is; every other press of advance calls \<open>updatePlantStage\<close> with the next stage and appends
  one entry of type \<open>stage\<close>, and every other press of back calls \<open>rollbackPlantStage\<close> with
  the stage before and removes the last entry of type \<open>stage\<close>. And in every state,
  \<open>rollbackPlantStage\<close> on a plant of the state removes at most one entry of its journal and
  none whose type is not \<open>stage\<close>.
\<close>

theorem stage_entries_follow_the_stage:
  assumes "addresses st areaId plantId i j"
    and "p_stage (plant_at st i j) = None"
    and "count_stage (p_journal (plant_at st i j)) = 0"
    and "k \<le> length ps"
  shows "addresses (run_presses areaId i j st (take k ps)) areaId plantId i j \<and>
         count_stage (journal_after areaId i j st (take k ps))
             + rollback_calls (press_outcomes areaId i j st (take k ps))
           = advance_calls (press_outcomes areaId i j st (take k ps)) \<and>
         count_stage (journal_after areaId i j st (take k ps)) \<le> 5 \<and>
         p_stage (plant_at (run_presses areaId i j st (take k ps)) i j)
           = stage_order ! count_stage (journal_after areaId i j st (take k ps)) \<and>
         filter (\<lambda>e. e_type e \<noteq> ''stage'') (journal_after areaId i j st (take k ps))
           = filter (\<lambda>e. e_type e \<noteq> ''stage'') (p_journal (plant_at st i j)) \<and>
         (k < length ps \<longrightarrow>
            (\<forall>newId today. ps ! k = AdvancePress newId today \<longrightarrow>
               (count_stage (journal_after areaId i j st (take k ps)) = 5 \<and>
                press_outcome areaId i j (run_presses areaId i j st (take k ps)) (ps ! k) = no_effect \<and>
                run_presses areaId i j st (take (Suc k) ps) = run_presses areaId i j st (take k ps)) \<or>
               (count_stage (journal_after areaId i j st (take k ps)) < 5 \<and>
                press_outcome areaId i j (run_presses areaId i j st (take k ps)) (ps ! k)
                  = updatePlantStage newId today areaId plantId
                      (the (stage_order ! Suc (count_stage (journal_after areaId i j st (take k ps))))) \<and>
                journal_after areaId i j st (take (Suc k) ps)
                  = journal_after areaId i j st (take k ps) @
                      [\<lparr>e_id = newId, e_date = today,
                        e_text = stage_label
                          (the (stage_order ! Suc (count_stage (journal_after areaId i j st (take k ps))))),
                        e_type = ''stage''\<rparr>])) \<and>
            (ps ! k = BackPress \<longrightarrow>
               (count_stage (journal_after areaId i j st (take k ps)) = 0 \<and>
                press_outcome areaId i j (run_presses areaId i j st (take k ps)) (ps ! k) = no_effect \<and>
                run_presses areaId i j st (take (Suc k) ps) = run_presses areaId i j st (take k ps)) \<or>
               (0 < count_stage (journal_after areaId i j st (take k ps)) \<and>
                press_outcome areaId i j (run_presses areaId i j st (take k ps)) (ps ! k)
                  = rollbackPlantStage areaId plantId
                      (stage_order ! (count_stage (journal_after areaId i j st (take k ps)) - 1)) \<and>
                journal_after areaId i j st (take (Suc k) ps)
                  = trimmed (journal_after areaId i j st (take k ps))))) \<and>
         (\<forall>st' a p i' j' prev. addresses st' a p i' j' \<longrightarrow>
            length (p_journal (plant_at st' i' j'))
              \<le> length (p_journal
                    (plant_at (apply_updates (set_areas (rollbackPlantStage a p prev)) st') i' j')) + 1 \<and>
            filter (\<lambda>e. e_type e \<noteq> ''stage'')
                (p_journal (plant_at (apply_updates (set_areas (rollbackPlantStage a p prev)) st') i' j'))
              = filter (\<lambda>e. e_type e \<noteq> ''stage'') (p_journal (plant_at st' i' j')))"
proof -
  let ?s = "run_presses areaId i j st (take k ps)"
  have s0: "p_stage (plant_at st i j) = stage_order ! count_stage (p_journal (plant_at st i j))"
    using assms(2,3) by (simp add: stage_order_list)
  have c0: "count_stage (p_journal (plant_at st i j)) \<le> 5"
    using assms(3) by simp
  note f = presses_facts[OF assms(1) c0 s0, of "take k ps"]
  have a: "addresses ?s areaId plantId i j" using f by blast
  have c: "count_stage (p_journal (plant_at ?s i j)) \<le> 5" using f by blast
  have g: "p_stage (plant_at ?s i j) = stage_order ! count_stage (p_journal (plant_at ?s i j))"
    using f by blast
  have n: "count_stage (p_journal (plant_at ?s i j)) + rollback_calls (press_outcomes areaId i j st (take k ps))
           = advance_calls (press_outcomes areaId i j st (take k ps))"
    using f assms(3) by simp
  have k: "filter (\<lambda>e. e_type e \<noteq> ''stage'') (p_journal (plant_at ?s i j))
           = filter (\<lambda>e. e_type e \<noteq> ''stage'') (p_journal (plant_at st i j))"
    using f by blast
  have adv: "(count_stage (journal_after areaId i j st (take k ps)) = 5 \<and>
                press_outcome areaId i j ?s (ps ! k) = no_effect \<and>
                run_presses areaId i j st (take (Suc k) ps) = ?s) \<or>
               (count_stage (journal_after areaId i j st (take k ps)) < 5 \<and>
                press_outcome areaId i j ?s (ps ! k)
                  = updatePlantStage newId today areaId plantId
                      (the (stage_order ! Suc (count_stage (journal_after areaId i j st (take k ps))))) \<and>
                journal_after areaId i j st (take (Suc k) ps)
                  = journal_after areaId i j st (take k ps) @
                      [\<lparr>e_id = newId, e_date = today,
                        e_text = stage_label
                          (the (stage_order ! Suc (count_stage (journal_after areaId i j st (take k ps))))),
                        e_type = ''stage''\<rparr>])"
    if "k < length ps" "ps ! k = AdvancePress newId today" for newId today
    using advance_press_facts[OF a c g, of newId today] that
    by (auto simp: journal_after_def run_presses_take_Suc)
  have bk: "(count_stage (journal_after areaId i j st (take k ps)) = 0 \<and>
                press_outcome areaId i j ?s (ps ! k) = no_effect \<and>
                run_presses areaId i j st (take (Suc k) ps) = ?s) \<or>
               (0 < count_stage (journal_after areaId i j st (take k ps)) \<and>
                press_outcome areaId i j ?s (ps ! k)
                  = rollbackPlantStage areaId plantId
                      (stage_order ! (count_stage (journal_after areaId i j st (take k ps)) - 1)) \<and>
                journal_after areaId i j st (take (Suc k) ps)
                  = trimmed (journal_after areaId i j st (take k ps)))"
    if "k < length ps" "ps ! k = BackPress"
    using back_press_facts[OF a c g] that
    by (auto simp: journal_after_def run_presses_take_Suc)
  show ?thesis
  proof (intro conjI impI allI)
    show "addresses ?s areaId plantId i j" by (rule a)
    show "count_stage (journal_after areaId i j st (take k ps))
             + rollback_calls (press_outcomes areaId i j st (take k ps))
           = advance_calls (press_outcomes areaId i j st (take k ps))"
      unfolding journal_after_def by (rule n)
    show "count_stage (journal_after areaId i j st (take k ps)) \<le> 5"
      unfolding journal_after_def by (rule c)
    show "p_stage (plant_at ?s i j) = stage_order ! count_stage (journal_after areaId i j st (take k ps))"
      unfolding journal_after_def by (rule g)
    show "filter (\<lambda>e. e_type e \<noteq> ''stage'') (journal_after areaId i j st (take k ps))
           = filter (\<lambda>e. e_type e \<noteq> ''stage'') (p_journal (plant_at st i j))"
      unfolding journal_after_def by (rule k)
  next
    fix newId today
    assume "k < length ps" "ps ! k = AdvancePress newId today"
    then show "(count_stage (journal_after areaId i j st (take k ps)) = 5 \<and>
                press_outcome areaId i j ?s (ps ! k) = no_effect \<and>
                run_presses areaId i j st (take (Suc k) ps) = ?s) \<or>
               (count_stage (journal_after areaId i j st (take k ps)) < 5 \<and>
                press_outcome areaId i j ?s (ps ! k)
                  = updatePlantStage newId today areaId plantId
                      (the (stage_order ! Suc (count_stage (journal_after areaId i j st (take k ps))))) \<and>
                journal_after areaId i j st (take (Suc k) ps)
                  = journal_after areaId i j st (take k ps) @
                      [\<lparr>e_id = newId, e_date = today,
                        e_text = stage_label
                          (the (stage_order ! Suc (count_stage (journal_after areaId i j st (take k ps))))),
                        e_type = ''stage''\<rparr>])"
      by (rule adv)
  next
    assume "k < length ps" "ps ! k = BackPress"
    then show "(count_stage (journal_after areaId i j st (take k ps)) = 0 \<and>
                press_outcome areaId i j ?s (ps ! k) = no_effect \<and>
                run_presses areaId i j st (take (Suc k) ps) = ?s) \<or>
               (0 < count_stage (journal_after areaId i j st (take k ps)) \<and>
                press_outcome areaId i j ?s (ps ! k)
                  = rollbackPlantStage areaId plantId
                      (stage_order ! (count_stage (journal_after areaId i j st (take k ps)) - 1)) \<and>
                journal_after areaId i j st (take (Suc k) ps)
                  = trimmed (journal_after areaId i j st (take k ps)))"
      by (rule bk)
  next
    fix st' a p i' j' prev
    assume h: "addresses st' a p i' j'"
    show "length (p_journal (plant_at st' i' j'))
              \<le> length (p_journal
                    (plant_at (apply_updates (set_areas (rollbackPlantStage a p prev)) st') i' j')) + 1"
      using rollback_keeps_notes[OF h] by blast
    show "filter (\<lambda>e. e_type e \<noteq> ''stage'')
                (p_journal (plant_at (apply_updates (set_areas (rollbackPlantStage a p prev)) st') i' j'))
              = filter (\<lambda>e. e_type e \<noteq> ''stage'') (p_journal (plant_at st' i' j'))"
      using rollback_keeps_notes[OF h] by blast
  qed
qed


lemma sample_presses_calls:
  "advance_calls (press_outcomes ''a3'' 0 0 noted_garden (take 4 sample_presses)) = 2 \<and>
   rollback_calls (press_outcomes ''a3'' 0 0 noted_garden (take 4 sample_presses)) = 2"
  by code_simp

theorem stage_entries_follow_the_stage_witness:
  "addresses noted_garden ''a3'' ''p4'' 0 0 \<and>
   p_stage (plant_at noted_garden 0 0) = None \<and>
   count_stage (p_journal (plant_at noted_garden 0 0)) = 0 \<and>
   4 \<le> length sample_presses \<and>
   advance_calls (press_outcomes ''a3'' 0 0 noted_garden (take 4 sample_presses)) = 2 \<and>
   rollback_calls (press_outcomes ''a3'' 0 0 noted_garden (take 4 sample_presses)) = 2 \<and>
   count_stage (journal_after ''a3'' 0 0 noted_garden (take 4 sample_presses)) = 0 \<and>
   p_stage (plant_at (run_presses ''a3'' 0 0 noted_garden (take 4 sample_presses)) 0 0) = None \<and>
   filter (\<lambda>e. e_type e \<noteq> ''stage'') (journal_after ''a3'' 0 0 noted_garden (take 4 sample_presses))
     = [\<lparr>e_id = ''e9'', e_date = ''3 Nov 2026'', e_text = ''sown indoors'', e_type = ''note''\<rparr>] \<and>
   sample_presses ! 4 = BackPress \<and>
   press_outcome ''a3'' 0 0 (run_presses ''a3'' 0 0 noted_garden (take 4 sample_presses)) (sample_presses ! 4)
     = no_effect"
proof -
  have h1: "addresses noted_garden ''a3'' ''p4'' 0 0"
    by (simp add: addresses_def noted_garden_def)
  have h2: "p_stage (plant_at noted_garden 0 0) = None"
    by (simp add: plant_at_def noted_garden_def)
  have j0: "p_journal (plant_at noted_garden 0 0)
      = [\<lparr>e_id = ''e9'', e_date = ''3 Nov 2026'', e_text = ''sown indoors'', e_type = ''note''\<rparr>]"
    by (simp add: plant_at_def noted_garden_def)
  have h3: "count_stage (p_journal (plant_at noted_garden 0 0)) = 0"
    by (simp add: j0 count_stage_def)
  have h4: "4 \<le> length sample_presses" and lt: "4 < length sample_presses"
    and b: "sample_presses ! 4 = BackPress"
    by (simp_all add: sample_presses_def)
  note r = stage_entries_follow_the_stage [OF h1 h2 h3 h4]
  from r sample_presses_calls
  have c: "count_stage (journal_after ''a3'' 0 0 noted_garden (take 4 sample_presses)) = 0"
    by simp
  from r have s: "p_stage (plant_at (run_presses ''a3'' 0 0 noted_garden (take 4 sample_presses)) 0 0)
      = stage_order ! count_stage (journal_after ''a3'' 0 0 noted_garden (take 4 sample_presses))"
    by blast
  from r have n: "filter (\<lambda>e. e_type e \<noteq> ''stage'') (journal_after ''a3'' 0 0 noted_garden (take 4 sample_presses))
     = filter (\<lambda>e. e_type e \<noteq> ''stage'') (p_journal (plant_at noted_garden 0 0))"
    by blast
  from r lt b c have o: "press_outcome ''a3'' 0 0 (run_presses ''a3'' 0 0 noted_garden (take 4 sample_presses))
      (sample_presses ! 4) = no_effect"
    by simp
  from h1 h2 h3 h4 sample_presses_calls c s n o b show ?thesis
    by (simp add: stage_order_list j0)
qed

section \<open>Writing and loading\<close>

lemma stored_value_cases:
  "stored_value Undefined = Null \<and> stored_value Null = Null \<and> stored_value (Str s) = Str s \<and>
   stored_value (Num n) = Str (number_text n)"
  by (simp add: stored_value_def)

lemma stored_value_plain: "(stored_value v = v) = plain_value v"
  by (cases v) (simp_all add: stored_value_def)

lemma stored_plant_plain: "(stored_plant p = p) = plain_plant p"
proof (cases p)
  case (fields a b c d e f g h)
  then show ?thesis
    by (auto simp: stored_plant_def plain_plant_def stored_value_plain)
qed

lemma map_id_iff: "(map f xs = xs) = list_all (\<lambda>x. f x = x) xs"
  by (induction xs) simp_all

lemma stored_area_plain: "(stored_area a = a) = list_all plain_plant (a_plants a)"
proof (cases a)
  case (fields i n e c ps)
  then show ?thesis
    by (simp add: stored_area_def map_id_iff stored_plant_plain)
qed

lemma stored_garden_plain: "(map stored_area gdn = gdn) = plain_garden gdn"
  by (simp add: map_id_iff stored_area_plain plain_garden_def)

lemma no_plants_of_new_area:
  assumes "consistent db" "ident \<notin> set (map ar_id (areas db))"
  shows "filter (\<lambda>p. pr_area_id p = ident) (plants db) = []"
  using assms by (auto simp: consistent_def list_all_iff filter_empty_conv)

lemma no_journal_of_new_plant:
  assumes "consistent db" "ident \<notin> set (map pr_id (plants db))"
  shows "filter (\<lambda>e. jr_plant_id e = ident) (journal_entries db) = []"
  using assms by (auto simp: consistent_def list_all_iff filter_empty_conv)

lemma insertArea_loaded:
  assumes "consistent db" "insertArea ident name emoji createdAt db = Inr db'"
  shows "consistent db' \<and>
         loadAllAreas db' = loadAllAreas db @
           [\<lparr>a_id = ident, a_name = name, a_emoji = emoji, a_createdAt = createdAt, a_plants = []\<rparr>]"
proof -
  from assms(2) have fresh: "ident \<notin> set (map ar_id (areas db))"
    and d: "db' = db\<lparr>areas := areas db @
             [\<lparr>ar_id = ident, ar_name = name, ar_emoji = emoji, ar_created_at = createdAt\<rparr>]\<rparr>"
    by (auto simp: insertArea_def split: if_splits)
  have lp: "load_plants db' x = load_plants db x" for x
    by (simp add: d load_plants_def load_journal_def)
  have new: "load_plants db ident = []"
    by (simp add: load_plants_def no_plants_of_new_area[OF assms(1) fresh])
  have c: "consistent db'"
    using assms(1) fresh by (auto simp: consistent_def d list_all_iff)
  have "loadAllAreas db' = loadAllAreas db @
           [\<lparr>a_id = ident, a_name = name, a_emoji = emoji, a_createdAt = createdAt, a_plants = []\<rparr>]"
    by (simp add: loadAllAreas_def lp) (simp add: d new)
  with c show ?thesis by blast
qed

lemma insertPlant_loaded:
  assumes "consistent db"
    and "insertPlant ident areaId seedId seedTitle seedCategory seedImage plantedDate stage db = Inr db'"
  shows "consistent db' \<and>
         loadAllAreas db' =
           map (\<lambda>a. if a_id a = areaId
                    then a\<lparr>a_plants := a_plants a @
                           [\<lparr>p_id = ident, p_seedId = stored_value seedId,
                             p_seedTitle = stored_value seedTitle,
                             p_seedCategory = stored_value seedCategory,
                             p_seedImage = stored_value seedImage,
                             p_plantedDate = plantedDate, p_stage = stage, p_journal = []\<rparr>]\<rparr>
                    else a) (loadAllAreas db)"
proof -
  from assms(2) have fresh: "ident \<notin> set (map pr_id (plants db))"
    and ar: "areaId \<in> set (map ar_id (areas db))"
    and d: "db' = db\<lparr>plants := plants db @
             [\<lparr>pr_id = ident, pr_area_id = areaId,
               pr_seed_id = text_column (or_null seedId),
               pr_seed_title = text_column (or_null seedTitle),
               pr_seed_category = text_column (or_null seedCategory),
               pr_seed_image = text_column (or_null seedImage),
               pr_planted_date = plantedDate, pr_stage = stage\<rparr>]\<rparr>"
    by (auto simp: insertPlant_def split: if_splits)
  have lj: "load_journal db' x = load_journal db x" for x
    by (simp add: d load_journal_def)
  have new: "load_journal db ident = []"
    by (simp add: load_journal_def no_journal_of_new_plant[OF assms(1) fresh])
  have lp: "load_plants db' x =
      (if x = areaId
       then load_plants db x @
              [\<lparr>p_id = ident, p_seedId = stored_value seedId,
                p_seedTitle = stored_value seedTitle,
                p_seedCategory = stored_value seedCategory,
                p_seedImage = stored_value seedImage,
                p_plantedDate = plantedDate, p_stage = stage, p_journal = []\<rparr>]
       else load_plants db x)" for x
    unfolding load_plants_def lj
    by (simp add: d) (simp add: new stored_value_def)
  have c: "consistent db'"
    using assms(1) fresh ar by (auto simp: consistent_def d list_all_iff)
  have a: "areas db' = areas db" by (simp add: d)
  have "loadAllAreas db' =
           map (\<lambda>a. if a_id a = areaId
                    then a\<lparr>a_plants := a_plants a @
                           [\<lparr>p_id = ident, p_seedId = stored_value seedId,
                             p_seedTitle = stored_value seedTitle,
                             p_seedCategory = stored_value seedCategory,
                             p_seedImage = stored_value seedImage,
                             p_plantedDate = plantedDate, p_stage = stage, p_journal = []\<rparr>]\<rparr>
                    else a) (loadAllAreas db)"
    by (simp add: loadAllAreas_def a lp o_def)
  with c show ?thesis by blast
qed

lemma insertJournalEntry_loaded:
  assumes "consistent db"
    and "insertJournalEntry ident plantId date txt type db = Inr db'"
  shows "consistent db' \<and>
         loadAllAreas db' =
           map (\<lambda>a. a\<lparr>a_plants := map (\<lambda>p. if p_id p = plantId
                         then p\<lparr>p_journal := p_journal p @
                                [\<lparr>e_id = ident, e_date = date, e_text = txt, e_type = type\<rparr>]\<rparr>
                         else p) (a_plants a)\<rparr>) (loadAllAreas db)"
proof -
  from assms(2) have fresh: "ident \<notin> set (map jr_id (journal_entries db))"
    and pl: "plantId \<in> set (map pr_id (plants db))"
    and d: "db' = db\<lparr>journal_entries := journal_entries db @
             [\<lparr>jr_id = ident, jr_plant_id = plantId, jr_date = date, jr_text = txt,
               jr_type = type\<rparr>]\<rparr>"
    by (auto simp: insertJournalEntry_def split: if_splits)
  have lj: "load_journal db' x =
      (if x = plantId
       then load_journal db x @ [\<lparr>e_id = ident, e_date = date, e_text = txt, e_type = type\<rparr>]
       else load_journal db x)" for x
    by (simp add: d load_journal_def)
  have lp: "load_plants db' x =
      map (\<lambda>p. if p_id p = plantId
               then p\<lparr>p_journal := p_journal p @
                      [\<lparr>e_id = ident, e_date = date, e_text = txt, e_type = type\<rparr>]\<rparr>
               else p) (load_plants db x)" for x
    unfolding load_plants_def lj by (simp add: d o_def)
  have c: "consistent db'"
    using assms(1) fresh pl by (auto simp: consistent_def d list_all_iff)
  have a: "areas db' = areas db" by (simp add: d)
  have "loadAllAreas db' =
           map (\<lambda>a. a\<lparr>a_plants := map (\<lambda>p. if p_id p = plantId
                         then p\<lparr>p_journal := p_journal p @
                                [\<lparr>e_id = ident, e_date = date, e_text = txt, e_type = type\<rparr>]\<rparr>
                         else p) (a_plants a)\<rparr>) (loadAllAreas db)"
    by (simp add: loadAllAreas_def a lp o_def)
  with c show ?thesis by blast
qed



lemma stored_after_plant:
  "map (\<lambda>a. if a_id a = areaId
            then a\<lparr>a_plants := a_plants a @
                   [\<lparr>p_id = ident, p_seedId = stored_value seedId,
                     p_seedTitle = stored_value seedTitle,
                     p_seedCategory = stored_value seedCategory,
                     p_seedImage = stored_value seedImage,
                     p_plantedDate = plantedDate, p_stage = stage, p_journal = []\<rparr>]\<rparr>
            else a) (map stored_area g)
   = map stored_area
       (written (InsertPlant ident areaId seedId seedTitle seedCategory seedImage plantedDate stage) g)"
  by (simp add: stored_area_def stored_plant_def o_def)

lemma stored_after_entry:
  "map (\<lambda>a. a\<lparr>a_plants := map (\<lambda>p. if p_id p = plantId
                  then p\<lparr>p_journal := p_journal p @
                         [\<lparr>e_id = ident, e_date = date, e_text = txt, e_type = type\<rparr>]\<rparr>
                  else p) (a_plants a)\<rparr>) (map stored_area g)
   = map stored_area (written (InsertJournalEntry ident plantId date txt type) g)"
  by (simp add: stored_area_def stored_plant_def o_def)

lemma insert_loaded:
  assumes "consistent db" "is_insert w" "perform w db = Inr db'"
    and "loadAllAreas db = map stored_area g"
  shows "consistent db' \<and> loadAllAreas db' = map stored_area (written w g)"
proof (cases w)
  case (InsertArea ident name emoji createdAt)
  with assms(3) have "insertArea ident name emoji createdAt db = Inr db'" by simp
  from insertArea_loaded[OF assms(1) this] show ?thesis
    by (simp add: InsertArea assms(4) stored_area_def)
next
  case (InsertPlant ident areaId seedId seedTitle seedCategory seedImage plantedDate stage)
  with assms(3) have
    "insertPlant ident areaId seedId seedTitle seedCategory seedImage plantedDate stage db = Inr db'"
    by simp
  from insertPlant_loaded[OF assms(1) this] show ?thesis
    unfolding InsertPlant assms(4) stored_after_plant by simp
next
  case (InsertJournalEntry ident plantId date body kind)
  with assms(3) have "insertJournalEntry ident plantId date body kind db = Inr db'" by simp
  from insertJournalEntry_loaded[OF assms(1) this] show ?thesis
    unfolding InsertJournalEntry assms(4) stored_after_entry by simp
qed (insert assms(2), simp_all)

lemma inserts_loaded:
  assumes "list_all is_insert ws" "consistent db" "run_writes fails ws db = Inr db'"
    and "loadAllAreas db = map stored_area g"
  shows "consistent db' \<and> loadAllAreas db' = map stored_area (fold written ws g)"
  using assms
proof (induction ws arbitrary: db g)
  case Nil
  then show ?case by simp
next
  case (Cons w ws)
  from Cons.prems(3) obtain db1 where
    p: "perform w db = Inr db1" and r: "run_writes fails ws db1 = Inr db'"
    by (auto simp: run_write_def split: sum.splits if_splits)
  from Cons.prems(1) have i: "is_insert w" and rest: "list_all is_insert ws" by simp_all
  note s = insert_loaded[OF Cons.prems(2) i p Cons.prems(4)]
  from Cons.IH[OF rest s[THEN conjunct1] r s[THEN conjunct2]] show ?case by simp
qed

lemma empty_database_loaded:
  "consistent empty_database \<and> loadAllAreas empty_database = map stored_area []"
  by (simp add: consistent_def empty_database_def loadAllAreas_def)

lemma write_journal_tables:
  "write_journal pid es db = Inr db' \<Longrightarrow>
   db' = db\<lparr>journal_entries := journal_entries db @ map (journal_row_of pid) es\<rparr>"
proof (induction es arbitrary: db)
  case Nil
  then show ?case by simp
next
  case (Cons e es)
  from Cons.prems obtain db1 where
    i: "insertJournalEntry (e_id e) pid (e_date e) (e_text e) (e_type e) db = Inr db1"
    and r: "write_journal pid es db1 = Inr db'"
    by (auto split: sum.splits)
  from i have d1: "db1 = db\<lparr>journal_entries := journal_entries db @ [journal_row_of pid e]\<rparr>"
    by (auto simp: insertJournalEntry_def journal_row_of_def split: if_splits)
  from Cons.IH[OF r] show ?case by (simp add: d1)
qed

lemma write_plants_tables:
  "write_plants aid ps db = Inr db' \<Longrightarrow>
   db' = db\<lparr>plants := plants db @ map (plant_row_of aid) ps,
            journal_entries := journal_entries db @
              concat (map (\<lambda>p. map (journal_row_of (p_id p)) (p_journal p)) ps)\<rparr> \<and>
   distinct (map p_id ps) \<and> set (map p_id ps) \<inter> set (map pr_id (plants db)) = {}"
proof (induction ps arbitrary: db)
  case Nil
  then show ?case by simp
next
  case (Cons p ps)
  from Cons.prems obtain db1 db2 where
    i: "insertPlant (p_id p) aid (p_seedId p) (p_seedTitle p) (p_seedCategory p)
             (p_seedImage p) (p_plantedDate p) (p_stage p) db = Inr db1"
    and j: "write_journal (p_id p) (p_journal p) db1 = Inr db2"
    and r: "write_plants aid ps db2 = Inr db'"
    by (auto split: sum.splits)
  from i have d1: "db1 = db\<lparr>plants := plants db @ [plant_row_of aid p]\<rparr>"
    and fresh: "p_id p \<notin> set (map pr_id (plants db))"
    by (auto simp: insertPlant_def plant_row_of_def split: if_splits)
  from write_journal_tables[OF j]
  have d2: "db2 = db1\<lparr>journal_entries := journal_entries db1 @ map (journal_row_of (p_id p)) (p_journal p)\<rparr>" .
  have p2: "plants db2 = plants db @ [plant_row_of aid p]"
    by (simp add: d2 d1)
  from Cons.IH[OF r] have
    d': "db' = db2\<lparr>plants := plants db2 @ map (plant_row_of aid) ps,
            journal_entries := journal_entries db2 @
              concat (map (\<lambda>p. map (journal_row_of (p_id p)) (p_journal p)) ps)\<rparr>"
    and dist: "distinct (map p_id ps)"
    and disj: "set (map p_id ps) \<inter> set (map pr_id (plants db2)) = {}"
    by simp_all
  have "db' = db\<lparr>plants := plants db @ map (plant_row_of aid) (p # ps),
            journal_entries := journal_entries db @
              concat (map (\<lambda>p. map (journal_row_of (p_id p)) (p_journal p)) (p # ps))\<rparr>"
    by (simp add: d' d2 d1)
  moreover have "distinct (map p_id (p # ps))"
    using dist disj by (auto simp: p2 plant_row_of_def)
  moreover have "set (map p_id (p # ps)) \<inter> set (map pr_id (plants db)) = {}"
    using fresh disj by (auto simp: p2)
  ultimately show ?case by blast
qed


lemma write_areas_tables:
  "write_areas gdn db = Inr db' \<Longrightarrow>
   db' = db\<lparr>areas := areas db @ map area_row_of gdn,
            plants := plants db @ concat (map (\<lambda>a. map (plant_row_of (a_id a)) (a_plants a)) gdn),
            journal_entries := journal_entries db @
              concat (map (\<lambda>p. map (journal_row_of (p_id p)) (p_journal p))
                (concat (map a_plants gdn)))\<rparr> \<and>
   distinct (map a_id gdn) \<and> set (map a_id gdn) \<inter> set (map ar_id (areas db)) = {} \<and>
   distinct (map p_id (concat (map a_plants gdn))) \<and>
   set (map p_id (concat (map a_plants gdn))) \<inter> set (map pr_id (plants db)) = {}"
proof (induction gdn arbitrary: db)
  case Nil
  then show ?case by simp
next
  case (Cons a gdn)
  from Cons.prems obtain db1 db2 where
    i: "insertArea (a_id a) (a_name a) (a_emoji a) (a_createdAt a) db = Inr db1"
    and w: "write_plants (a_id a) (a_plants a) db1 = Inr db2"
    and r: "write_areas gdn db2 = Inr db'"
    by (auto split: sum.splits)
  from i have d1: "db1 = db\<lparr>areas := areas db @ [area_row_of a]\<rparr>"
    and fresh: "a_id a \<notin> set (map ar_id (areas db))"
    by (auto simp: insertArea_def area_row_of_def split: if_splits)
  from write_plants_tables[OF w] have
    d2: "db2 = db1\<lparr>plants := plants db1 @ map (plant_row_of (a_id a)) (a_plants a),
            journal_entries := journal_entries db1 @
              concat (map (\<lambda>p. map (journal_row_of (p_id p)) (p_journal p)) (a_plants a))\<rparr>"
    and pd: "distinct (map p_id (a_plants a))"
    and pf: "set (map p_id (a_plants a)) \<inter> set (map pr_id (plants db1)) = {}"
    by simp_all
  have a2: "areas db2 = areas db @ [area_row_of a]"
    and p2: "plants db2 = plants db @ map (plant_row_of (a_id a)) (a_plants a)"
    by (simp_all add: d2 d1)
  from Cons.IH[OF r] have
    d': "db' = db2\<lparr>areas := areas db2 @ map area_row_of gdn,
            plants := plants db2 @ concat (map (\<lambda>a. map (plant_row_of (a_id a)) (a_plants a)) gdn),
            journal_entries := journal_entries db2 @
              concat (map (\<lambda>p. map (journal_row_of (p_id p)) (p_journal p))
                (concat (map a_plants gdn)))\<rparr>"
    and ad: "distinct (map a_id gdn)"
    and af: "set (map a_id gdn) \<inter> set (map ar_id (areas db2)) = {}"
    and qd: "distinct (map p_id (concat (map a_plants gdn)))"
    and qf: "set (map p_id (concat (map a_plants gdn))) \<inter> set (map pr_id (plants db2)) = {}"
    by simp_all
  have t: "db' = db\<lparr>areas := areas db @ map area_row_of (a # gdn),
            plants := plants db @ concat (map (\<lambda>a. map (plant_row_of (a_id a)) (a_plants a)) (a # gdn)),
            journal_entries := journal_entries db @
              concat (map (\<lambda>p. map (journal_row_of (p_id p)) (p_journal p))
                (concat (map a_plants (a # gdn))))\<rparr>"
    by (simp add: d' d2 d1)
  have ids2: "map pr_id (plants db2) = map pr_id (plants db) @ map p_id (a_plants a)"
    by (simp add: p2 plant_row_of_def o_def)
  have c1: "distinct (map a_id (a # gdn))"
    using ad af by (auto simp: a2 area_row_of_def)
  have c2: "set (map a_id (a # gdn)) \<inter> set (map ar_id (areas db)) = {}"
    using fresh af by (auto simp: a2)
  have c3: "distinct (map p_id (concat (map a_plants (a # gdn))))"
    using pd qd qf by (auto simp: ids2)
  have q0: "set (map p_id (concat (map a_plants gdn))) \<inter> set (map pr_id (plants db)) = {}"
    using qf unfolding ids2 by auto
  have p0: "set (map p_id (a_plants a)) \<inter> set (map pr_id (plants db)) = {}"
    using pf by (simp add: d1)
  have c4: "set (map p_id (concat (map a_plants (a # gdn)))) \<inter> set (map pr_id (plants db)) = {}"
    using p0 q0 by (simp add: Int_Un_distrib2)
  from t c1 c2 c3 c4 show ?case by blast
qed

lemma filter_concat_key:
  assumes "distinct (map k xs)" "x \<in> set xs"
    and "\<And>y r. y \<in> set xs \<Longrightarrow> r \<in> set (f y) \<Longrightarrow> key r = k y"
  shows "filter (\<lambda>r. key r = k x) (concat (map f xs)) = f x"
  using assms
proof (induction xs)
  case Nil
  then show ?case by simp
next
  case (Cons y ys)
  show ?case
  proof (cases "y = x")
    case True
    have here: "filter (\<lambda>r. key r = k x) (f x) = f x"
      using Cons.prems(3)[of x] by (simp add: True filter_id_conv)
    have "k x \<notin> k ` set ys"
      using Cons.prems(1) True by simp
    then have "k z \<noteq> k x" if "z \<in> set ys" for z
      using that by (metis imageI)
    then have "filter (\<lambda>r. key r = k x) (concat (map f ys)) = []"
      using Cons.prems(3) by (auto simp: filter_empty_conv) (metis list.set_intros(2))
    with here True show ?thesis by simp
  next
    case False
    with Cons.prems(2) have x: "x \<in> set ys" by simp
    then have "k y \<noteq> k x" using Cons.prems(1) by auto
    then have "filter (\<lambda>r. key r = k x) (f y) = []"
      using Cons.prems(3)[of y] by (auto simp: filter_empty_conv)
    moreover have "filter (\<lambda>r. key r = k x) (concat (map f ys)) = f x"
      using Cons.prems(1) Cons.prems(3) x by (intro Cons.IH) auto
    ultimately show ?thesis by simp
  qed
qed



lemma entry_fields:
  "\<lparr>e_id = e_id x, e_date = e_date x, e_text = e_text x, e_type = e_type x\<rparr> = x"
  by (cases x) simp

lemma plant_fields:
  "\<lparr>p_id = p_id x, p_seedId = a, p_seedTitle = b, p_seedCategory = c, p_seedImage = d,
    p_plantedDate = p_plantedDate x, p_stage = p_stage x, p_journal = p_journal x\<rparr>
   = x\<lparr>p_seedId := a, p_seedTitle := b, p_seedCategory := c, p_seedImage := d\<rparr>"
  by (cases x) simp

lemma area_fields:
  "\<lparr>a_id = a_id x, a_name = a_name x, a_emoji = a_emoji x, a_createdAt = a_createdAt x,
    a_plants = ps\<rparr> = x\<lparr>a_plants := ps\<rparr>"
  by (cases x) simp

lemma load_written:
  assumes da: "distinct (map a_id gdn)"
    and dp: "distinct (map p_id (concat (map a_plants gdn)))"
    and ta: "areas db = map area_row_of gdn"
    and tp: "plants db = concat (map (\<lambda>a. map (plant_row_of (a_id a)) (a_plants a)) gdn)"
    and tj: "journal_entries db =
               concat (map (\<lambda>p. map (journal_row_of (p_id p)) (p_journal p)) (concat (map a_plants gdn)))"
  shows "loadAllAreas db = map stored_area gdn"
proof -
  have J: "load_journal db (p_id p) = p_journal p" if "p \<in> set (concat (map a_plants gdn))" for p
  proof -
    have "filter (\<lambda>r. jr_plant_id r = p_id p) (journal_entries db)
        = map (journal_row_of (p_id p)) (p_journal p)"
      unfolding tj by (rule filter_concat_key[OF dp that]) (auto simp: journal_row_of_def)
    then show ?thesis
      by (simp add: load_journal_def journal_row_of_def o_def entry_fields)
  qed
  have P: "load_plants db (a_id a) = map stored_plant (a_plants a)" if "a \<in> set gdn" for a
  proof -
    have f: "filter (\<lambda>r. pr_area_id r = a_id a) (plants db)
        = map (plant_row_of (a_id a)) (a_plants a)"
      unfolding tp by (rule filter_concat_key[OF da that]) (auto simp: plant_row_of_def)
    have "p \<in> set (concat (map a_plants gdn))" if "p \<in> set (a_plants a)" for p
      using that \<open>a \<in> set gdn\<close> by auto
    then have "load_journal db (p_id p) = p_journal p" if "p \<in> set (a_plants a)" for p
      using that J by blast
    then show ?thesis
      unfolding load_plants_def f
      by (simp add: plant_row_of_def o_def plant_fields stored_plant_def stored_value_def)
  qed
  show ?thesis
    unfolding loadAllAreas_def ta
    by (simp add: area_row_of_def o_def P area_fields stored_area_def)
qed

lemma write_then_load:
  assumes "write_areas gdn empty_database = Inr db"
  shows "loadAllAreas db = map stored_area gdn"
proof -
  from write_areas_tables[OF assms] have
    d: "db = empty_database\<lparr>areas := areas empty_database @ map area_row_of gdn,
            plants := plants empty_database @
              concat (map (\<lambda>a. map (plant_row_of (a_id a)) (a_plants a)) gdn),
            journal_entries := journal_entries empty_database @
              concat (map (\<lambda>p. map (journal_row_of (p_id p)) (p_journal p))
                (concat (map a_plants gdn)))\<rparr>"
    and da: "distinct (map a_id gdn)"
    and dp: "distinct (map p_id (concat (map a_plants gdn)))"
    by simp_all
  show ?thesis
    by (rule load_written[OF da dp]) (simp_all add: d empty_database_def)
qed

lemma disjoint_after_append:
  assumes "distinct (xs @ ys)" "set (xs @ ys) \<inter> set zs = {}"
  shows "set ys \<inter> set (zs @ xs) = {}"
  using assms by auto

lemma write_journal_succeeds:
  assumes "distinct (map e_id es)"
    and "set (map e_id es) \<inter> set (map jr_id (journal_entries db)) = {}"
    and "pid \<in> set (map pr_id (plants db))"
  shows "\<exists>db'. write_journal pid es db = Inr db'"
  using assms
proof (induction es arbitrary: db)
  case Nil
  then show ?case by simp
next
  case (Cons e es)
  let ?db1 = "db\<lparr>journal_entries := journal_entries db @ [journal_row_of pid e]\<rparr>"
  have i: "insertJournalEntry (e_id e) pid (e_date e) (e_text e) (e_type e) db = Inr ?db1"
    using Cons.prems by (auto simp: insertJournalEntry_def journal_row_of_def)
  have "\<exists>db'. write_journal pid es ?db1 = Inr db'"
    using Cons.prems by (intro Cons.IH) (auto simp: journal_row_of_def)
  with i show ?case by simp
qed

lemma write_plants_succeeds:
  assumes "distinct (map p_id ps)"
    and "set (map p_id ps) \<inter> set (map pr_id (plants db)) = {}"
    and "aid \<in> set (map ar_id (areas db))"
    and "distinct (map e_id (concat (map p_journal ps)))"
    and "set (map e_id (concat (map p_journal ps))) \<inter> set (map jr_id (journal_entries db)) = {}"
  shows "\<exists>db'. write_plants aid ps db = Inr db'"
  using assms
proof (induction ps arbitrary: db)
  case Nil
  then show ?case by simp
next
  case (Cons p ps)
  let ?db1 = "db\<lparr>plants := plants db @ [plant_row_of aid p]\<rparr>"
  have i: "insertPlant (p_id p) aid (p_seedId p) (p_seedTitle p) (p_seedCategory p)
             (p_seedImage p) (p_plantedDate p) (p_stage p) db = Inr ?db1"
    using Cons.prems(1,2,3) by (auto simp: insertPlant_def plant_row_of_def)
  have "\<exists>db2. write_journal (p_id p) (p_journal p) ?db1 = Inr db2"
    using Cons.prems(4,5) by (intro write_journal_succeeds) (auto simp: plant_row_of_def)
  then obtain db2 where j: "write_journal (p_id p) (p_journal p) ?db1 = Inr db2" ..
  from write_journal_tables[OF j] have
    d2: "db2 = ?db1\<lparr>journal_entries := journal_entries ?db1 @ map (journal_row_of (p_id p)) (p_journal p)\<rparr>" .
  have t2: "plants db2 = plants db @ [plant_row_of aid p]" "areas db2 = areas db"
    "map jr_id (journal_entries db2) = map jr_id (journal_entries db) @ map e_id (p_journal p)"
    by (simp_all add: d2 journal_row_of_def o_def)
  have "\<exists>db'. write_plants aid ps db2 = Inr db'"
  proof (rule Cons.IH)
    show "distinct (map p_id ps)" using Cons.prems(1) by simp
    show "set (map p_id ps) \<inter> set (map pr_id (plants db2)) = {}"
      using Cons.prems(1,2) by (auto simp: t2 plant_row_of_def)
    show "aid \<in> set (map ar_id (areas db2))" using Cons.prems(3) by (simp add: t2)
    show "distinct (map e_id (concat (map p_journal ps)))" using Cons.prems(4) by simp
    show "set (map e_id (concat (map p_journal ps))) \<inter> set (map jr_id (journal_entries db2)) = {}"
      unfolding t2 using Cons.prems(4,5) by (intro disjoint_after_append) simp_all
  qed
  with i j show ?case by simp
qed

lemma write_areas_succeeds:
  assumes "distinct (map a_id gdn)"
    and "set (map a_id gdn) \<inter> set (map ar_id (areas db)) = {}"
    and "distinct (map p_id (concat (map a_plants gdn)))"
    and "set (map p_id (concat (map a_plants gdn))) \<inter> set (map pr_id (plants db)) = {}"
    and "distinct (map e_id (concat (map p_journal (concat (map a_plants gdn)))))"
    and "set (map e_id (concat (map p_journal (concat (map a_plants gdn))))) \<inter>
           set (map jr_id (journal_entries db)) = {}"
  shows "\<exists>db'. write_areas gdn db = Inr db'"
  using assms
proof (induction gdn arbitrary: db)
  case Nil
  then show ?case by simp
next
  case (Cons a gdn)
  let ?db1 = "db\<lparr>areas := areas db @ [area_row_of a]\<rparr>"
  have i: "insertArea (a_id a) (a_name a) (a_emoji a) (a_createdAt a) db = Inr ?db1"
    using Cons.prems(2) by (auto simp: insertArea_def area_row_of_def)
  have "\<exists>db2. write_plants (a_id a) (a_plants a) ?db1 = Inr db2"
  proof (rule write_plants_succeeds)
    show "distinct (map p_id (a_plants a))" using Cons.prems(3) by simp
    show "set (map p_id (a_plants a)) \<inter> set (map pr_id (plants ?db1)) = {}"
      using Cons.prems(4) by auto
    show "a_id a \<in> set (map ar_id (areas ?db1))" by (simp add: area_row_of_def)
    show "distinct (map e_id (concat (map p_journal (a_plants a))))" using Cons.prems(5) by simp
    show "set (map e_id (concat (map p_journal (a_plants a)))) \<inter> set (map jr_id (journal_entries ?db1)) = {}"
      using Cons.prems(6) by auto
  qed
  then obtain db2 where w: "write_plants (a_id a) (a_plants a) ?db1 = Inr db2" ..
  from write_plants_tables[OF w] have
    d2: "db2 = ?db1\<lparr>plants := plants ?db1 @ map (plant_row_of (a_id a)) (a_plants a),
            journal_entries := journal_entries ?db1 @
              concat (map (\<lambda>p. map (journal_row_of (p_id p)) (p_journal p)) (a_plants a))\<rparr>"
    by simp
  have t2: "map ar_id (areas db2) = map ar_id (areas db) @ [a_id a]"
    "map pr_id (plants db2) = map pr_id (plants db) @ map p_id (a_plants a)"
    "map jr_id (journal_entries db2)
       = map jr_id (journal_entries db) @ map e_id (concat (map p_journal (a_plants a)))"
    by (simp_all add: d2 area_row_of_def plant_row_of_def journal_row_of_def o_def map_concat)
  have "\<exists>db'. write_areas gdn db2 = Inr db'"
  proof (rule Cons.IH)
    show "distinct (map a_id gdn)" using Cons.prems(1) by simp
    show "set (map a_id gdn) \<inter> set (map ar_id (areas db2)) = {}"
      using Cons.prems(1,2) unfolding t2 by auto
    show "distinct (map p_id (concat (map a_plants gdn)))" using Cons.prems(3) by simp
    show "set (map p_id (concat (map a_plants gdn))) \<inter> set (map pr_id (plants db2)) = {}"
      unfolding t2 using Cons.prems(3,4) by (intro disjoint_after_append) simp_all
    show "distinct (map e_id (concat (map p_journal (concat (map a_plants gdn)))))"
      using Cons.prems(5) by simp
    show "set (map e_id (concat (map p_journal (concat (map a_plants gdn))))) \<inter>
           set (map jr_id (journal_entries db2)) = {}"
      unfolding t2 using Cons.prems(5,6) by (intro disjoint_after_append) simp_all
  qed
  with i w show ?case by simp
qed


lemma load_seed_rows_append:
  "load_seed_rows parse (rows @ [row]) =
     (case load_seed_rows parse rows of
        None \<Rightarrow> None
      | Some seeds \<Rightarrow>
          (case seed_of_row parse row of None \<Rightarrow> None | Some seed \<Rightarrow> Some (seeds @ [seed])))"
  by (induction rows) (auto split: option.splits)

lemma seed_fields:
  "\<lparr>cs_id = cs_id x, cs_title = cs_title x, cs_category = c,
    cs_scientific_name = cs_scientific_name x, cs_description = cs_description x,
    cs_image_url = cs_image_url x, cs_url = u, cs_isCustom = b,
    cs_planting_seasons = cs_planting_seasons x, cs_best_months = cs_best_months x,
    cs_sun_requirements = cs_sun_requirements x, cs_watering = cs_watering x,
    cs_frost_tolerance = cs_frost_tolerance x, cs_difficulty = cs_difficulty x,
    cs_plant_life = cs_plant_life x,
    cs_suitable_for_containers = cs_suitable_for_containers x,
    cs_requires_trellis = cs_requires_trellis x,
    cs_days_to_germination = cs_days_to_germination x,
    cs_days_to_harvest = cs_days_to_harvest x, cs_sowing_depth = cs_sowing_depth x,
    cs_spacing = cs_spacing x, cs_companion_plants = cs_companion_plants x,
    cs_plant_height = cs_plant_height x, cs_drought_tolerant = cs_drought_tolerant x\<rparr>
   = x\<lparr>cs_category := c, cs_url := u, cs_isCustom := b\<rparr>"
  by (cases x) simp

lemma seed_written_then_loaded:
  assumes "insertCustomSeed stringify seed db0 = Inr db1"
    and "parse (stringify (cs_planting_seasons seed)) = Some (cs_planting_seasons seed)"
    and "stringify (cs_planting_seasons seed) \<noteq> []"
    and "loadAllCustomSeeds parse db0 = Some old"
  shows "loadAllCustomSeeds parse db1 =
           Some (old @ [seed\<lparr>cs_category :=
                          Some (case cs_category seed of None \<Rightarrow> ''Vegetable'' | Some c \<Rightarrow> c),
                        cs_url := None, cs_isCustom := True\<rparr>])"
proof -
  from assms(1) obtain row where
    t: "custom_seeds db1 = custom_seeds db0 @ [row]"
    and r: "seed_of_row parse row =
      Some (seed\<lparr>cs_category := Some (case cs_category seed of None \<Rightarrow> ''Vegetable'' | Some c \<Rightarrow> c),
                 cs_url := None, cs_isCustom := True\<rparr>)"
    using assms(2,3)
    by (auto simp: insertCustomSeed_def seed_of_row_def seed_fields split: if_splits)
  show ?thesis
    using assms(4) by (simp add: loadAllCustomSeeds_def t load_seed_rows_append r)
qed



lemma number_text_12: "number_text 12 = ''12''"
  by code_simp

lemma numbered_written:
  "write_areas numbered_garden empty_database = Inr numbered_database"
  by (simp add: numbered_garden_def numbered_database_def empty_database_def insertArea_def
      insertPlant_def insertJournalEntry_def number_text_12)

text \<open>
  Claim C7 says that what \<open>loadAllAreas\<close> returns is exactly what was written. A plant
  whose catalog id is the number 12 and whose image is \<open>undefined\<close>, written with the insert
  functions into the empty database, comes back with the id \<open>'12'\<close>, a string, and the
  image \<open>null\<close>.
\<close>

theorem numbers_come_back_as_text_counterexample:
  "write_areas numbered_garden empty_database = Inr numbered_database \<and>
   loadAllAreas numbered_database \<noteq> numbered_garden \<and>
   map (\<lambda>a. map p_seedId (a_plants a)) numbered_garden = [[Num 12]] \<and>
   map (\<lambda>a. map p_seedId (a_plants a)) (loadAllAreas numbered_database) = [[Str ''12'']] \<and>
   map (\<lambda>a. map p_seedImage (a_plants a)) numbered_garden = [[Undefined]] \<and>
   map (\<lambda>a. map p_seedImage (a_plants a)) (loadAllAreas numbered_database) = [[Null]]"
  by (simp add: numbered_written)
     (simp add: numbered_garden_def numbered_database_def loadAllAreas_def load_plants_def
       load_journal_def)

text \<open>
  Claim C7, amended. Of the four denormalised fields of a plant (\<open>seedId\<close>, \<open>seedTitle\<close>,
  \<open>seedCategory\<close>, \<open>seedImage\<close>) a load returns what a column of type \<open>TEXT\<close> keeps:
  \<open>undefined\<close> comes back as \<open>null\<close> and a number as its decimal text, \<open>null\<close> and a string
  as they are. With this reading of the four fields, and every other field, the nesting and
  the order exactly as written:
  \<^item> any sequence of calls of \<open>insertArea\<close>, \<open>insertPlant\<close> and \<open>insertJournalEntry\<close>, in any
    order, that all succeed on a durable state satisfying the schema's keys, makes
    \<open>loadAllAreas\<close> return the previous result with the inserted areas, plants and entries
    added in the order of the calls, each under its parent; in particular from the empty
    database it returns the structure that the calls describe;
  \<^item> a garden written area by area, each area before its plants and each plant before its
    entries, is returned in the same way, and this writing succeeds when the ids of the
    areas, of the plants and of the entries are distinct;
  \<^item> the returned structure equals the written one exactly if and only if the four fields of
    every plant are strings or \<open>null\<close>.
  A custom catalog entry that \<open>insertCustomSeed\<close> has written comes back from
  \<open>loadAllCustomSeeds\<close> after the entries stored before it, with its three flags as the
  booleans they were and its \<open>planting_seasons\<close> unchanged, given that the platform's
  \<open>JSON.parse\<close> reads back what its \<open>JSON.stringify\<close> wrote for that array; \<open>isCustom\<close> is
  true, \<open>url\<close> is \<open>null\<close> and an absent category is \<open>Vegetable\<close>.
\<close>

theorem written_garden_loads_as_stored:
  "(consistent db \<and> list_all is_insert ws \<and> run_writes fails ws db = Inr dbA \<and>
    loadAllAreas db = map stored_area g \<longrightarrow>
      consistent dbA \<and> loadAllAreas dbA = map stored_area (fold written ws g)) \<and>
   (list_all is_insert ws \<and> run_writes fails ws empty_database = Inr dbB \<and>
    fold written ws [] = gdn \<longrightarrow>
      loadAllAreas dbB = map stored_area gdn) \<and>
   (write_areas gdn empty_database = Inr dbC \<longrightarrow> loadAllAreas dbC = map stored_area gdn) \<and>
   (distinct (map a_id gdn) \<and> distinct (map p_id (concat (map a_plants gdn))) \<and>
    distinct (map e_id (concat (map p_journal (concat (map a_plants gdn))))) \<longrightarrow>
      (\<exists>dbD. write_areas gdn empty_database = Inr dbD \<and> loadAllAreas dbD = map stored_area gdn)) \<and>
   ((map stored_area gdn = gdn) = plain_garden gdn) \<and>
   stored_value Undefined = Null \<and> stored_value Null = Null \<and> stored_value (Str s) = Str s \<and>
   stored_value (Num n) = Str (number_text n) \<and>
   (insertCustomSeed stringify seed db0 = Inr db1 \<and>
    parse (stringify (cs_planting_seasons seed)) = Some (cs_planting_seasons seed) \<and>
    stringify (cs_planting_seasons seed) \<noteq> [] \<and>
    loadAllCustomSeeds parse db0 = Some old \<longrightarrow>
      loadAllCustomSeeds parse db1 =
        Some (old @ [seed\<lparr>cs_category :=
                       Some (case cs_category seed of None \<Rightarrow> ''Vegetable'' | Some c \<Rightarrow> c),
                     cs_url := None, cs_isCustom := True\<rparr>]))"
proof (intro conjI impI)
  assume a: "consistent db \<and> list_all is_insert ws \<and> run_writes fails ws db = Inr dbA \<and>
    loadAllAreas db = map stored_area g"
  note r = inserts_loaded[OF a[THEN conjunct2, THEN conjunct1] a[THEN conjunct1]
      a[THEN conjunct2, THEN conjunct2, THEN conjunct1]
      a[THEN conjunct2, THEN conjunct2, THEN conjunct2]]
  show "consistent dbA" by (rule r[THEN conjunct1])
  show "loadAllAreas dbA = map stored_area (fold written ws g)" by (rule r[THEN conjunct2])
next
  assume a: "list_all is_insert ws \<and> run_writes fails ws empty_database = Inr dbB \<and>
    fold written ws [] = gdn"
  from inserts_loaded[OF a[THEN conjunct1] empty_database_loaded[THEN conjunct1]
      a[THEN conjunct2, THEN conjunct1] empty_database_loaded[THEN conjunct2]]
  show "loadAllAreas dbB = map stored_area gdn"
    by (simp add: a[THEN conjunct2, THEN conjunct2])
next
  assume "write_areas gdn empty_database = Inr dbC"
  then show "loadAllAreas dbC = map stored_area gdn" by (rule write_then_load)
next
  assume d: "distinct (map a_id gdn) \<and> distinct (map p_id (concat (map a_plants gdn))) \<and>
    distinct (map e_id (concat (map p_journal (concat (map a_plants gdn)))))"
  have "\<exists>dbD. write_areas gdn empty_database = Inr dbD"
    using d by (intro write_areas_succeeds) (simp_all add: empty_database_def)
  then obtain dbD where w: "write_areas gdn empty_database = Inr dbD" ..
  with write_then_load[OF w]
  show "\<exists>dbD. write_areas gdn empty_database = Inr dbD \<and> loadAllAreas dbD = map stored_area gdn"
    by blast
next
  show "(map stored_area gdn = gdn) = plain_garden gdn" by (rule stored_garden_plain)
next
  show "stored_value Undefined = Null" "stored_value Null = Null" "stored_value (Str s) = Str s"
    "stored_value (Num n) = Str (number_text n)"
    by (simp_all add: stored_value_def)
next
  assume a: "insertCustomSeed stringify seed db0 = Inr db1 \<and>
    parse (stringify (cs_planting_seasons seed)) = Some (cs_planting_seasons seed) \<and>
    stringify (cs_planting_seasons seed) \<noteq> [] \<and>
    loadAllCustomSeeds parse db0 = Some old"
  show "loadAllCustomSeeds parse db1 =
        Some (old @ [seed\<lparr>cs_category :=
                       Some (case cs_category seed of None \<Rightarrow> ''Vegetable'' | Some c \<Rightarrow> c),
                     cs_url := None, cs_isCustom := True\<rparr>])"
    by (rule seed_written_then_loaded
          [OF a[THEN conjunct1] a[THEN conjunct2, THEN conjunct1]
              a[THEN conjunct2, THEN conjunct2, THEN conjunct1]
              a[THEN conjunct2, THEN conjunct2, THEN conjunct2]])
qed

lemma mixed_writes_run:
  "\<exists>db. run_writes no_failure mixed_writes empty_database = Inr db"
  by (simp add: mixed_writes_def run_write_def no_failure_def empty_database_def insertArea_def
      insertPlant_def insertJournalEntry_def)

lemma mixed_writes_written:
  "list_all is_insert mixed_writes \<and> fold written mixed_writes [] \<noteq> sample_garden \<and>
   map stored_area (fold written mixed_writes []) = sample_garden"
  by (simp add: mixed_writes_def sample_garden_def sample_journal_def stored_area_def
      stored_plant_def stored_value_def)

theorem written_garden_loads_as_stored_witness:
  "list_all is_insert mixed_writes \<and>
   fold written mixed_writes [] \<noteq> sample_garden \<and>
   (\<exists>db. run_writes no_failure mixed_writes empty_database = Inr db \<and> consistent db \<and>
      loadAllAreas db = sample_garden) \<and>
   write_areas numbered_garden empty_database = Inr numbered_database \<and>
   loadAllAreas numbered_database = map stored_area numbered_garden \<and>
   map (\<lambda>a. map p_seedId (a_plants a)) (map stored_area numbered_garden) = [[Str ''12'']] \<and>
   plain_garden sample_garden \<and> map stored_area sample_garden = sample_garden \<and>
   \<not> plain_garden numbered_garden \<and>
   (\<exists>db. write_areas sample_garden empty_database = Inr db \<and> loadAllAreas db = sample_garden) \<and>
   plain_parse (plain_stringify (cs_planting_seasons sample_seed)) = Some [''Autumn'', ''Winter''] \<and>
   (\<exists>db1. insertCustomSeed plain_stringify sample_seed sample_database = Inr db1 \<and>
      loadAllCustomSeeds plain_parse db1 = Some [sample_seed])"
proof -
  obtain dbm where m: "run_writes no_failure mixed_writes empty_database = Inr dbm"
    using mixed_writes_run ..
  have e: "consistent empty_database" "loadAllAreas empty_database = map stored_area []"
    by (simp_all add: empty_database_loaded)
  have i: "list_all is_insert mixed_writes" by (simp add: mixed_writes_written)
  have "consistent dbm \<and> loadAllAreas dbm = map stored_area (fold written mixed_writes [])"
    using written_garden_loads_as_stored
      [where db = empty_database and ws = mixed_writes and fails = no_failure and dbA = dbm
         and g = "[]"]
      e i m by blast
  then have l: "consistent dbm \<and> loadAllAreas dbm = sample_garden"
    by (simp add: mixed_writes_written)
  have n: "loadAllAreas numbered_database = map stored_area numbered_garden"
    using written_garden_loads_as_stored [where gdn = numbered_garden and dbC = numbered_database]
      numbered_written by blast
  have v: "map (\<lambda>a. map p_seedId (a_plants a)) (map stored_area numbered_garden) = [[Str ''12'']]"
    by (simp add: numbered_garden_def stored_area_def stored_plant_def stored_value_def number_text_12)
  have ps: "plain_garden sample_garden"
    by (simp add: plain_garden_def plain_plant_def sample_garden_def)
  have pn: "\<not> plain_garden numbered_garden"
    by (simp add: plain_garden_def plain_plant_def numbered_garden_def)
  have st: "map stored_area sample_garden = sample_garden"
    using written_garden_loads_as_stored [where gdn = sample_garden] ps by blast
  have d: "distinct (map a_id sample_garden) \<and>
    distinct (map p_id (concat (map a_plants sample_garden))) \<and>
    distinct (map e_id (concat (map p_journal (concat (map a_plants sample_garden)))))"
    by (simp add: sample_garden_def sample_journal_def)
  have "\<exists>dbD. write_areas sample_garden empty_database = Inr dbD \<and>
      loadAllAreas dbD = map stored_area sample_garden"
    using written_garden_loads_as_stored [where gdn = sample_garden] d by blast
  then have w: "\<exists>db. write_areas sample_garden empty_database = Inr db \<and> loadAllAreas db = sample_garden"
    by (simp add: st)
  have c: "plain_parse (plain_stringify (cs_planting_seasons sample_seed)) = Some (cs_planting_seasons sample_seed)"
    by (simp add: plain_parse_def plain_stringify_def sample_seed_def)
  have ne: "plain_stringify (cs_planting_seasons sample_seed) \<noteq> []"
    by (simp add: plain_stringify_def)
  have o: "loadAllCustomSeeds plain_parse sample_database = Some []"
    by (simp add: loadAllCustomSeeds_def sample_database_def)
  obtain db1 where s1: "insertCustomSeed plain_stringify sample_seed sample_database = Inr db1"
    by (simp add: insertCustomSeed_def sample_database_def)
  have "loadAllCustomSeeds plain_parse db1 =
      Some ([] @ [sample_seed\<lparr>cs_category :=
                       Some (case cs_category sample_seed of None \<Rightarrow> ''Vegetable'' | Some c \<Rightarrow> c),
                     cs_url := None, cs_isCustom := True\<rparr>])"
    using written_garden_loads_as_stored
      [where stringify = plain_stringify and seed = sample_seed and ?db0.0 = sample_database
         and ?db1.0 = db1 and parse = plain_parse and old = "[]"]
      s1 c ne o by blast
  then have s: "loadAllCustomSeeds plain_parse db1 = Some [sample_seed]"
    by (simp add: sample_seed_def)
  have c': "plain_parse (plain_stringify (cs_planting_seasons sample_seed)) = Some [''Autumn'', ''Winter'']"
    using c by (simp add: sample_seed_def)
  have sd: "\<exists>db1. insertCustomSeed plain_stringify sample_seed sample_database = Inr db1 \<and>
      loadAllCustomSeeds plain_parse db1 = Some [sample_seed]"
    using s1 s by blast
  have mx: "\<exists>db. run_writes no_failure mixed_writes empty_database = Inr db \<and> consistent db \<and>
      loadAllAreas db = sample_garden"
    using m l by blast
  from mixed_writes_written mx numbered_written n v ps st pn w c' sd show ?thesis
    by simp
qed

end
